theory Spec2Isabelle
  imports Complex_Main "HOL-Library.AList"
begin

section \<open>Scout-then-Snipe pipeline: a shallow embedding\<close>

text \<open>
  The development follows the TypeScript sources of the pipeline:
  \<^verbatim>\<open>src/agents/scout/filter.ts\<close> (spread filter, weighted median),
  \<^verbatim>\<open>src/agents/scout/sources.ts\<close> (price extraction),
  \<^verbatim>\<open>src/agents/scout/runner.ts\<close> (orchestrator, snipe loop, opportunity parsing),
  \<^verbatim>\<open>src/lib/agent-queue.ts\<close> (concurrency queue) and the budget ledger module.

  Conventions. Money amounts are integer cents (\<open>int\<close>); percentages and dollar amounts
  that the source computes by division are rationals (\<open>rat\<close>), so the arithmetic is the
  exact one that the source's doubles approximate. \<open>Math.round\<close> is rounding half up.
  JavaScript strings are modelled as \<open>string\<close>; the few characters outside ASCII in
  the string literals of the source (an arrow, a dash, an ellipsis) are written \<open>->\<close>,
  \<open>-\<close> and \<open>...\<close>.
\<close>

subsection \<open>Budget ledger\<close>

record BudgetConfig =
  dailyTokenLimit :: int
  perRunTokenLimit :: int
  perRunToolCallLimit :: int

record RunUsageEntry =
  run_agentType :: string
  run_startedAt :: string
  run_inputTokens :: int
  run_outputTokens :: int
  run_totalTokens :: int
  run_toolCalls :: int

record TokenUsageEntry =
  date :: string
  totalTokens :: int
  usage_totalInputTokens :: int
  usage_totalOutputTokens :: int
  runs :: "RunUsageEntry list"

record BudgetStatus =
  allowed :: bool
  remaining :: int
  used :: int
  limit :: int
  runsToday :: nat

definition DEFAULT_BUDGET :: BudgetConfig where
  "DEFAULT_BUDGET =
     \<lparr>dailyTokenLimit = 500000, perRunTokenLimit = 50000, perRunToolCallLimit = 25\<rparr>"

text \<open>
  \<open>readUsage\<close>: \<open>today\<close> is the value of \<open>todayUTC()\<close>; \<open>stored\<close> is what
  \<open>JSON.parse(readFile(BUDGET_FILE))\<close> yields, with \<open>None\<close> when the read or the parse
  throws (the \<open>catch\<close> branch).
\<close>

definition freshUsage :: "string \<Rightarrow> TokenUsageEntry" where
  "freshUsage today =
     \<lparr>date = today, totalTokens = 0, usage_totalInputTokens = 0, usage_totalOutputTokens = 0, runs = []\<rparr>"

definition readUsage :: "string \<Rightarrow> TokenUsageEntry option \<Rightarrow> TokenUsageEntry" where
  "readUsage today stored =
     (case stored of
        None \<Rightarrow> freshUsage today
      | Some usage \<Rightarrow> if date usage \<noteq> today then freshUsage today else usage)"

definition checkBudget :: "BudgetConfig \<Rightarrow> string \<Rightarrow> TokenUsageEntry option \<Rightarrow> BudgetStatus" where
  "checkBudget config today stored =
     (let usage = readUsage today stored in
      \<lparr>allowed = totalTokens usage < dailyTokenLimit config,
       remaining = max 0 (dailyTokenLimit config - totalTokens usage),
       used = totalTokens usage,
       limit = dailyTokenLimit config,
       runsToday = length (runs usage)\<rparr>)"

text \<open>
  \<open>recordUsage\<close> reads the ledger, adds the call's tokens and one run entry, and writes
  the ledger back; the result is the new stored ledger. \<open>now\<close> is the ISO timestamp.
\<close>

definition recordUsage ::
  "string \<Rightarrow> string \<Rightarrow> string \<Rightarrow> int \<Rightarrow> int \<Rightarrow> int \<Rightarrow> TokenUsageEntry option \<Rightarrow> TokenUsageEntry option"
where
  "recordUsage today now agentType inputTokens outputTokens toolCalls stored =
     (let usage = readUsage today stored;
          total = inputTokens + outputTokens
      in Some (usage\<lparr>totalTokens := totalTokens usage + total,
                     usage_totalInputTokens := usage_totalInputTokens usage + inputTokens,
                     usage_totalOutputTokens := usage_totalOutputTokens usage + outputTokens,
                     runs := runs usage @
                       [\<lparr>run_agentType = agentType, run_startedAt = now,
                         run_inputTokens = inputTokens, run_outputTokens = outputTokens,
                         run_totalTokens = total, run_toolCalls = toolCalls\<rparr>]\<rparr>))"

subsection \<open>Weighted median\<close>

record WeightedEntry =
  entry_value :: int
  entry_weight :: int

text \<open>
  The \<open>for\<close> loop of \<open>weightedMedian\<close> over the sorted entries: \<open>None\<close> when the loop
  runs off the end without returning.
\<close>

fun medianLoop :: "rat \<Rightarrow> int \<Rightarrow> WeightedEntry list \<Rightarrow> int option" where
  "medianLoop halfWeight cumulative [] = None"
| "medianLoop halfWeight cumulative (e # es) =
     (let cumulative' = cumulative + entry_weight e
      in if of_int cumulative' \<ge> halfWeight then Some (entry_value e)
         else medianLoop halfWeight cumulative' es)"

definition weightedMedian :: "WeightedEntry list \<Rightarrow> int" where
  "weightedMedian entries =
     (case entries of
        [] \<Rightarrow> 0
      | [e] \<Rightarrow> entry_value e
      | _ \<Rightarrow>
         (let sorted = sort_key entry_value entries;
              totalWeight = foldl (\<lambda>sum e. sum + entry_weight e) 0 sorted;
              halfWeight = of_int totalWeight / 2
          in case medianLoop halfWeight 0 sorted of
               Some v \<Rightarrow> v
             | None \<Rightarrow> entry_value (last sorted)))"

text \<open>
  In the words of the specification: the cumulative weight reached at position \<open>i\<close> of the
  entries taken in ascending order of value.
\<close>

definition cumulativeWeight :: "WeightedEntry list \<Rightarrow> nat \<Rightarrow> int" where
  "cumulativeWeight ordered i = sum_list (map entry_weight (take (Suc i) ordered))"

text \<open>
  The entries of the specification's example, and entries whose smallest value already
  carries more than half of the weight.
\<close>

definition specEntries :: "WeightedEntry list" where
  "specEntries =
     [\<lparr>entry_value = 100, entry_weight = 1\<rparr>,
      \<lparr>entry_value = 200, entry_weight = 1\<rparr>,
      \<lparr>entry_value = 300, entry_weight = 3\<rparr>]"

definition headHeavyEntries :: "WeightedEntry list" where
  "headHeavyEntries =
     [\<lparr>entry_value = 300, entry_weight = 1\<rparr>,
      \<lparr>entry_value = 100, entry_weight = 3\<rparr>,
      \<lparr>entry_value = 200, entry_weight = 1\<rparr>]"

subsection \<open>Numbers and their decimal text\<close>

text \<open>\<open>Math.round\<close>: the nearest integer, a tie going up.\<close>

definition Math_round :: "rat \<Rightarrow> int" where
  "Math_round x = \<lfloor>x + 1 / 2\<rfloor>"

definition digitChar :: "nat \<Rightarrow> char" where
  "digitChar d = ''0123456789'' ! d"

text \<open>\<open>String(n)\<close> for a natural number \<open>n\<close> (template literals, \<open>toFixed\<close>).\<close>

function decimal :: "nat \<Rightarrow> string" where
  "decimal n = (if n < 10 then [digitChar n] else decimal (n div 10) @ [digitChar (n mod 10)])"
  by pat_completeness auto
termination
  by (relation "measure id") auto

declare decimal.simps [simp del]

text \<open>
  \<open>x.toFixed(f)\<close> below the magnitude \<open>1e21\<close> where JavaScript switches to exponent
  notation: the sign of \<open>x\<close>, then the integer nearest to \<open>|x| * 10^f\<close> (a tie going
  up), left-padded with zeros to \<open>f + 1\<close> digits, with a point before the last \<open>f\<close>.
\<close>

definition toFixed :: "nat \<Rightarrow> rat \<Rightarrow> string" where
  "toFixed f x =
     (let n = nat \<lfloor>\<bar>x\<bar> * 10 ^ f + 1 / 2\<rfloor>;
          ds = decimal n;
          padded = replicate (f + 1 - length ds) (CHR ''0'') @ ds;
          k = length padded - f
      in (if x < 0 then ''-'' else []) @ take k padded
         @ (if f = 0 then [] else ''.'' @ drop k padded))"

subsection \<open>Crypto spreads and the opportunities built from them\<close>

datatype SellPriceType = verified | estimated | research_needed

record CryptoSpread =
  pair :: string
  buyExchange :: string
  spread_buyPrice :: rat
  spread_buyUrl :: string
  sellExchange :: string
  spread_sellPrice :: rat
  spread_sellUrl :: string
  spread_spreadPercent :: rat
  spreadAmount :: rat

text \<open>
  A quote of one exchange for one pair (\<open>CryptoPrice\<close>). The fetchers keep a quote only
  \<open>if (price)\<close>, so that a quote's price is never zero.
\<close>

record CryptoPrice =
  quote_exchange :: string
  quote_pair :: string
  quote_price :: rat
  quote_url :: string
  quote_timestamp :: nat

text \<open>
  \<open>findCryptoSpreads\<close>. The \<open>Map\<close> groups the quotes by pair, the pairs in the order of
  their first quote and the quotes of a pair in the order given; the two nested \<open>for\<close>
  loops visit the quotes of a pair two by two, \<open>i < j\<close>; the result is sorted, largest
  percentage first, by a stable sort.
\<close>

definition distinctInOrder :: "'a list \<Rightarrow> 'a list" where
  "distinctInOrder xs = rev (remdups (rev xs))"

fun pairsInOrder :: "'a list \<Rightarrow> ('a \<times> 'a) list" where
  "pairsInOrder [] = []"
| "pairsInOrder (a # rest) = map (Pair a) rest @ pairsInOrder rest"

definition spreadBetween :: "rat \<Rightarrow> string \<Rightarrow> CryptoPrice \<times> CryptoPrice \<Rightarrow> CryptoSpread list" where
  "spreadBetween threshold pairName ab =
     (let a = fst ab;
          b = snd ab;
          low = (if quote_price a < quote_price b then a else b);
          high = (if quote_price a < quote_price b then b else a);
          percent = ((quote_price high - quote_price low) / quote_price low) * 100
      in if percent \<ge> threshold then
           [\<lparr>pair = pairName,
             buyExchange = quote_exchange low,
             spread_buyPrice = quote_price low,
             spread_buyUrl = quote_url low,
             sellExchange = quote_exchange high,
             spread_sellPrice = quote_price high,
             spread_sellUrl = quote_url high,
             spread_spreadPercent = percent,
             spreadAmount = quote_price high - quote_price low\<rparr>]
         else [])"

definition findCryptoSpreads :: "CryptoPrice list \<Rightarrow> rat \<Rightarrow> CryptoSpread list" where
  "findCryptoSpreads prices threshold =
     (let byPair = map (\<lambda>name. (name, filter (\<lambda>q. quote_pair q = name) prices))
                     (distinctInOrder (map quote_pair prices));
          spreads = concat (map (\<lambda>(name, exchangePrices).
                                   if length exchangePrices < 2 then []
                                   else concat (map (spreadBetween threshold name)
                                                  (pairsInOrder exchangePrices)))
                              byPair)
      in sort_key (\<lambda>spread. - spread_spreadPercent spread) spreads)"

record Fees =
  platformFee :: "int option"
  shippingCost :: "int option"
  paymentProcessing :: "int option"
  other :: "int option"
  total :: int

record ParsedOpportunity =
  title :: string
  description :: string
  buyPrice :: int
  buySource :: string
  buyUrl :: string
  sellPrice :: int
  sellSource :: string
  sellUrl :: string
  sellPriceType :: SellPriceType
  estimatedProfit :: int
  fees :: Fees
  confidence :: int
  riskNotes :: "string list"
  reasoning :: string

text \<open>The body of the \<open>spreads.map\<close> callback of \<open>buildCryptoOpportunities\<close>.\<close>

definition buildCryptoOpportunity :: "CryptoSpread \<Rightarrow> ParsedOpportunity" where
  "buildCryptoOpportunity spread =
     (let buyPriceCents = Math_round (spread_buyPrice spread * 100);
          sellPriceCents = Math_round (spread_sellPrice spread * 100);
          buyFee = Math_round (of_int buyPriceCents * (1 / 1000));
          sellFee = Math_round (of_int sellPriceCents * (1 / 1000));
          withdrawalFee = 500;
          totalFees = buyFee + sellFee + withdrawalFee;
          profit = sellPriceCents - buyPriceCents - totalFees
      in \<lparr>title = pair spread @ '' Spread: '' @ buyExchange spread @ '' -> '' @ sellExchange spread,
          description = pair spread @ '' is trading at $'' @ toFixed 2 (spread_buyPrice spread)
            @ '' on '' @ buyExchange spread @ '' and $'' @ toFixed 2 (spread_sellPrice spread)
            @ '' on '' @ sellExchange spread @ ''. Spread: ''
            @ toFixed 3 (spread_spreadPercent spread) @ ''%.'',
          buyPrice = buyPriceCents,
          buySource = buyExchange spread,
          buyUrl = spread_buyUrl spread,
          sellPrice = sellPriceCents,
          sellSource = sellExchange spread,
          sellUrl = spread_sellUrl spread,
          sellPriceType = verified,
          estimatedProfit = max 0 profit,
          fees = \<lparr>platformFee = Some (buyFee + sellFee), shippingCost = None,
                  paymentProcessing = None, other = Some withdrawalFee, total = totalFees\<rparr>,
          confidence = (if spread_spreadPercent spread > 1 then 85
                        else if spread_spreadPercent spread > 1 / 2 then 70 else 55),
          riskNotes = [''Spread may close during transfer time'',
                       ''Transfer time depends on network congestion'',
                       ''Price is a snapshot - may change by the time you trade''],
          reasoning = ''Live API data: '' @ buyExchange spread @ '' price $''
            @ toFixed 2 (spread_buyPrice spread) @ '' vs '' @ sellExchange spread @ '' price $''
            @ toFixed 2 (spread_sellPrice spread) @ ''. Raw spread ''
            @ toFixed 3 (spread_spreadPercent spread) @ ''%.''\<rparr>)"

definition buildCryptoOpportunities :: "CryptoSpread list \<Rightarrow> ParsedOpportunity list" where
  "buildCryptoOpportunities spreads = map buildCryptoOpportunity spreads"

text \<open>
  A spread as \<open>findCryptoSpreads\<close> reports it for two exchanges quoting 100.00 and 101.00
  dollars for one pair (1 percent apart).
\<close>

definition onePercentSpread :: CryptoSpread where
  "onePercentSpread =
     \<lparr>pair = ''BTC/USDT'', buyExchange = ''Binance'', spread_buyPrice = 100,
      spread_buyUrl = ''https://www.binance.com/en/trade/BTC_USDT'',
      sellExchange = ''Kraken'', spread_sellPrice = 101,
      spread_sellUrl = ''https://www.kraken.com/prices/btc'',
      spread_spreadPercent = 1, spreadAmount = 1\<rparr>"

text \<open>The same pair quoted 100.00 and 110.00 dollars (10 percent apart).\<close>

definition tenPercentSpread :: CryptoSpread where
  "tenPercentSpread = onePercentSpread\<lparr>spread_sellPrice := 110, spread_spreadPercent := 10,
     spreadAmount := 10\<rparr>"

text \<open>The two quotes behind the first of these spreads, and two quotes that agree.\<close>

definition spreadQuotes :: "CryptoPrice list" where
  "spreadQuotes =
     [\<lparr>quote_exchange = ''Binance'', quote_pair = ''BTC/USDT'', quote_price = 100,
       quote_url = ''https://www.binance.com/en/trade/BTC_USDT'', quote_timestamp = 1\<rparr>,
      \<lparr>quote_exchange = ''Kraken'', quote_pair = ''BTC/USDT'', quote_price = 101,
       quote_url = ''https://www.kraken.com/prices/btc'', quote_timestamp = 1\<rparr>]"

definition levelQuotes :: "CryptoPrice list" where
  "levelQuotes =
     [\<lparr>quote_exchange = ''Binance'', quote_pair = ''BTC/USDT'', quote_price = 100,
       quote_url = ''https://www.binance.com/en/trade/BTC_USDT'', quote_timestamp = 1\<rparr>,
      \<lparr>quote_exchange = ''Kraken'', quote_pair = ''BTC/USDT'', quote_price = 100,
       quote_url = ''https://www.kraken.com/prices/btc'', quote_timestamp = 1\<rparr>]"

subsection \<open>Concurrency queue\<close>

datatype AgentType = listings | auctions | crypto | retail | tickets | collectibles | books

fun agentTypeName :: "AgentType \<Rightarrow> string" where
  "agentTypeName listings = ''listings''"
| "agentTypeName auctions = ''auctions''"
| "agentTypeName crypto = ''crypto''"
| "agentTypeName retail = ''retail''"
| "agentTypeName tickets = ''tickets''"
| "agentTypeName collectibles = ''collectibles''"
| "agentTypeName books = ''books''"

text \<open>
  The module state of \<^verbatim>\<open>agent-queue.ts\<close>. \<open>activeRuns\<close> is the \<open>Map\<close> from run id to
  agent type, in insertion order; the key \<open>run_n\<close> is the number \<open>n\<close>. A \<open>QueuedRun\<close>
  holds its \<open>execute\<close> callback (named by a number) and, for its \<open>resolve\<close>/\<open>reject\<close> pair,
  the identity of the \<open>started\<close> promise they settle. \<open>promises\<close> is the store of all
  \<open>started\<close> promises created so far, a promise being named by its index, and \<open>launched\<close>
  logs each call of an \<open>execute\<close> callback with the run id it was started under.
\<close>

datatype PromiseState = Pending | Resolved | Rejected string

record QueuedRun =
  agentType :: AgentType
  execute :: nat
  promise :: nat

record QueueState =
  activeRuns :: "(nat \<times> AgentType) list"
  queue :: "QueuedRun list"
  runIdCounter :: nat
  promises :: "PromiseState list"
  launched :: "(nat \<times> nat) list"

definition MAX_CONCURRENT :: nat where
  "MAX_CONCURRENT = 2"

definition initialQueueState :: QueueState where
  "initialQueueState =
     \<lparr>activeRuns = [], queue = [], runIdCounter = 0, promises = [], launched = []\<rparr>"

definition isAgentRunning :: "AgentType \<Rightarrow> QueueState \<Rightarrow> bool" where
  "isAgentRunning t s = (t \<in> set (map snd (activeRuns s)))"

text \<open>Settling a promise has an effect only while it is pending.\<close>

definition settle :: "nat \<Rightarrow> PromiseState \<Rightarrow> QueueState \<Rightarrow> QueueState" where
  "settle p outcome s =
     (if p < length (promises s) \<and> promises s ! p = Pending
      then s\<lparr>promises := (promises s)[p := outcome]\<rparr> else s)"

text \<open>
  \<open>const runId = `run_${++runIdCounter}`; activeRuns.set(runId, agentType)\<close> followed,
  where the source has it, by the call \<open>execute()\<close>.
\<close>

definition startRun :: "AgentType \<Rightarrow> QueueState \<Rightarrow> QueueState" where
  "startRun t s =
     (let runId = runIdCounter s + 1
      in s\<lparr>runIdCounter := runId, activeRuns := AList.update runId t (activeRuns s)\<rparr>)"

definition callExecute :: "nat \<Rightarrow> QueueState \<Rightarrow> QueueState" where
  "callExecute e s = s\<lparr>launched := launched s @ [(runIdCounter s, e)]\<rparr>"

fun findIndex :: "('a \<Rightarrow> bool) \<Rightarrow> 'a list \<Rightarrow> nat option" where
  "findIndex P [] = None"
| "findIndex P (x # xs) =
     (if P x then Some 0 else map_option Suc (findIndex P xs))"

function processQueue :: "QueueState \<Rightarrow> QueueState" where
  "processQueue s =
     (if length (activeRuns s) < MAX_CONCURRENT \<and> queue s \<noteq> [] then
        (let next = hd (queue s);
             s1 = s\<lparr>queue := tl (queue s)\<rparr>;
             s2 = startRun (agentType next) s1;
             s3 = settle (promise next) Resolved s2;
             s4 = callExecute (execute next) s3
         in processQueue s4)
      else s)"
  by pat_completeness auto
termination
  by (relation "measure (\<lambda>s. length (queue s))")
     (auto simp: startRun_def settle_def callExecute_def Let_def)

declare processQueue.simps [simp del]

text \<open>
  \<open>enqueueAgentRun(agentType, execute)\<close> returns \<open>{position, started}\<close>, the promise
  given by its name in the store, and the new module state.
\<close>

definition enqueueAgentRun ::
  "AgentType \<Rightarrow> nat \<Rightarrow> QueueState \<Rightarrow> (int \<times> nat) \<times> QueueState" where
  "enqueueAgentRun t e s =
     (let started = length (promises s) in
      if isAgentRunning t s then
        ((- 1, started),
         s\<lparr>promises := promises s @ [Rejected (agentTypeName t @ '' agent is already running'')]\<rparr>)
      else
        (let s1 = (case findIndex (\<lambda>q. agentType q = t) (queue s) of
                     None \<Rightarrow> s
                   | Some existingIdx \<Rightarrow>
                       (let removed = queue s ! existingIdx
                        in settle (promise removed) (Rejected ''Replaced by new run'')
                             (s\<lparr>queue := take existingIdx (queue s)
                                           @ drop (Suc existingIdx) (queue s)\<rparr>)))
         in if length (activeRuns s1) < MAX_CONCURRENT then
              ((0, started),
               (callExecute e (startRun t s1))\<lparr>promises := promises s1 @ [Resolved]\<rparr>)
            else
              (let s2 = s1\<lparr>promises := promises s1 @ [Pending],
                          queue := queue s1 @ [\<lparr>agentType = t, execute = e, promise = started\<rparr>]\<rparr>
               in ((int (length (queue s2)), started), s2))))"

text \<open>The \<open>finally\<close> callback attached to the execution started under \<open>runId\<close>.\<close>

definition runFinished :: "nat \<Rightarrow> QueueState \<Rightarrow> QueueState" where
  "runFinished runId s = processQueue (s\<lparr>activeRuns := AList.delete runId (activeRuns s)\<rparr>)"

text \<open>
  What happens to the module, one event at a time: a call of \<open>enqueueAgentRun\<close>, or the
  completion (success or failure) of an execution.
\<close>

datatype QueueEvent = Enqueue AgentType nat | Finished nat

fun queueStep :: "QueueState \<Rightarrow> QueueEvent \<Rightarrow> QueueState" where
  "queueStep s (Enqueue t e) = snd (enqueueAgentRun t e s)"
| "queueStep s (Finished runId) = runFinished runId s"

definition runEvents :: "QueueEvent list \<Rightarrow> QueueState" where
  "runEvents evs = foldl queueStep initialQueueState evs"

text \<open>
  Invariants of the reachable module states: the cap on active runs; no agent type queued
  twice; no agent type both queued and running; queued entries hold distinct pending
  promises; and, between events, a non-empty queue only while all slots are taken.
\<close>

definition queueInvariant0 :: "QueueState \<Rightarrow> bool" where
  "queueInvariant0 s \<longleftrightarrow>
     length (activeRuns s) \<le> MAX_CONCURRENT \<and>
     distinct (map agentType (queue s)) \<and>
     (\<forall>q \<in> set (queue s). \<not> isAgentRunning (agentType q) s) \<and>
     distinct (map promise (queue s)) \<and>
     (\<forall>q \<in> set (queue s). promise q < length (promises s) \<and> promises s ! promise q = Pending)"

definition queueInvariant :: "QueueState \<Rightarrow> bool" where
  "queueInvariant s \<longleftrightarrow>
     queueInvariant0 s \<and> (queue s \<noteq> [] \<longrightarrow> length (activeRuns s) = MAX_CONCURRENT)"

definition sampleEvents :: "QueueEvent list" where
  "sampleEvents = [Enqueue crypto 1, Enqueue retail 2, Enqueue tickets 3, Finished 1, Enqueue books 4]"

subsection \<open>Regular expressions of the price extraction\<close>

text \<open>
  Text is a list of code units below 256. The character classes \<open>\d\<close> and \<open>\s\<close> (the
  white space of that range), and the comparison of a letter under the \<open>i\<close> flag.
\<close>

definition isDigit :: "char \<Rightarrow> bool" where
  "isDigit c = (c \<in> set ''0123456789'')"

definition isSpace :: "char \<Rightarrow> bool" where
  "isSpace c = (c \<in> set [CHR 0x09, CHR 0x0A, CHR 0x0B, CHR 0x0C, CHR 0x0D, CHR 0x20, CHR 0xA0])"

definition lowerChar :: "char \<Rightarrow> char" where
  "lowerChar c =
     (case map_of (zip ''ABCDEFGHIJKLMNOPQRSTUVWXYZ'' ''abcdefghijklmnopqrstuvwxyz'') c of
        Some l \<Rightarrow> l
      | None \<Rightarrow> c)"

text \<open>
  A literal at the head of the text, compared without regard to case (the pattern's
  letters are given in lower case): the rest of the text after it.
\<close>

fun matchLiteralCI :: "string \<Rightarrow> string \<Rightarrow> string option" where
  "matchLiteralCI [] s = Some s"
| "matchLiteralCI (p # ps) [] = None"
| "matchLiteralCI (p # ps) (c # cs) = (if lowerChar c = p then matchLiteralCI ps cs else None)"

text \<open>
  The group \<^verbatim>\<open>([\d,]+(?:\.\d{2})?)\<close> at the head of the text: the captured text and the
  rest. The group ends each of the three patterns of \<open>extractPrice\<close>, so its greedy run
  of digits and commas is never shortened by backtracking. The three matchers below are
  written without backtracking; they are proved equal to the backtracking matcher of the
  next but one subsection run on the patterns themselves.
\<close>

definition isAmountChar :: "char \<Rightarrow> bool" where
  "isAmountChar c = (isDigit c \<or> c = CHR '','')"

definition matchAmount :: "string \<Rightarrow> (string \<times> string) option" where
  "matchAmount s =
     (let grp = takeWhile isAmountChar s;
          rest = dropWhile isAmountChar s
      in if grp = [] then None
         else (case rest of
                 p # a # b # rest' \<Rightarrow>
                   if p = CHR ''.'' \<and> isDigit a \<and> isDigit b
                   then Some (grp @ [p, a, b], rest') else Some (grp, rest)
               | _ \<Rightarrow> Some (grp, rest)))"

text \<open>\<^verbatim>\<open>\s?\<close> before something that cannot start with white space.\<close>

definition skipOptionalSpace :: "string \<Rightarrow> string" where
  "skipOptionalSpace s = (case s of [] \<Rightarrow> [] | c # cs \<Rightarrow> if isSpace c then cs else s)"

text \<open>\<^verbatim>\<open>/\$\s?([\d,]+(?:\.\d{2})?)/\<close> anchored at the head of the text.\<close>

definition matchDollarAmount :: "string \<Rightarrow> (string \<times> string) option" where
  "matchDollarAmount s =
     (case s of
        [] \<Rightarrow> None
      | c # cs \<Rightarrow> if c = CHR ''$'' then matchAmount (skipOptionalSpace cs) else None)"

text \<open>\<^verbatim>\<open>/USD\s?([\d,]+(?:\.\d{2})?)/i\<close> anchored at the head of the text.\<close>

definition matchUsdAmount :: "string \<Rightarrow> (string \<times> string) option" where
  "matchUsdAmount s =
     (case matchLiteralCI ''usd'' s of
        None \<Rightarrow> None
      | Some r \<Rightarrow> matchAmount (skipOptionalSpace r))"

text \<open>\<^verbatim>\<open>/price[:\s]+\$?([\d,]+(?:\.\d{2})?)/i\<close> anchored at the head of the text.\<close>

definition matchPriceLabel :: "string \<Rightarrow> (string \<times> string) option" where
  "matchPriceLabel s =
     (case matchLiteralCI ''price'' s of
        None \<Rightarrow> None
      | Some r \<Rightarrow>
          (let sep = takeWhile (\<lambda>c. c = CHR '':'' \<or> isSpace c) r;
               r' = dropWhile (\<lambda>c. c = CHR '':'' \<or> isSpace c) r
           in if sep = [] then None
              else matchAmount (case r' of [] \<Rightarrow> [] | c # cs \<Rightarrow> if c = CHR ''$'' then cs else r')))"

text \<open>
  The loop \<^verbatim>\<open>while ((match = pattern.exec(text)) !== null)\<close> of a global pattern: the
  captures of the successive matches, each search starting where the last match ended
  and trying every later position in turn. A match of the patterns above is never empty,
  so the search always moves on; the last branch is the loop of a pattern that would
  match the empty text.
\<close>

function execAll :: "(string \<Rightarrow> (string \<times> string) option) \<Rightarrow> string \<Rightarrow> string list" where
  "execAll pattern s =
     (case s of
        [] \<Rightarrow> []
      | c # cs \<Rightarrow>
          (case pattern s of
             None \<Rightarrow> execAll pattern cs
           | Some (capture, rest) \<Rightarrow>
               if length rest < length s then capture # execAll pattern rest else [capture]))"
  by pat_completeness auto
termination
  by (relation "measure (\<lambda>(pattern, s). length s)") auto

declare execAll.simps [simp del]

subsection \<open>Price extraction\<close>

definition digitValue :: "char \<Rightarrow> nat" where
  "digitValue c = of_char c - 48"

definition digitsValue :: "string \<Rightarrow> nat" where
  "digitsValue ds = foldl (\<lambda>n c. 10 * n + digitValue c) 0 ds"

text \<open>
  \<open>parseFloat\<close> on text made of digits and points (all that a capture holds once its
  commas are removed): the longest prefix of the form digits, or digits point digits,
  read as a decimal number; \<open>None\<close> is \<open>NaN\<close>, for a prefix without any digit.
\<close>

definition parseFloat :: "string \<Rightarrow> rat option" where
  "parseFloat s =
     (let ip = takeWhile isDigit s;
          r = dropWhile isDigit s;
          fp = (case r of [] \<Rightarrow> [] | c # cs \<Rightarrow> if c = CHR ''.'' then takeWhile isDigit cs else [])
      in if ip = [] \<and> fp = [] then None
         else Some (of_nat (digitsValue ip) + of_nat (digitsValue fp) / 10 ^ length fp))"

text \<open>The body of the \<open>while\<close> loops: the price of one capture, if it passes the sanity check.\<close>

definition priceOfCapture :: "string \<Rightarrow> int option" where
  "priceOfCapture capture =
     (case parseFloat (filter (\<lambda>c. c \<noteq> CHR '','') capture) of
        None \<Rightarrow> None
      | Some num \<Rightarrow> if num > 0 \<and> num < 1000000 then Some (Math_round (num * 100)) else None)"

fun pushPrices :: "int list \<Rightarrow> string list \<Rightarrow> int list" where
  "pushPrices prices [] = prices"
| "pushPrices prices (capture # captures) =
     pushPrices (case priceOfCapture capture of None \<Rightarrow> prices | Some p \<Rightarrow> prices @ [p]) captures"

definition pricePatterns :: "(string \<Rightarrow> (string \<times> string) option) list" where
  "pricePatterns = [matchDollarAmount, matchUsdAmount, matchPriceLabel]"

definition extractPrice :: "string \<Rightarrow> int option" where
  "extractPrice text =
     (let prices = foldl (\<lambda>prices pattern. pushPrices prices (execAll pattern text)) [] pricePatterns
      in if length prices > 0 then Some (prices ! 0) else None)"

definition extractAllPrices :: "string \<Rightarrow> int list" where
  "extractAllPrices text = pushPrices [] (execAll matchDollarAmount text)"

subsection \<open>A backtracking matcher for the other regular expressions\<close>

text \<open>
  The patterns of \<open>extractDealPricePair\<close> and \<open>parseOpportunities\<close> are written as
  values of \<open>regex\<close> and run by a matcher that explores the alternatives in the order of
  a backtracking engine: a greedy repetition tries the longest run first, a lazy one the
  shortest, an optional part is tried before it is skipped, and the alternatives of
  \<open>|\<close> are tried from left to right. The first result is the match the engine reports.
  A repetition is always over a character class here. A capturing group records the text
  it spans; the groups of these patterns are not nested, so they are numbered in the
  order in which they close.
\<close>

datatype regex =
    Lit string
  | Class "char \<Rightarrow> bool"
  | Greedy nat "char \<Rightarrow> bool"
  | Lazy "char \<Rightarrow> bool"
  | Opt regex
  | Seq regex regex
  | Alt regex regex
  | Group regex

fun matchLiteral :: "bool \<Rightarrow> string \<Rightarrow> string \<Rightarrow> string option" where
  "matchLiteral ci [] s = Some s"
| "matchLiteral ci (p # ps) [] = None"
| "matchLiteral ci (p # ps) (c # cs) =
     (if (if ci then lowerChar c = lowerChar p else c = p) then matchLiteral ci ps cs else None)"

fun rxMatch :: "bool \<Rightarrow> regex \<Rightarrow> string list \<times> string \<Rightarrow> (string list \<times> string) list" where
  "rxMatch ci (Lit l) (caps, s) =
     (case matchLiteral ci l s of None \<Rightarrow> [] | Some rest \<Rightarrow> [(caps, rest)])"
| "rxMatch ci (Class P) (caps, s) =
     (case s of [] \<Rightarrow> [] | c # cs \<Rightarrow> if P c then [(caps, cs)] else [])"
| "rxMatch ci (Greedy n P) (caps, s) =
     map (\<lambda>k. (caps, drop k s)) (rev [n ..< Suc (length (takeWhile P s))])"
| "rxMatch ci (Lazy P) (caps, s) =
     map (\<lambda>k. (caps, drop k s)) [0 ..< Suc (length (takeWhile P s))]"
| "rxMatch ci (Opt r) st = rxMatch ci r st @ [st]"
| "rxMatch ci (Seq r1 r2) st = concat (map (rxMatch ci r2) (rxMatch ci r1 st))"
| "rxMatch ci (Alt r1 r2) st = rxMatch ci r1 st @ rxMatch ci r2 st"
| "rxMatch ci (Group r) (caps, s) =
     map (\<lambda>(caps', rest). (caps' @ [take (length s - length rest) s], rest))
       (rxMatch ci r (caps, s))"

text \<open>
  \<open>text.match(pattern)\<close> for a pattern without the \<open>g\<close> flag: the captures
  \<open>match[1], match[2], ...\<close> of the leftmost match, or \<open>None\<close> for \<open>null\<close>.
\<close>

fun rxSearch :: "bool \<Rightarrow> regex \<Rightarrow> string \<Rightarrow> string list option" where
  "rxSearch ci r [] =
     (case rxMatch ci r ([], []) of [] \<Rightarrow> None | (caps, rest) # _ \<Rightarrow> Some caps)"
| "rxSearch ci r (c # cs) =
     (case rxMatch ci r ([], c # cs) of
        [] \<Rightarrow> rxSearch ci r cs
      | (caps, rest) # _ \<Rightarrow> Some caps)"

definition seqs :: "regex list \<Rightarrow> regex" where
  "seqs rs = foldr Seq rs (Lit [])"

definition alts :: "regex \<Rightarrow> regex list \<Rightarrow> regex" where
  "alts r rs = foldl Alt r rs"

text \<open>\<^verbatim>\<open>([\d,]+(?:\.\d{2})?)\<close>, \<^verbatim>\<open>\s*\<close> and \<^verbatim>\<open>\s?\<close>.\<close>

definition rxAmount :: regex where
  "rxAmount = Group (Seq (Greedy 1 isAmountChar)
                         (Opt (seqs [Lit ''.'', Class isDigit, Class isDigit])))"

definition rxSpaces :: regex where
  "rxSpaces = Greedy 0 isSpace"

definition rxOptSpace :: regex where
  "rxOptSpace = Opt (Class isSpace)"

text \<open>
  The three patterns of \<open>extractPrice\<close> as values of \<open>regex\<close>, and the match of such a
  pattern anchored at the head of the text: its first group and the rest of the text.
  The matchers \<open>matchDollarAmount\<close>, \<open>matchUsdAmount\<close> and \<open>matchPriceLabel\<close> above
  are proved to be these (theorems \<open>dollarPattern_anchored\<close>, \<open>usdPattern_anchored\<close> and
  \<open>priceLabelPattern_anchored\<close>).
\<close>

definition isLabelSeparator :: "char \<Rightarrow> bool" where
  "isLabelSeparator c = (c = CHR '':'' \<or> isSpace c)"

definition dollarPattern :: regex where
  "dollarPattern = seqs [Lit ''$'', rxOptSpace, rxAmount]"

definition usdPattern :: regex where
  "usdPattern = seqs [Lit ''USD'', rxOptSpace, rxAmount]"

definition priceLabelPattern :: regex where
  "priceLabelPattern = seqs [Lit ''price'', Greedy 1 isLabelSeparator, Opt (Lit ''$''), rxAmount]"

definition firstResult :: "'a list \<Rightarrow> 'a option" where
  "firstResult xs = (case xs of [] \<Rightarrow> None | x # _ \<Rightarrow> Some x)"

definition anchored :: "bool \<Rightarrow> regex \<Rightarrow> string \<Rightarrow> (string \<times> string) option" where
  "anchored ci r s =
     (case rxMatch ci r ([], s) of
        [] \<Rightarrow> None
      | (caps, rest) # _ \<Rightarrow> Some (caps ! 0, rest))"

subsection \<open>Leads and the spread filter\<close>

record ScoutLead =
  lead_title :: string
  lead_url :: string
  lead_snippet :: string
  lead_source :: string
  priceFound :: "int option"
  lead_category :: string

record DealFeedItem =
  item_title :: string
  item_url :: string
  item_description :: string
  item_source :: string
  pubDate :: string

record ResalePriceInfo =
  estimatedPrice :: int
  platform :: string
  resale_url :: string
  dataPoints :: nat
  listingDataPoints :: "nat option"

datatype Confidence = high | medium | low

datatype RawLead = RawScoutLead ScoutLead | RawDealFeedItem DealFeedItem

text \<open>
  \<open>QualifiedLead\<close>. The interface of \<^verbatim>\<open>filter.ts\<close> has no \<open>sellPriceType\<close>; the runner
  reads \<open>lead.sellPriceType\<close>, which is \<open>undefined\<close> (\<open>None\<close>) on the leads that the two
  filters below build.
\<close>

record QualifiedLead =
  q_title :: string
  q_description :: string
  q_buyPrice :: int
  q_buySource :: string
  q_buyUrl :: string
  sellPriceEstimate :: int
  q_sellSource :: string
  q_sellUrl :: string
  q_sellPriceType :: "SellPriceType option"
  estimatedSpread :: int
  spreadPercent :: rat
  q_confidence :: Confidence
  q_category :: string
  raw :: RawLead

text \<open>
  The eBay sold-listings search URL for a title. \<open>encodeTitle\<close> stands for
  \<open>encodeURIComponent(cleanTitleForSearch(title))\<close>, a rewriting of the title's text that
  no price depends on; the filters take it as an argument.
\<close>

definition ebaySoldSearchUrl :: "(string \<Rightarrow> string) \<Rightarrow> string \<Rightarrow> string" where
  "ebaySoldSearchUrl encodeTitle t =
     ''https://www.ebay.com/sch/i.html?_nkw='' @ encodeTitle t @ ''&LH_Sold=1&LH_Complete=1''"

text \<open>The body of the \<open>for\<close> loop of \<open>filterLeadsWithPriceData\<close>: the lead to push, if any.\<close>

definition qualifyLead ::
  "(string \<Rightarrow> string) \<Rightarrow> (string \<rightharpoonup> ResalePriceInfo) \<Rightarrow> int \<Rightarrow> rat \<Rightarrow> ScoutLead
     \<Rightarrow> QualifiedLead option" where
  "qualifyLead encodeTitle resalePriceData minProfitCents minSpreadPercent lead =
     (case priceFound lead of
        None \<Rightarrow> None
      | Some price \<Rightarrow>
          if price = 0 \<or> price \<le> 0 then None
          else
            (case (case resalePriceData (lead_url lead) of
                     Some r \<Rightarrow> Some r
                   | None \<Rightarrow> resalePriceData (lead_title lead)) of
               None \<Rightarrow> None
             | Some resale \<Rightarrow>
                 if estimatedPrice resale = 0 then None
                 else
                   (let spread = estimatedPrice resale - price;
                        spreadPercent' = (of_int spread / of_int price) * 100
                    in if spread < minProfitCents then None
                       else if spreadPercent' < minSpreadPercent then None
                       else
                         (let listingPts = (case listingDataPoints resale of None \<Rightarrow> 0 | Some n \<Rightarrow> n);
                              confidence' =
                                (if (listingPts \<ge> 2 \<or> dataPoints resale \<ge> 5) \<and> spreadPercent' > 50
                                 then high
                                 else if (listingPts \<ge> 1 \<or> dataPoints resale \<ge> 3) \<and> spreadPercent' > 30
                                 then medium
                                 else low)
                          in Some
                               \<lparr>q_title = lead_title lead,
                                q_description = lead_snippet lead,
                                q_buyPrice = price,
                                q_buySource = lead_source lead,
                                q_buyUrl = lead_url lead,
                                sellPriceEstimate = estimatedPrice resale,
                                q_sellSource = platform resale,
                                q_sellUrl = (if resale_url resale \<noteq> [] then resale_url resale
                                             else ebaySoldSearchUrl encodeTitle (lead_title lead)),
                                q_sellPriceType = None,
                                estimatedSpread = spread,
                                spreadPercent = spreadPercent',
                                q_confidence = confidence',
                                q_category = lead_category lead,
                                raw = RawScoutLead lead\<rparr>))))"

text \<open>
  \<open>qualified.sort((a, b) => b.estimatedSpread - a.estimatedSpread)\<close>: a stable sort,
  largest spread first.
\<close>

definition sortBySpreadDesc :: "QualifiedLead list \<Rightarrow> QualifiedLead list" where
  "sortBySpreadDesc qualified = sort_key (\<lambda>q. - estimatedSpread q) qualified"

definition filterLeadsWithPriceData ::
  "(string \<Rightarrow> string) \<Rightarrow> ScoutLead list \<Rightarrow> (string \<rightharpoonup> ResalePriceInfo) \<Rightarrow> int \<Rightarrow> rat
     \<Rightarrow> QualifiedLead list" where
  "filterLeadsWithPriceData encodeTitle leads resalePriceData minProfitCents minSpreadPercent =
     sortBySpreadDesc
       (List.map_filter (qualifyLead encodeTitle resalePriceData minProfitCents minSpreadPercent)
          leads)"

subsection \<open>Deal feeds\<close>

text \<open>The helper \<open>parseDollar\<close> of \<open>extractDealPricePair\<close>.\<close>

definition parseDollar :: "string \<Rightarrow> int" where
  "parseDollar s =
     (case parseFloat (filter (\<lambda>c. c \<noteq> CHR '','') s) of
        None \<Rightarrow> 0
      | Some num \<Rightarrow> if num > 0 \<and> num < 1000000 then Math_round (num * 100) else 0)"

text \<open>
  The four patterns, all with the \<open>i\<close> flag. In the third one the source also accepts
  the arrow character U+2192 between the two prices; it lies outside the code units of
  the modelled text and is left out of the alternatives.
\<close>

definition pctOffPattern :: regex where
  "pctOffPattern =
     seqs [Lit ''$'', rxOptSpace, rxAmount, rxSpaces, Lit ''('', rxSpaces, Greedy 1 isDigit,
           Lit ''%'', rxSpaces, Lit ''off'', rxSpaces, Lit ''$'', rxOptSpace, rxAmount,
           rxSpaces, Lit '')'']"

definition wasPattern :: regex where
  "wasPattern =
     seqs [Lit ''$'', rxOptSpace, rxAmount, rxSpaces, Lit ''('', rxSpaces,
           alts (Lit ''was'')
             [Seq (Lit ''reg'') (Opt (Lit ''.'')), Lit ''originally'', Lit ''msrp'',
              seqs [Lit ''regular'', rxSpaces, Opt (Lit ''price'')], Lit ''retail''],
           rxSpaces, Opt (Lit ''$''), rxOptSpace, rxAmount, rxSpaces, Lit '')'']"

definition wasNowPattern :: regex where
  "wasNowPattern =
     seqs [alts (Lit ''was'') [Lit ''from''], rxSpaces, Lit ''$'', rxOptSpace, rxAmount,
           rxSpaces, Opt (Class (\<lambda>c. c = CHR '','' \<or> c = CHR ''.'')), rxSpaces,
           alts (Lit ''now'') [Lit ''to'', Lit ''->''], rxSpaces, Lit ''$'', rxOptSpace,
           rxAmount]"

definition regularlyPattern :: regex where
  "regularlyPattern =
     seqs [Lit ''$'', rxOptSpace, rxAmount, rxSpaces,
           Opt (Class (\<lambda>c. c = CHR '','' \<or> c = CHR ''.'')), rxSpaces,
           alts (Lit ''regularly'')
             [Lit ''normally'', Lit ''usually'',
              seqs [Lit ''list'', Opt (Lit ''ed''), Opt (seqs [Greedy 1 isSpace, Lit ''at''])]],
           rxSpaces, Opt (Lit ''$''), rxOptSpace, rxAmount]"

text \<open>
  One pattern of \<open>extractDealPricePair\<close>: the pair it returns, if the pattern matches and
  the prices pass the check. \<open>regularFirst\<close> tells which group is the regular price.
\<close>

definition dealPairOf :: "regex \<Rightarrow> bool \<Rightarrow> string \<Rightarrow> (int \<times> int) option" where
  "dealPairOf pattern regularFirst text =
     (case rxSearch True pattern text of
        Some [g1, g2] \<Rightarrow>
          (let deal = parseDollar (if regularFirst then g2 else g1);
               regular = parseDollar (if regularFirst then g1 else g2)
           in if deal > 0 \<and> regular > deal then Some (deal, regular) else None)
      | _ \<Rightarrow> None)"

text \<open>\<open>extractDealPricePair\<close> returns \<open>(dealPrice, regularPrice)\<close> or null.\<close>

definition extractDealPricePair :: "string \<Rightarrow> (int \<times> int) option" where
  "extractDealPricePair text =
     (case dealPairOf pctOffPattern False text of
        Some found \<Rightarrow> Some found
      | None \<Rightarrow>
     (case dealPairOf wasPattern False text of
        Some found \<Rightarrow> Some found
      | None \<Rightarrow>
     (case dealPairOf wasNowPattern True text of
        Some found \<Rightarrow> Some found
      | None \<Rightarrow> dealPairOf regularlyPattern False text)))"

definition dealLead ::
  "(string \<Rightarrow> string) \<Rightarrow> DealFeedItem \<Rightarrow> int \<Rightarrow> int \<Rightarrow> rat \<Rightarrow> Confidence \<Rightarrow> QualifiedLead" where
  "dealLead encodeTitle item dealPrice regularPrice discount confidence' =
     \<lparr>q_title = item_title item,
      q_description = item_description item,
      q_buyPrice = dealPrice,
      q_buySource = item_source item,
      q_buyUrl = item_url item,
      sellPriceEstimate = regularPrice,
      q_sellSource = ''Amazon/eBay'',
      q_sellUrl = ebaySoldSearchUrl encodeTitle (item_title item),
      q_sellPriceType = None,
      estimatedSpread = regularPrice - dealPrice,
      spreadPercent = discount,
      q_confidence = confidence',
      q_category = item_source item,
      raw = RawDealFeedItem item\<rparr>"

text \<open>The body of the \<open>for\<close> loop of \<open>filterDealFeedItems\<close>: the lead to push, if any.\<close>

definition qualifyDealItem ::
  "(string \<Rightarrow> string) \<Rightarrow> rat \<Rightarrow> DealFeedItem \<Rightarrow> QualifiedLead option" where
  "qualifyDealItem encodeTitle minDiscountPercent item =
     (case (case extractDealPricePair (item_title item) of
              Some found \<Rightarrow> Some found
            | None \<Rightarrow> extractDealPricePair (item_title item @ '' '' @ item_description item)) of
        Some (dealPrice, regularPrice) \<Rightarrow>
          (let discount = (of_int (regularPrice - dealPrice) / of_int regularPrice) * 100
           in if discount \<ge> minDiscountPercent
              then Some (dealLead encodeTitle item dealPrice regularPrice discount
                           (if discount > 70 then high else medium))
              else None)
      | None \<Rightarrow>
          (let titlePrices = extractAllPrices (item_title item)
           in if length titlePrices = 2 then
                (let sorted = sort titlePrices;
                     dealPrice = sorted ! 0;
                     regularPrice = sorted ! 1
                 in if regularPrice > dealPrice \<and> dealPrice > 0 then
                      (let discount = (of_int (regularPrice - dealPrice) / of_int regularPrice) * 100
                       in if discount \<ge> minDiscountPercent
                          then Some (dealLead encodeTitle item dealPrice regularPrice discount medium)
                          else None)
                    else None)
              else None))"

definition filterDealFeedItems ::
  "(string \<Rightarrow> string) \<Rightarrow> DealFeedItem list \<Rightarrow> rat \<Rightarrow> QualifiedLead list" where
  "filterDealFeedItems encodeTitle items minDiscountPercent =
     sortBySpreadDesc (List.map_filter (qualifyDealItem encodeTitle minDiscountPercent) items)"

subsection \<open>Thresholds of the per-agent scout configuration\<close>

text \<open>
  The fields of \<open>getScoutConfig\<close>'s result that decide which branch a run takes and what
  the filters are given; the search queries, the other source switches and the prompt are
  left out. \<open>userMinProfitCents\<close> and \<open>userMinSpreadPercent\<close> are the user's overrides, a
  missing or zero value falling back to the default (\<open>||\<close>); \<open>userPairs\<close> is
  \<open>userConfig.pairs\<close>, which replaces the default pairs whenever it is given (an array is
  truthy). \<open>cryptoPairs\<close> is \<open>None\<close> where the source leaves the field undefined.
\<close>

record AgentScoutConfig =
  useDealFeeds :: bool
  useCryptoAPIs :: bool
  cryptoPairs :: "string list option"
  minProfitCents :: int
  minSpreadPercent :: rat

definition defaultCryptoPairs :: "string list" where
  "defaultCryptoPairs =
     [''BTC/USD'', ''ETH/USD'', ''SOL/USD'', ''XRP/USD'',
      ''DOGE/USD'', ''ADA/USD'', ''AVAX/USD'', ''DOT/USD'',
      ''LINK/USD'', ''UNI/USD'', ''ATOM/USD'', ''NEAR/USD'',
      ''FIL/USD'', ''APT/USD'', ''ARB/USD'', ''OP/USD'',
      ''LTC/USD'', ''BCH/USD'', ''ETC/USD'', ''ALGO/USD'',
      ''BTC/USDT'', ''ETH/USDT'']"

definition orDefault :: "'a::zero option \<Rightarrow> 'a \<Rightarrow> 'a" where
  "orDefault v d = (case v of None \<Rightarrow> d | Some x \<Rightarrow> if x = 0 then d else x)"

fun getScoutConfig ::
  "AgentType \<Rightarrow> int option \<Rightarrow> rat option \<Rightarrow> string list option \<Rightarrow> AgentScoutConfig" where
  "getScoutConfig listings userMinProfitCents userMinSpreadPercent userPairs =
     \<lparr>useDealFeeds = False, useCryptoAPIs = False, cryptoPairs = None,
      minProfitCents = orDefault userMinProfitCents 1000, minSpreadPercent = 15\<rparr>"
| "getScoutConfig auctions userMinProfitCents userMinSpreadPercent userPairs =
     \<lparr>useDealFeeds = False, useCryptoAPIs = False, cryptoPairs = None,
      minProfitCents = orDefault userMinProfitCents 1000, minSpreadPercent = 15\<rparr>"
| "getScoutConfig crypto userMinProfitCents userMinSpreadPercent userPairs =
     \<lparr>useDealFeeds = False, useCryptoAPIs = True,
      cryptoPairs = Some (case userPairs of None \<Rightarrow> defaultCryptoPairs | Some pairs \<Rightarrow> pairs),
      minProfitCents = 0, minSpreadPercent = orDefault userMinSpreadPercent (15 / 100)\<rparr>"
| "getScoutConfig retail userMinProfitCents userMinSpreadPercent userPairs =
     \<lparr>useDealFeeds = True, useCryptoAPIs = False, cryptoPairs = None,
      minProfitCents = orDefault userMinProfitCents 1000, minSpreadPercent = 20\<rparr>"
| "getScoutConfig tickets userMinProfitCents userMinSpreadPercent userPairs =
     \<lparr>useDealFeeds = False, useCryptoAPIs = False, cryptoPairs = None,
      minProfitCents = orDefault userMinProfitCents 1500, minSpreadPercent = 15\<rparr>"
| "getScoutConfig collectibles userMinProfitCents userMinSpreadPercent userPairs =
     \<lparr>useDealFeeds = False, useCryptoAPIs = False, cryptoPairs = None,
      minProfitCents = orDefault userMinProfitCents 1000, minSpreadPercent = 15\<rparr>"
| "getScoutConfig books userMinProfitCents userMinSpreadPercent userPairs =
     \<lparr>useDealFeeds = False, useCryptoAPIs = False, cryptoPairs = None,
      minProfitCents = orDefault userMinProfitCents 500, minSpreadPercent = 20\<rparr>"

text \<open>
  Step 1f of \<open>runScoutThenSnipe\<close>: the deal leads of a run,
  \<open>filterDealFeedItems(feedResult.leads, 25)\<close> when the configuration uses deal feeds.
\<close>

definition dealLeadsOfRun ::
  "(string \<Rightarrow> string) \<Rightarrow> AgentScoutConfig \<Rightarrow> DealFeedItem list \<Rightarrow> QualifiedLead list" where
  "dealLeadsOfRun encodeTitle agentConfig feedItems =
     (if useDealFeeds agentConfig then filterDealFeedItems encodeTitle feedItems 25 else [])"

text \<open>Sample data: a deal-feed item, and a priced lead with its resale lookup.\<close>

definition widgetDeal :: DealFeedItem where
  "widgetDeal =
     \<lparr>item_title = ''Widget $5 (was $10)'', item_url = ''https://slickdeals.net/f/1'',
      item_description = ''Half price today'', item_source = ''Slickdeals'',
      pubDate = ''Mon, 02 Nov 2026 10:00:00 GMT''\<rparr>"

definition vacuumLead :: ScoutLead where
  "vacuumLead =
     \<lparr>lead_title = ''Dyson V8 vacuum'', lead_url = ''https://offerup.com/item/detail/1'',
      lead_snippet = ''Dyson V8 vacuum $50'', lead_source = ''OfferUp'',
      priceFound = Some 5000, lead_category = ''listings''\<rparr>"

definition vacuumResale :: "string \<rightharpoonup> ResalePriceInfo" where
  "vacuumResale =
     [''https://offerup.com/item/detail/1'' \<mapsto>
        \<lparr>estimatedPrice = 12000, platform = ''eBay'',
         resale_url = ''https://www.ebay.com/itm/12345'', dataPoints = 4,
         listingDataPoints = Some 2\<rparr>]"

subsection \<open>JSON values and the model's reply\<close>

datatype json =
    JNull
  | JBool bool
  | JNumber rat
  | JString string
  | JArray "json list"
  | JObject "(string \<times> json) list"

text \<open>
  JavaScript's view of a parsed value: its truthiness, \<open>typeof v === 'number'\<close>, and the
  read \<open>o.key\<close> of one of the property names used by \<open>parseOpportunities\<close> (none of
  which a string, number, boolean or array defines), \<open>None\<close> being \<open>undefined\<close>. An
  object lists its properties once each. Reading a property of \<open>null\<close> throws a
  \<open>TypeError\<close>.
\<close>

datatype jsError = TypeError | SyntaxError

fun truthy :: "json \<Rightarrow> bool" where
  "truthy JNull = False"
| "truthy (JBool b) = b"
| "truthy (JNumber n) = (n \<noteq> 0)"
| "truthy (JString s) = (s \<noteq> [])"
| "truthy (JArray vs) = True"
| "truthy (JObject kvs) = True"

definition truthyProp :: "json option \<Rightarrow> bool" where
  "truthyProp v = (case v of None \<Rightarrow> False | Some x \<Rightarrow> truthy x)"

definition isNumberProp :: "json option \<Rightarrow> bool" where
  "isNumberProp v = (case v of Some (JNumber n) \<Rightarrow> True | _ \<Rightarrow> False)"

definition jsProp :: "json \<Rightarrow> string \<Rightarrow> json option" where
  "jsProp obj key = (case obj of JObject kvs \<Rightarrow> map_of kvs key | _ \<Rightarrow> None)"

text \<open>
  The callback of \<open>parsed.filter\<close>. Its first read, \<open>o.title\<close>, throws on \<open>null\<close>; on any
  other value no read throws.
\<close>

definition keepOpportunity :: "json \<Rightarrow> jsError + bool" where
  "keepOpportunity obj =
     (if obj = JNull then Inl TypeError
      else Inr (truthyProp (jsProp obj ''title'')
                \<and> isNumberProp (jsProp obj ''buyPrice'')
                \<and> isNumberProp (jsProp obj ''sellPrice'')
                \<and> truthyProp (jsProp obj ''buySource'')
                \<and> truthyProp (jsProp obj ''sellSource'')))"

fun filterOpportunities :: "json list \<Rightarrow> jsError + json list" where
  "filterOpportunities [] = Inr []"
| "filterOpportunities (obj # objs) =
     (case keepOpportunity obj of
        Inl err \<Rightarrow> Inl err
      | Inr keep \<Rightarrow>
          (case filterOpportunities objs of
             Inl err \<Rightarrow> Inl err
           | Inr kept \<Rightarrow> Inr (if keep then obj # kept else kept)))"

text \<open>
  The callback of \<open>.map\<close>: \<open>{...o, sellPriceType: o.sellPriceType || 'estimated'}\<close>. Only
  objects pass the filter; the last branch is the spread of a number or a boolean.
\<close>

definition withSellPriceType :: "json \<Rightarrow> json" where
  "withSellPriceType obj =
     (case obj of
        JObject kvs \<Rightarrow>
          JObject (AList.update ''sellPriceType''
                     (case jsProp obj ''sellPriceType'' of
                        None \<Rightarrow> JString ''estimated''
                      | Some v \<Rightarrow> if truthy v then v else JString ''estimated'')
                     kvs)
      | _ \<Rightarrow> JObject [(''sellPriceType'', JString ''estimated'')])"

datatype BlockType = TextBlock | ToolUse | ToolResult

datatype StopReason = end_turn | stop_tool_use | max_tokens | stop_sequence

text \<open>
  A content block. \<open>tool_product_name\<close> is \<open>input?.product_name\<close> under the source's cast
  of \<open>input\<close> to \<open>{ product_name: string }\<close>, \<open>None\<close> when it is undefined.
\<close>

record ClaudeContentBlock =
  block_type :: BlockType
  block_text :: "string option"
  block_id :: "string option"
  block_name :: "string option"
  tool_product_name :: "string option"
  tool_use_id :: "string option"
  block_content :: "string option"

record ClaudeUsage =
  input_tokens :: int
  output_tokens :: int

record ClaudeResponse =
  response_id :: string
  response_content :: "ClaudeContentBlock list"
  response_model :: string
  stop_reason :: StopReason
  response_usage :: ClaudeUsage

datatype Role = user | assistant

datatype MessageContent = TextContent string | BlockContent "ClaudeContentBlock list"

record ClaudeMessage =
  role :: Role
  message_content :: MessageContent

text \<open>\<open>strings.join(sep)\<close>.\<close>

fun joinWith :: "string \<Rightarrow> string list \<Rightarrow> string" where
  "joinWith sep [] = []"
| "joinWith sep [x] = x"
| "joinWith sep (x # y # ys) = x @ sep @ joinWith sep (y # ys)"

text \<open>The text blocks of a response joined by newlines (also \<open>extractReasoning\<close>).\<close>

definition extractReasoning :: "ClaudeResponse \<Rightarrow> string" where
  "extractReasoning response =
     joinWith [CHR 0x0A]
       (map (\<lambda>b. case block_text b of None \<Rightarrow> [] | Some t \<Rightarrow> t)
          (filter (\<lambda>b. block_type b = TextBlock) (response_content response)))"

text \<open>\<^verbatim>\<open>/<opportunities>\s*([\s\S]*?)\s*<\/opportunities>/\<close>\<close>

definition opportunitiesPattern :: regex where
  "opportunitiesPattern =
     seqs [Lit ''<opportunities>'', rxSpaces, Group (Lazy (\<lambda>c. True)), rxSpaces,
           Lit ''</opportunities>'']"

text \<open>
  \<open>parseOpportunities\<close>. \<open>JSON_parse\<close> is the platform's \<open>JSON.parse\<close>, \<open>None\<close> when it
  throws a \<open>SyntaxError\<close>; every exception inside the \<open>try\<close> ends in \<open>return []\<close>.
\<close>

definition parseOpportunities :: "(string \<Rightarrow> json option) \<Rightarrow> ClaudeResponse \<Rightarrow> json list" where
  "parseOpportunities JSON_parse response =
     (case rxSearch False opportunitiesPattern (extractReasoning response) of
        Some [block] \<Rightarrow>
          (case JSON_parse block of
             None \<Rightarrow> []
           | Some parsed \<Rightarrow>
               (case parsed of
                  JArray objs \<Rightarrow>
                    (case filterOpportunities objs of
                       Inl err \<Rightarrow> []
                     | Inr kept \<Rightarrow> map withSellPriceType kept)
                | _ \<Rightarrow> []))
      | _ \<Rightarrow> [])"

subsection \<open>The snipe phase\<close>

text \<open>
  The collaborators of a run. \<open>callClaude\<close> answers the message history (and
  whether the tool was offered) with a response or throws (\<open>Inl\<close>, the error message);
  \<open>searchSoldPrices\<close> answers a product name with a text, \<open>None\<close> if it throws;
  \<open>jsonParse\<close> is \<open>JSON.parse\<close>; \<open>todayUTC\<close> and \<open>nowISO\<close> are the clock readings used by
  the ledger; \<open>numberToString\<close> is the platform's conversion of a number to text, as a
  template literal applies it to \<open>minSpreadPercent\<close>.
\<close>

record SnipeEnv =
  callClaude :: "ClaudeMessage list \<Rightarrow> bool \<Rightarrow> string + ClaudeResponse"
  searchSoldPrices :: "string \<Rightarrow> string option"
  jsonParse :: "string \<Rightarrow> json option"
  todayUTC :: string
  nowISO :: string
  numberToString :: "rat \<Rightarrow> string"

text \<open>
  The variables of the tool-use loop: the message history, \<open>toolCallsUsed\<close>, the token
  totals, and the stored ledger. \<open>searched\<close> logs the product names passed to
  \<open>searchSoldPrices\<close>, one entry per executed tool call, and \<open>claudeCalls\<close> counts the calls
  of \<open>callClaude\<close>.
\<close>

record SnipeState =
  messages :: "ClaudeMessage list"
  toolCallsUsed :: nat
  sumInputTokens :: int
  sumOutputTokens :: int
  storedUsage :: "TokenUsageEntry option"
  searched :: "string list"
  claudeCalls :: nat

definition maxToolCalls :: nat where
  "maxToolCalls = 5"

text \<open>The inner \<open>for (const block of toolUseBlocks)\<close>: one search per block.\<close>

fun executeToolCalls ::
  "SnipeEnv \<Rightarrow> ClaudeContentBlock list \<Rightarrow> SnipeState \<times> ClaudeContentBlock list
     \<Rightarrow> SnipeState \<times> ClaudeContentBlock list" where
  "executeToolCalls env [] (st, toolResults) = (st, toolResults)"
| "executeToolCalls env (block # blocks) (st, toolResults) =
     (let productName = (case tool_product_name block of None \<Rightarrow> [] | Some n \<Rightarrow> n);
          resultText = (case searchSoldPrices env productName of
                          Some r \<Rightarrow> r
                        | None \<Rightarrow> ''Error: search failed'')
      in executeToolCalls env blocks
           (st\<lparr>toolCallsUsed := toolCallsUsed st + 1, searched := searched st @ [productName]\<rparr>,
            toolResults @
              [\<lparr>block_type = ToolResult, block_text = None, block_id = None, block_name = None,
                tool_product_name = None, tool_use_id = block_id block,
                block_content = Some resultText\<rparr>]))"

text \<open>
  The loop \<open>for (let loop = 0; loop < maxToolCalls + 1; loop++)\<close>, by the number of
  iterations left. The result is \<open>Inl\<close> with the error message when a call throws, and
  otherwise \<open>finalResponse\<close> (\<open>None\<close> for \<open>null\<close>), each with the variables at that point.
\<close>

fun snipeLoop ::
  "SnipeEnv \<Rightarrow> string \<Rightarrow> bool \<Rightarrow> nat \<Rightarrow> SnipeState
     \<Rightarrow> (string \<times> SnipeState) + (ClaudeResponse option \<times> SnipeState)" where
  "snipeLoop env agent hasTools 0 st = Inr (None, st)"
| "snipeLoop env agent hasTools (Suc n) st =
     (case callClaude env (messages st) (hasTools \<and> toolCallsUsed st < maxToolCalls) of
        Inl err \<Rightarrow> Inl (err, st\<lparr>claudeCalls := claudeCalls st + 1\<rparr>)
      | Inr response \<Rightarrow>
          (let st1 = st\<lparr>claudeCalls := claudeCalls st + 1,
                        sumInputTokens := sumInputTokens st + input_tokens (response_usage response),
                        sumOutputTokens := sumOutputTokens st + output_tokens (response_usage response),
                        storedUsage := recordUsage (todayUTC env) (nowISO env) agent
                          (input_tokens (response_usage response))
                          (output_tokens (response_usage response)) 0 (storedUsage st)\<rparr>;
               toolUseBlocks = filter (\<lambda>b. block_type b = ToolUse) (response_content response)
           in if length toolUseBlocks = 0 \<or> toolCallsUsed st1 \<ge> maxToolCalls
              then Inr (Some response, st1)
              else
                (let st2 = st1\<lparr>messages := messages st1 @
                             [\<lparr>role = assistant,
                               message_content = BlockContent (response_content response)\<rparr>]\<rparr>;
                     (st3, toolResults) = executeToolCalls env toolUseBlocks (st2, []);
                     st4 = st3\<lparr>messages := messages st3 @
                             [\<lparr>role = user, message_content = BlockContent toolResults\<rparr>]\<rparr>
                 in snipeLoop env agent hasTools n st4)))"

subsection \<open>The run\<close>

datatype DiagnosticStatus = status_success | status_error | status_empty | status_blocked

fun statusName :: "DiagnosticStatus \<Rightarrow> string" where
  "statusName status_success = ''success''"
| "statusName status_error = ''error''"
| "statusName status_empty = ''empty''"
| "statusName status_blocked = ''blocked''"

record SourceDiagnostic =
  diag_source :: string
  diag_status :: DiagnosticStatus
  diag_statusCode :: "int option"
  diag_error :: "string option"
  diag_itemCount :: nat
  diag_durationMs :: nat

record ScoutStats =
  leadsFound :: nat
  leadsQualified :: nat
  sourcesChecked :: "string list"
  diagnostics :: "SourceDiagnostic list option"

record ScoutSnipeResult =
  success :: bool
  opportunities :: "json list"
  result_reasoning :: string
  totalInputTokens :: int
  totalOutputTokens :: int
  totalToolCalls :: nat
  estimatedCost :: rat
  scoutStats :: ScoutStats
  result_error :: "string option"
  abortReason :: "string option"

text \<open>
  What the fetchers and qualifiers of phase 1 hand over. For a configuration with crypto
  pairs: the quotes that \<open>fetchCryptoPrices\<close> returns. For the others: the leads of all
  sources (only their number matters from the merge on), the qualified leads of the four
  qualifiers, the names of the sources checked and the diagnostics.
\<close>

record ScoutData =
  cryptoPrices :: "CryptoPrice list"
  allLeadsCount :: nat
  bookLeadsCount :: nat
  qualifiedLeads :: "QualifiedLead list"
  dealLeads :: "QualifiedLead list"
  bookQualifiedLeads :: "QualifiedLead list"
  collectiblesDirectLeads :: "QualifiedLead list"
  scoutSources :: "string list"
  allDiagnostics :: "SourceDiagnostic list"

definition estimateCost :: "int \<Rightarrow> int \<Rightarrow> rat" where
  "estimateCost inputTokens outputTokens =
     (of_int inputTokens / 1000000) * 3 + (of_int outputTokens / 1000000) * 15"

definition diagSummary :: "SourceDiagnostic list \<Rightarrow> string" where
  "diagSummary ds =
     joinWith ''; ''
       (map (\<lambda>d. diag_source d @ '': '' @ statusName (diag_status d)
                  @ (case diag_error d of
                       None \<Rightarrow> []
                     | Some e \<Rightarrow> if e = [] then [] else '' ('' @ e @ '')''))
          (filter (\<lambda>d. diag_status d \<noteq> status_success) ds))"

definition allQualifiedOf :: "ScoutData \<Rightarrow> QualifiedLead list" where
  "allQualifiedOf scout =
     take 25 (qualifiedLeads scout @ dealLeads scout @ bookQualifiedLeads scout
              @ collectiblesDirectLeads scout)"

definition totalLeadsOf :: "ScoutData \<Rightarrow> nat" where
  "totalLeadsOf scout =
     allLeadsCount scout
     + (if length (dealLeads scout) > 0 then length (dealLeads scout) else 0)
     + bookLeadsCount scout"

text \<open>
  The number of leads whose sell price is not verified (the tool is offered to the model
  when there is one), and the loop's variables before its first iteration.
\<close>

definition needsResearchOf :: "QualifiedLead list \<Rightarrow> nat" where
  "needsResearchOf allQualified =
     length (filter (\<lambda>l. q_sellPriceType l = Some research_needed
                         \<or> q_sellPriceType l = Some estimated) allQualified)"

definition snipeStart :: "TokenUsageEntry option \<Rightarrow> string \<Rightarrow> SnipeState" where
  "snipeStart stored message =
     \<lparr>messages = [\<lparr>role = user, message_content = TextContent message\<rparr>],
      toolCallsUsed = 0, sumInputTokens = 0, sumOutputTokens = 0,
      storedUsage = stored, searched = [], claudeCalls = 0\<rparr>"

text \<open>
  An opportunity built from a spread, as the JavaScript object it is in the result: the
  fields in the order of the object literal, a fee that is not set being absent.
\<close>

fun sellPriceTypeName :: "SellPriceType \<Rightarrow> string" where
  "sellPriceTypeName verified = ''verified''"
| "sellPriceTypeName estimated = ''estimated''"
| "sellPriceTypeName research_needed = ''research_needed''"

definition optionalNumber :: "string \<Rightarrow> int option \<Rightarrow> (string \<times> json) list" where
  "optionalNumber key v = (case v of None \<Rightarrow> [] | Some n \<Rightarrow> [(key, JNumber (of_int n))])"

definition opportunityJson :: "ParsedOpportunity \<Rightarrow> json" where
  "opportunityJson opp =
     JObject
       [(''title'', JString (title opp)),
        (''description'', JString (description opp)),
        (''buyPrice'', JNumber (of_int (buyPrice opp))),
        (''buySource'', JString (buySource opp)),
        (''buyUrl'', JString (buyUrl opp)),
        (''sellPrice'', JNumber (of_int (sellPrice opp))),
        (''sellSource'', JString (sellSource opp)),
        (''sellUrl'', JString (sellUrl opp)),
        (''sellPriceType'', JString (sellPriceTypeName (sellPriceType opp))),
        (''estimatedProfit'', JNumber (of_int (estimatedProfit opp))),
        (''fees'', JObject (optionalNumber ''platformFee'' (platformFee (fees opp))
                           @ optionalNumber ''shippingCost'' (shippingCost (fees opp))
                           @ optionalNumber ''paymentProcessing'' (paymentProcessing (fees opp))
                           @ optionalNumber ''other'' (other (fees opp))
                           @ [(''total'', JNumber (of_int (total (fees opp))))])),
        (''confidence'', JNumber (of_int (confidence opp))),
        (''riskNotes'', JArray (map JString (riskNotes opp))),
        (''reasoning'', JString (reasoning opp))]"

text \<open>
  The crypto short-circuit at the head of \<open>runScoutThenSnipe\<close>, taken when the
  configuration has \<open>useCryptoAPIs\<close> and \<open>cryptoPairs\<close>: the spreads found among the quotes
  are returned as opportunities without any call of the model, and when there is none the
  run ends there as well.
\<close>

definition takesCryptoPath :: "AgentScoutConfig \<Rightarrow> bool" where
  "takesCryptoPath agentConfig \<longleftrightarrow> useCryptoAPIs agentConfig \<and> cryptoPairs agentConfig \<noteq> None"

definition cryptoRun :: "SnipeEnv \<Rightarrow> AgentScoutConfig \<Rightarrow> CryptoPrice list \<Rightarrow> ScoutSnipeResult" where
  "cryptoRun env agentConfig prices =
     (let sources = [''Binance API'', ''Coinbase API'', ''Kraken API''];
          spreads = findCryptoSpreads prices (minSpreadPercent agentConfig)
      in if length spreads > 0 then
           \<lparr>success = True,
            opportunities = map opportunityJson (buildCryptoOpportunities spreads),
            result_reasoning =
              ''Found '' @ decimal (length spreads)
              @ '' cross-exchange spreads by comparing live prices from ''
              @ joinWith '', '' (distinctInOrder (map quote_exchange prices)) @ ''.'',
            totalInputTokens = 0,
            totalOutputTokens = 0,
            totalToolCalls = 0,
            estimatedCost = 0,
            scoutStats = \<lparr>leadsFound = length prices, leadsQualified = length spreads,
                           sourcesChecked = sources, diagnostics = Some []\<rparr>,
            result_error = None,
            abortReason = None\<rparr>
         else
           \<lparr>success = True,
            opportunities = [],
            result_reasoning =
              ''Checked ''
              @ decimal (length (case cryptoPairs agentConfig of None \<Rightarrow> [] | Some pairs \<Rightarrow> pairs))
              @ '' pairs across 3 exchanges. No spreads exceeding ''
              @ numberToString env (minSpreadPercent agentConfig) @ ''% found at this time.'',
            totalInputTokens = 0,
            totalOutputTokens = 0,
            totalToolCalls = 0,
            estimatedCost = 0,
            scoutStats = \<lparr>leadsFound = length prices, leadsQualified = 0,
                           sourcesChecked = sources, diagnostics = Some []\<rparr>,
            result_error = None,
            abortReason = None\<rparr>)"

text \<open>
  \<open>runScoutThenSnipe\<close>: the crypto short-circuit, and for the other configurations the
  run from \<open>const allQualified = ...\<close> to its end, the \<open>catch\<close> included.
  \<open>snipeMessage\<close> is the prompt text built from the leads; \<open>budgetConfig\<close> and \<open>stored\<close> are
  what \<open>loadBudgetConfig\<close> and the ledger file hold when the phase starts. The progress
  events and the timer of the source have no part in the result and are left out.
\<close>

definition runScoutThenSnipe ::
  "SnipeEnv \<Rightarrow> AgentType \<Rightarrow> AgentScoutConfig \<Rightarrow> BudgetConfig \<Rightarrow> TokenUsageEntry option
     \<Rightarrow> (QualifiedLead list \<Rightarrow> string) \<Rightarrow> ScoutData \<Rightarrow> ScoutSnipeResult" where
  "runScoutThenSnipe env agent agentConfig budgetConfig stored snipeMessage scout =
     (let allQualified = allQualifiedOf scout;
          totalLeads = totalLeadsOf scout
      in if takesCryptoPath agentConfig then cryptoRun env agentConfig (cryptoPrices scout)
         else if length allQualified = 0 then
           (let summary = diagSummary (allDiagnostics scout)
            in \<lparr>success = True,
                opportunities = [],
                result_reasoning =
                  ''Scouted '' @ decimal totalLeads @ '' leads across ''
                  @ joinWith '', '' (scoutSources scout)
                  @ ''. No leads passed the minimum profit threshold of $''
                  @ toFixed 0 (of_int (minProfitCents agentConfig) / 100) @ ''.''
                  @ (if summary \<noteq> [] then '' Source issues: '' @ summary else []),
                totalInputTokens = 0,
                totalOutputTokens = 0,
                totalToolCalls = 0,
                estimatedCost = 0,
                scoutStats = \<lparr>leadsFound = totalLeads, leadsQualified = 0,
                               sourcesChecked = scoutSources scout,
                               diagnostics = Some (allDiagnostics scout)\<rparr>,
                result_error = None,
                abortReason = None\<rparr>)
         else if \<not> allowed (checkBudget budgetConfig (todayUTC env) stored) then
           \<lparr>success = False,
            opportunities = [],
            result_reasoning = [],
            totalInputTokens = 0,
            totalOutputTokens = 0,
            totalToolCalls = 0,
            estimatedCost = 0,
            scoutStats = \<lparr>leadsFound = totalLeads, leadsQualified = length allQualified,
                           sourcesChecked = scoutSources scout, diagnostics = None\<rparr>,
            result_error = None,
            abortReason = Some ''Daily token limit reached.''\<rparr>
         else
           (let needsResearch = needsResearchOf allQualified;
                start = snipeStart stored (snipeMessage allQualified)
            in case snipeLoop env (agentTypeName agent) (needsResearch > 0) (maxToolCalls + 1) start of
                 Inl (err, st) \<Rightarrow>
                   \<lparr>success = False,
                    opportunities = [],
                    result_reasoning = [],
                    totalInputTokens = sumInputTokens st,
                    totalOutputTokens = sumOutputTokens st,
                    totalToolCalls = 0,
                    estimatedCost = estimateCost (sumInputTokens st) (sumOutputTokens st),
                    scoutStats = \<lparr>leadsFound = 0, leadsQualified = 0,
                                   sourcesChecked = scoutSources scout,
                                   diagnostics = Some (allDiagnostics scout)\<rparr>,
                    result_error = Some err,
                    abortReason = None\<rparr>
               | Inr (finalResponse, st) \<Rightarrow>
                   \<lparr>success = True,
                    opportunities = (case finalResponse of
                                       None \<Rightarrow> []
                                     | Some response \<Rightarrow> parseOpportunities (jsonParse env) response),
                    result_reasoning = (case finalResponse of
                                          None \<Rightarrow> []
                                        | Some response \<Rightarrow> extractReasoning response),
                    totalInputTokens = sumInputTokens st,
                    totalOutputTokens = sumOutputTokens st,
                    totalToolCalls = 1 + toolCallsUsed st,
                    estimatedCost = estimateCost (sumInputTokens st) (sumOutputTokens st),
                    scoutStats = \<lparr>leadsFound = totalLeads, leadsQualified = length allQualified,
                                   sourcesChecked = scoutSources scout,
                                   diagnostics = Some (allDiagnostics scout)\<rparr>,
                    result_error = None,
                    abortReason = None\<rparr>))"

text \<open>The five fields that \<open>parseOpportunities\<close> requires of an element.\<close>

definition hasFields :: "json \<Rightarrow> bool" where
  "hasFields obj \<longleftrightarrow>
     truthyProp (jsProp obj ''title'') \<and> isNumberProp (jsProp obj ''buyPrice'')
     \<and> isNumberProp (jsProp obj ''sellPrice'') \<and> truthyProp (jsProp obj ''buySource'')
     \<and> truthyProp (jsProp obj ''sellSource'')"

text \<open>
  Sample reply of the model: two opportunities, the second without prices. \<open>sampleParse\<close>
  is \<open>JSON.parse\<close> on the texts that occur in the samples.
\<close>

definition sampleBlock :: string where
  \<open>sampleBlock =
     ''[{"title":"Lamp","buyPrice":500,"sellPrice":1500,"buySource":"Craigslist","sellSource":"eBay"},''
     @ ''{"title":"Chair","buySource":"Craigslist"}]''\<close>

definition sampleParsed :: json where
  "sampleParsed =
     JArray
       [JObject [(''title'', JString ''Lamp''), (''buyPrice'', JNumber 500),
                 (''sellPrice'', JNumber 1500), (''buySource'', JString ''Craigslist''),
                 (''sellSource'', JString ''eBay'')],
        JObject [(''title'', JString ''Chair''), (''buySource'', JString ''Craigslist'')]]"

definition sampleParse :: "string \<Rightarrow> json option" where
  "sampleParse s = (if s = sampleBlock then Some sampleParsed else None)"

definition textResponse :: "string \<Rightarrow> ClaudeResponse" where
  "textResponse t =
     \<lparr>response_id = ''msg_1'',
      response_content =
        [\<lparr>block_type = TextBlock, block_text = Some t, block_id = None, block_name = None,
          tool_product_name = None, tool_use_id = None, block_content = None\<rparr>],
      response_model = ''claude-haiku-4-5-20251001'', stop_reason = end_turn,
      response_usage = \<lparr>input_tokens = 1200, output_tokens = 300\<rparr>\<rparr>"

definition sampleResponse :: ClaudeResponse where
  "sampleResponse = textResponse (''Verified.'' @ [CHR 0x0A] @ ''<opportunities>'' @ [CHR 0x0A]
     @ sampleBlock @ [CHR 0x0A] @ ''</opportunities>'')"

text \<open>
  Sample runs. A scout phase that found twelve leads and qualified none; one that
  qualified a single lead with an estimated sell price; and collaborators whose model
  answers with plain text, with an unparsable block, or first asks for six searches in
  one response.
\<close>

definition emptyHandedScout :: ScoutData where
  "emptyHandedScout =
     \<lparr>cryptoPrices = [], allLeadsCount = 12, bookLeadsCount = 0, qualifiedLeads = [],
      dealLeads = [],
      bookQualifiedLeads = [], collectiblesDirectLeads = [],
      scoutSources = [''Craigslist RSS (5 cities)'', ''Tavily Search''],
      allDiagnostics =
        [\<lparr>diag_source = ''craigslist'', diag_status = status_blocked,
          diag_statusCode = Some 403, diag_error = Some ''HTTP 403'', diag_itemCount = 0,
          diag_durationMs = 812\<rparr>,
         \<lparr>diag_source = ''tavily'', diag_status = status_success, diag_statusCode = None,
          diag_error = None, diag_itemCount = 12, diag_durationMs = 2210\<rparr>]\<rparr>"

definition lampLead :: QualifiedLead where
  "lampLead =
     \<lparr>q_title = ''Tiffany style lamp'', q_description = ''Lamp $5 (was $15)'',
      q_buyPrice = 500, q_buySource = ''Slickdeals'', q_buyUrl = ''https://slickdeals.net/f/2'',
      sellPriceEstimate = 1500, q_sellSource = ''Amazon/eBay'',
      q_sellUrl = ''https://www.ebay.com/sch/i.html?_nkw=lamp&LH_Sold=1&LH_Complete=1'',
      q_sellPriceType = Some estimated, estimatedSpread = 1000, spreadPercent = 200 / 3,
      q_confidence = medium, q_category = ''Slickdeals'',
      raw = RawDealFeedItem
              \<lparr>item_title = ''Lamp $5 (was $15)'', item_url = ''https://slickdeals.net/f/2'',
               item_description = '''', item_source = ''Slickdeals'', pubDate = ''''\<rparr>\<rparr>"

definition oneLeadScout :: ScoutData where
  "oneLeadScout =
     \<lparr>cryptoPrices = [], allLeadsCount = 0, bookLeadsCount = 0, qualifiedLeads = [],
      dealLeads = [lampLead],
      bookQualifiedLeads = [], collectiblesDirectLeads = [],
      scoutSources = [''Slickdeals''], allDiagnostics = []\<rparr>"

text \<open>The text of the numbers that occur in the samples: 0.15, and whole numbers.\<close>

definition sampleNumberText :: "rat \<Rightarrow> string" where
  "sampleNumberText x = (if x = 15 / 100 then ''0.15'' else decimal (nat \<lfloor>x\<rfloor>))"

definition replyingEnv :: "(ClaudeMessage list \<Rightarrow> ClaudeResponse) \<Rightarrow> SnipeEnv" where
  "replyingEnv reply =
     \<lparr>callClaude = (\<lambda>history toolsOffered. Inr (reply history)),
      searchSoldPrices = (\<lambda>productName. Some ''No eBay sold listings found.''),
      jsonParse = sampleParse,
      todayUTC = ''2026-11-02'',
      nowISO = ''2026-11-02T10:00:00.000Z'',
      numberToString = sampleNumberText\<rparr>"

definition searchRequest :: "string \<Rightarrow> string \<Rightarrow> ClaudeContentBlock" where
  "searchRequest ident productName =
     \<lparr>block_type = ToolUse, block_text = None, block_id = Some ident,
      block_name = Some ''search_sold_prices'', tool_product_name = Some productName,
      tool_use_id = None, block_content = None\<rparr>"

definition sixSearches :: ClaudeResponse where
  "sixSearches =
     \<lparr>response_id = ''msg_0'',
      response_content =
        [searchRequest ''toolu_1'' ''Tiffany lamp'', searchRequest ''toolu_2'' ''Dyson V8'',
         searchRequest ''toolu_3'' ''Aeron chair'', searchRequest ''toolu_4'' ''Nintendo Switch'',
         searchRequest ''toolu_5'' ''KitchenAid mixer'', searchRequest ''toolu_6'' ''AirPods Pro''],
      response_model = ''claude-haiku-4-5-20251001'', stop_reason = stop_tool_use,
      response_usage = \<lparr>input_tokens = 1500, output_tokens = 400\<rparr>\<rparr>"

definition plainPrompt :: "QualifiedLead list \<Rightarrow> string" where
  "plainPrompt allQualified = ''Here are '' @ decimal (length allQualified) @ '' pre-screened leads''"

definition sixSearchesEnv :: SnipeEnv where
  "sixSearchesEnv =
     replyingEnv (\<lambda>history. if length history = 1 then sixSearches
                             else textResponse ''Nothing verified.'')"

text \<open>What the crypto fetchers hand over: the two quotes one percent apart, or level.\<close>

definition cryptoScout :: "CryptoPrice list \<Rightarrow> ScoutData" where
  "cryptoScout prices =
     \<lparr>cryptoPrices = prices, allLeadsCount = 0, bookLeadsCount = 0, qualifiedLeads = [],
      dealLeads = [], bookQualifiedLeads = [], collectiblesDirectLeads = [],
      scoutSources = [], allDiagnostics = []\<rparr>"

definition plainReplyEnv :: SnipeEnv where
  "plainReplyEnv = replyingEnv (\<lambda>history. textResponse ''No profitable leads.'')"

definition brokenReplyEnv :: SnipeEnv where
  "brokenReplyEnv = replyingEnv (\<lambda>history. textResponse ''<opportunities>not json</opportunities>'')"

subsection \<open>The later revision of the two filters\<close>

text \<open>
  \<^verbatim>\<open>src/unnamed/part_013\<close> holds a later revision of \<^verbatim>\<open>filter.ts\<close>, the one that the
  runner's reads of \<open>lead.sellPriceType\<close> are written against. There a resale lookup
  carries a \<open>priceType\<close>, every lead carries a \<open>sellPriceType\<close>, leads without a resale
  price are passed on as \<open>research_needed\<close> (at most five of them), and the deal filter
  has three fallbacks. The definitions of this revision bear the suffix \<open>_v2\<close>.
\<close>

record ResalePriceInfo_v2 =
  v2_estimatedPrice :: int
  v2_platform :: string
  v2_url :: string
  v2_dataPoints :: nat
  v2_listingDataPoints :: "nat option"
  priceType :: SellPriceType

datatype LeadVerdict = Skipped | Qualified QualifiedLead | Unresearched QualifiedLead

text \<open>The body of the \<open>for\<close> loop of \<open>filterLeadsWithPriceData\<close> in this revision.\<close>

definition qualifyLead_v2 ::
  "(string \<Rightarrow> string) \<Rightarrow> (string \<rightharpoonup> ResalePriceInfo_v2) \<Rightarrow> int \<Rightarrow> rat \<Rightarrow> ScoutLead
     \<Rightarrow> LeadVerdict" where
  "qualifyLead_v2 encodeTitle resalePriceData minProfitCents' minSpreadPercent' lead =
     (case priceFound lead of
        None \<Rightarrow> Skipped
      | Some price \<Rightarrow>
          if price = 0 \<or> price \<le> 0 then Skipped
          else
            (case (case resalePriceData (lead_url lead) of
                     Some r \<Rightarrow> Some r
                   | None \<Rightarrow> resalePriceData (lead_title lead)) of
               None \<Rightarrow> Skipped
             | Some resale \<Rightarrow>
                 (let sellUrl' = (if v2_url resale \<noteq> [] then v2_url resale
                                  else ebaySoldSearchUrl encodeTitle (lead_title lead))
                  in if v2_estimatedPrice resale = 0 \<or> priceType resale = research_needed then
                       Unresearched
                         \<lparr>q_title = lead_title lead,
                          q_description = lead_snippet lead,
                          q_buyPrice = price,
                          q_buySource = lead_source lead,
                          q_buyUrl = lead_url lead,
                          sellPriceEstimate = 0,
                          q_sellSource = ''Unknown'',
                          q_sellUrl = sellUrl',
                          q_sellPriceType = Some research_needed,
                          estimatedSpread = 0,
                          spreadPercent = 0,
                          q_confidence = low,
                          q_category = lead_category lead,
                          raw = RawScoutLead lead\<rparr>
                     else
                       (let spread = v2_estimatedPrice resale - price;
                            spreadPercent' = (of_int spread / of_int price) * 100
                        in if spread < minProfitCents' then Skipped
                           else if spreadPercent' < minSpreadPercent' then Skipped
                           else
                             (let listingPts = (case v2_listingDataPoints resale of
                                                  None \<Rightarrow> 0 | Some n \<Rightarrow> n);
                                  confidence' =
                                    (if (listingPts \<ge> 2 \<or> v2_dataPoints resale \<ge> 5)
                                        \<and> spreadPercent' > 50
                                     then high
                                     else if (listingPts \<ge> 1 \<or> v2_dataPoints resale \<ge> 3)
                                             \<and> spreadPercent' > 30
                                     then medium
                                     else low)
                              in Qualified
                                   \<lparr>q_title = lead_title lead,
                                    q_description = lead_snippet lead,
                                    q_buyPrice = price,
                                    q_buySource = lead_source lead,
                                    q_buyUrl = lead_url lead,
                                    sellPriceEstimate = v2_estimatedPrice resale,
                                    q_sellSource = v2_platform resale,
                                    q_sellUrl = sellUrl',
                                    q_sellPriceType = Some (priceType resale),
                                    estimatedSpread = spread,
                                    spreadPercent = spreadPercent',
                                    q_confidence = confidence',
                                    q_category = lead_category lead,
                                    raw = RawScoutLead lead\<rparr>)))))"

definition filterLeadsWithPriceData_v2 ::
  "(string \<Rightarrow> string) \<Rightarrow> ScoutLead list \<Rightarrow> (string \<rightharpoonup> ResalePriceInfo_v2) \<Rightarrow> int \<Rightarrow> rat
     \<Rightarrow> QualifiedLead list" where
  "filterLeadsWithPriceData_v2 encodeTitle leads resalePriceData minProfitCents' minSpreadPercent' =
     (let verdicts = map (qualifyLead_v2 encodeTitle resalePriceData minProfitCents'
                            minSpreadPercent') leads;
          qualified = List.map_filter (\<lambda>v. case v of Qualified q \<Rightarrow> Some q | _ \<Rightarrow> None) verdicts;
          unresearched = List.map_filter (\<lambda>v. case v of Unresearched q \<Rightarrow> Some q | _ \<Rightarrow> None)
                           verdicts
      in sortBySpreadDesc qualified @ take 5 unresearched)"

text \<open>\<^verbatim>\<open>/(\d+)%\s*off/i\<close> and \<open>parseInt(digits, 10)\<close> on its group.\<close>

definition percentOffPattern :: regex where
  "percentOffPattern = seqs [Group (Greedy 1 isDigit), Lit ''%'', rxSpaces, Lit ''off'']"

definition dealLead_v2 ::
  "(string \<Rightarrow> string) \<Rightarrow> DealFeedItem \<Rightarrow> int \<Rightarrow> int \<Rightarrow> rat \<Rightarrow> Confidence \<Rightarrow> QualifiedLead" where
  "dealLead_v2 encodeTitle item dealPrice regularPrice discount confidence' =
     (dealLead encodeTitle item dealPrice regularPrice discount confidence')
       \<lparr>q_sellPriceType := Some estimated\<rparr>"

text \<open>
  The body of the \<open>for\<close> loop of \<open>filterDealFeedItems\<close> in this revision: the structured
  pair, then the three fallbacks, each reached when the one before it pushed nothing.
\<close>

definition dealFallback3 ::
  "(string \<Rightarrow> string) \<Rightarrow> rat \<Rightarrow> DealFeedItem \<Rightarrow> QualifiedLead option" where
  "dealFallback3 encodeTitle minDiscountPercent item =
     (let fullText = item_title item @ '' '' @ item_description item;
          singlePrice = extractAllPrices (item_title item);
          allTextPrices = extractAllPrices fullText
      in if length allTextPrices \<ge> 2 \<and> length singlePrice \<ge> 1 then
           (let dealPrice = singlePrice ! 0;
                otherPrices = filter (\<lambda>p. p \<noteq> dealPrice \<and> p > dealPrice) allTextPrices
            in if length otherPrices > 0 then
                 (let sorted = sort otherPrices;
                      regularPrice = sorted ! (length sorted div 2);
                      discount = (of_int (regularPrice - dealPrice) / of_int regularPrice) * 100
                  in if discount \<ge> minDiscountPercent \<and> dealPrice > 0
                     then Some (dealLead_v2 encodeTitle item dealPrice regularPrice discount low)
                     else None)
               else None)
         else None)"

definition dealFallback2 ::
  "(string \<Rightarrow> string) \<Rightarrow> rat \<Rightarrow> DealFeedItem \<Rightarrow> QualifiedLead option" where
  "dealFallback2 encodeTitle minDiscountPercent item =
     (let fullText = item_title item @ '' '' @ item_description item;
          pctMatch = rxSearch True percentOffPattern fullText;
          singlePrice = extractAllPrices (item_title item)
      in case pctMatch of
           Some [digits] \<Rightarrow>
             if length singlePrice = 1 then
               (let pctOff = int (digitsValue digits)
                in if of_int pctOff \<ge> minDiscountPercent \<and> pctOff < 95 then
                     (let dealPrice = singlePrice ! 0;
                          regularPrice = Math_round (of_int dealPrice / (1 - of_int pctOff / 100))
                      in if regularPrice > dealPrice \<and> dealPrice > 0
                         then Some (dealLead_v2 encodeTitle item dealPrice regularPrice
                                      (of_int pctOff) low)
                         else dealFallback3 encodeTitle minDiscountPercent item)
                   else dealFallback3 encodeTitle minDiscountPercent item)
             else dealFallback3 encodeTitle minDiscountPercent item
         | _ \<Rightarrow> dealFallback3 encodeTitle minDiscountPercent item)"

definition dealFallback1 ::
  "(string \<Rightarrow> string) \<Rightarrow> rat \<Rightarrow> DealFeedItem \<Rightarrow> QualifiedLead option" where
  "dealFallback1 encodeTitle minDiscountPercent item =
     (let titlePrices = extractAllPrices (item_title item)
      in if length titlePrices = 2 then
           (let sorted = sort titlePrices;
                dealPrice = sorted ! 0;
                regularPrice = sorted ! 1
            in if regularPrice > dealPrice \<and> dealPrice > 0 then
                 (let discount = (of_int (regularPrice - dealPrice) / of_int regularPrice) * 100
                  in if discount \<ge> minDiscountPercent
                     then Some (dealLead_v2 encodeTitle item dealPrice regularPrice discount medium)
                     else dealFallback2 encodeTitle minDiscountPercent item)
               else dealFallback2 encodeTitle minDiscountPercent item)
         else dealFallback2 encodeTitle minDiscountPercent item)"

definition qualifyDealItem_v2 ::
  "(string \<Rightarrow> string) \<Rightarrow> rat \<Rightarrow> DealFeedItem \<Rightarrow> QualifiedLead option" where
  "qualifyDealItem_v2 encodeTitle minDiscountPercent item =
     (case (case extractDealPricePair (item_title item) of
              Some found \<Rightarrow> Some found
            | None \<Rightarrow> extractDealPricePair (item_title item @ '' '' @ item_description item)) of
        Some (dealPrice, regularPrice) \<Rightarrow>
          (let discount = (of_int (regularPrice - dealPrice) / of_int regularPrice) * 100
           in if discount \<ge> minDiscountPercent
              then Some (dealLead_v2 encodeTitle item dealPrice regularPrice discount
                           (if discount > 70 then high else medium))
              else None)
      | None \<Rightarrow> dealFallback1 encodeTitle minDiscountPercent item)"

definition filterDealFeedItems_v2 ::
  "(string \<Rightarrow> string) \<Rightarrow> DealFeedItem list \<Rightarrow> rat \<Rightarrow> QualifiedLead list" where
  "filterDealFeedItems_v2 encodeTitle items minDiscountPercent =
     sortBySpreadDesc (List.map_filter (qualifyDealItem_v2 encodeTitle minDiscountPercent) items)"

text \<open>Step 1f of \<open>runScoutThenSnipe\<close> with the deal filter of this revision.\<close>

definition dealLeadsOfRun_v2 ::
  "(string \<Rightarrow> string) \<Rightarrow> AgentScoutConfig \<Rightarrow> DealFeedItem list \<Rightarrow> QualifiedLead list" where
  "dealLeadsOfRun_v2 encodeTitle agentConfig feedItems =
     (if useDealFeeds agentConfig then filterDealFeedItems_v2 encodeTitle feedItems 25 else [])"

text \<open>Sample inputs of the later revision.\<close>

definition mixerLead :: ScoutLead where
  "mixerLead =
     \<lparr>lead_title = ''KitchenAid mixer'', lead_url = ''https://offerup.com/item/detail/2'',
      lead_snippet = ''KitchenAid mixer $80'', lead_source = ''OfferUp'',
      priceFound = Some 8000, lead_category = ''listings''\<rparr>"

definition sampleResale_v2 :: "string \<rightharpoonup> ResalePriceInfo_v2" where
  "sampleResale_v2 =
     [''https://offerup.com/item/detail/1'' \<mapsto>
        \<lparr>v2_estimatedPrice = 12000, v2_platform = ''eBay'',
         v2_url = ''https://www.ebay.com/itm/12345'', v2_dataPoints = 4,
         v2_listingDataPoints = Some 2, priceType = verified\<rparr>,
      ''https://offerup.com/item/detail/2'' \<mapsto>
        \<lparr>v2_estimatedPrice = 0, v2_platform = ''eBay'',
         v2_url = [], v2_dataPoints = 0,
         v2_listingDataPoints = None, priceType = research_needed\<rparr>]"

definition blenderDeal :: DealFeedItem where
  "blenderDeal =
     \<lparr>item_title = ''Blender $50'', item_url = ''https://slickdeals.net/f/2'',
      item_description = ''60% off today'', item_source = ''Slickdeals'',
      pubDate = ''Mon, 02 Nov 2026 11:00:00 GMT''\<rparr>"

section \<open>Theorems\<close>

subsection \<open>Evaluation helpers\<close>

lemma floor_rat_numeral [simp]:
  "\<lfloor>(numeral a :: rat) / numeral b\<rfloor> = numeral a div numeral b"
  using floor_divide_of_int_eq [of "numeral a" "numeral b", where ?'a = rat] by simp

lemma floor_rat_one_numeral [simp]:
  "\<lfloor>(1 :: rat) / numeral b\<rfloor> = 1 div numeral b"
  using floor_divide_of_int_eq [of 1 "numeral b", where ?'a = rat] by simp

subsection \<open>The claims\<close>

text \<open>
  Claim C4. For every budget configuration, every current UTC date and every stored
  ledger (absent, corrupted, from another day, or from today), \<open>checkBudget\<close> returns
  \<open>allowed = false\<close> exactly when the total recorded for today is at least the daily
  limit, where a ledger that is absent or carries another date counts as zero.
\<close>

theorem checkBudget_denied_iff:
  "(\<not> allowed (checkBudget config today stored)) =
     (dailyTokenLimit config \<le>
        (case stored of
           None \<Rightarrow> 0
         | Some usage \<Rightarrow> if date usage = today then totalTokens usage else 0))"
  by (cases stored) (auto simp: checkBudget_def readUsage_def freshUsage_def Let_def)

lemma medianLoop_first:
  assumes "i < length es"
    and "h \<le> of_int (c + sum_list (map entry_weight (take (Suc i) es)))"
    and "\<forall>j < i. of_int (c + sum_list (map entry_weight (take (Suc j) es))) < h"
  shows "medianLoop h c es = Some (entry_value (es ! i))"
  using assms
proof (induction es arbitrary: c i)
  case Nil
  then show ?case by simp
next
  case (Cons e es)
  show ?case
  proof (cases i)
    case 0
    with Cons.prems(2) show ?thesis by (simp add: Let_def)
  next
    case (Suc k)
    from Cons.prems(3) Suc have below: "of_int (c + entry_weight e) < h"
      by (auto dest: spec [of _ 0])
    have k: "k < length es"
      using Cons.prems(1) Suc by simp
    have reach: "h \<le> of_int ((c + entry_weight e) + sum_list (map entry_weight (take (Suc k) es)))"
      using Cons.prems(2) Suc by (simp add: add.assoc)
    have before: "\<forall>j < k. of_int ((c + entry_weight e) + sum_list (map entry_weight (take (Suc j) es))) < h"
    proof (intro allI impI)
      fix j
      assume "j < k"
      then have "Suc j < i" using Suc by simp
      with Cons.prems(3) have "of_int (c + sum_list (map entry_weight (take (Suc (Suc j)) (e # es)))) < h"
        by blast
      then show "of_int ((c + entry_weight e) + sum_list (map entry_weight (take (Suc j) es))) < h"
        by (simp add: add.assoc)
    qed
    from Cons.IH [OF k reach before] below Suc show ?thesis
      by (simp add: Let_def)
  qed
qed

lemma foldl_weights:
  "foldl (\<lambda>sum e. sum + entry_weight e) a es = a + sum_list (map entry_weight es)"
  by (induction es arbitrary: a) simp_all

lemma sum_weights_insort:
  "sum_list (map entry_weight (insort_key entry_value e es)) = entry_weight e + sum_list (map entry_weight es)"
  by (induction es) simp_all

lemma sum_weights_sorted:
  "sum_list (map entry_weight (sort_key entry_value es)) = sum_list (map entry_weight es)"
  by (induction es) (simp_all add: sum_weights_insort)

lemma weightedMedian_first_reaching:
  assumes "i < length entries"
    and "of_int (sum_list (map entry_weight entries)) / 2
           \<le> (of_int (cumulativeWeight (sort_key entry_value entries) i) :: rat)"
    and "\<forall>j < i. (of_int (cumulativeWeight (sort_key entry_value entries) j) :: rat)
           < of_int (sum_list (map entry_weight entries)) / 2"
  shows "weightedMedian entries = entry_value (sort_key entry_value entries ! i)"
proof (cases entries)
  case Nil
  with assms(1) show ?thesis by simp
next
  case (Cons e es)
  show ?thesis
  proof (cases es)
    case Nil
    with Cons assms(1) show ?thesis
      by (simp add: weightedMedian_def)
  next
    case (Cons e' es')
    define ordered where "ordered = sort_key entry_value entries"
    have len: "i < length ordered"
      using assms(1) by (simp add: ordered_def)
    have total: "foldl (\<lambda>sum e. sum + entry_weight e) 0 ordered = sum_list (map entry_weight entries)"
      by (simp add: foldl_weights ordered_def sum_weights_sorted)
    have loop: "medianLoop (of_int (sum_list (map entry_weight entries)) / 2) 0 ordered
        = Some (entry_value (ordered ! i))"
      using assms(2,3) unfolding ordered_def [symmetric] cumulativeWeight_def
      by (intro medianLoop_first [OF len]) simp_all
    show ?thesis
      using loop total
      unfolding weightedMedian_def \<open>entries = e # es\<close> \<open>es = e' # es'\<close> ordered_def
      by (simp add: Let_def)
  qed
qed

lemma first_reaching_exists:
  assumes "entries \<noteq> []" and "\<forall>e \<in> set entries. 0 \<le> entry_weight e"
  shows "\<exists>i < length entries.
      of_int (sum_list (map entry_weight entries)) / 2
         \<le> (of_int (cumulativeWeight (sort_key entry_value entries) i) :: rat)
      \<and> (\<forall>j < i. (of_int (cumulativeWeight (sort_key entry_value entries) j) :: rat)
             < of_int (sum_list (map entry_weight entries)) / 2)"
proof -
  define ordered where "ordered = sort_key entry_value entries"
  define half :: rat where "half = of_int (sum_list (map entry_weight entries)) / 2"
  define reaches where "reaches i \<longleftrightarrow> half \<le> of_int (cumulativeWeight ordered i)" for i
  have nonneg: "0 \<le> sum_list (map entry_weight entries)"
    using assms(2) by (induction entries) simp_all
  have n: "0 < length entries" using assms(1) by simp
  have "cumulativeWeight ordered (length entries - 1) = sum_list (map entry_weight entries)"
    using n by (simp add: cumulativeWeight_def ordered_def sum_weights_sorted)
  then have last: "reaches (length entries - 1)"
    using nonneg by (simp add: reaches_def half_def)
  define i where "i = (LEAST k. reaches k)"
  have ri: "reaches i"
    unfolding i_def using last by (rule LeastI)
  have le: "i \<le> length entries - 1"
    unfolding i_def using last by (rule Least_le)
  have min: "\<not> reaches j" if "j < i" for j
    using that not_less_Least unfolding i_def by blast
  from le n have "i < length entries" by linarith
  with ri min show ?thesis
    unfolding reaches_def half_def ordered_def by (auto simp: not_le)
qed


text \<open>
  Claim C7. On the entries \<open>{100,1}, {200,1}, {300,3}\<close> the weighted median is 300. In
  general, with the entries in ascending order of value, the weighted median is the value
  at the first position at which the cumulative weight reaches half of the total weight:
  if the cumulative weight reaches half of the total at a position and stays below it at
  every earlier position, the result is the value at that position; and when there is an
  entry and no weight is negative, there is such a position.
\<close>

theorem weightedMedian_spec_example:
  "weightedMedian
     [\<lparr>entry_value = 100, entry_weight = 1\<rparr>,
      \<lparr>entry_value = 200, entry_weight = 1\<rparr>,
      \<lparr>entry_value = 300, entry_weight = 3\<rparr>] = 300
   \<and> (\<forall>i < length entries.
        of_int (sum_list (map entry_weight entries)) / 2
           \<le> (of_int (cumulativeWeight (sort_key entry_value entries) i) :: rat)
        \<and> (\<forall>j < i. (of_int (cumulativeWeight (sort_key entry_value entries) j) :: rat)
               < of_int (sum_list (map entry_weight entries)) / 2)
        \<longrightarrow> weightedMedian entries = entry_value (sort_key entry_value entries ! i))
   \<and> (entries \<noteq> [] \<and> (\<forall>e \<in> set entries. 0 \<le> entry_weight e) \<longrightarrow>
        (\<exists>i < length entries.
           of_int (sum_list (map entry_weight entries)) / 2
              \<le> (of_int (cumulativeWeight (sort_key entry_value entries) i) :: rat)
           \<and> (\<forall>j < i. (of_int (cumulativeWeight (sort_key entry_value entries) j) :: rat)
                  < of_int (sum_list (map entry_weight entries)) / 2)
           \<and> weightedMedian entries = entry_value (sort_key entry_value entries ! i)))"
proof (intro conjI allI impI)
  show "weightedMedian
     [\<lparr>entry_value = 100, entry_weight = 1\<rparr>,
      \<lparr>entry_value = 200, entry_weight = 1\<rparr>,
      \<lparr>entry_value = 300, entry_weight = 3\<rparr>] = 300"
    by (simp add: weightedMedian_def Let_def)
next
  fix i
  assume "i < length entries"
    and "of_int (sum_list (map entry_weight entries)) / 2
           \<le> (of_int (cumulativeWeight (sort_key entry_value entries) i) :: rat)
        \<and> (\<forall>j < i. (of_int (cumulativeWeight (sort_key entry_value entries) j) :: rat)
               < of_int (sum_list (map entry_weight entries)) / 2)"
  then show "weightedMedian entries = entry_value (sort_key entry_value entries ! i)"
    using weightedMedian_first_reaching [of i entries] by blast
next
  assume h: "entries \<noteq> [] \<and> (\<forall>e \<in> set entries. 0 \<le> entry_weight e)"
  then obtain i where i: "i < length entries"
    "of_int (sum_list (map entry_weight entries)) / 2
         \<le> (of_int (cumulativeWeight (sort_key entry_value entries) i) :: rat)"
    "\<forall>j < i. (of_int (cumulativeWeight (sort_key entry_value entries) j) :: rat)
             < of_int (sum_list (map entry_weight entries)) / 2"
    using first_reaching_exists [of entries] by blast
  from weightedMedian_first_reaching [OF i] i
  show "\<exists>i < length entries.
           of_int (sum_list (map entry_weight entries)) / 2
              \<le> (of_int (cumulativeWeight (sort_key entry_value entries) i) :: rat)
           \<and> (\<forall>j < i. (of_int (cumulativeWeight (sort_key entry_value entries) j) :: rat)
                  < of_int (sum_list (map entry_weight entries)) / 2)
           \<and> weightedMedian entries = entry_value (sort_key entry_value entries ! i)"
    by blast
qed

theorem weightedMedian_spec_example_witness:
  "map (cumulativeWeight (sort_key entry_value specEntries)) [0, 1, 2] = [1, 2, 5]
   \<and> sum_list (map entry_weight specEntries) = 5
   \<and> weightedMedian specEntries = 300
   \<and> map (cumulativeWeight (sort_key entry_value headHeavyEntries)) [0, 1, 2] = [3, 4, 5]
   \<and> weightedMedian headHeavyEntries = 100
   \<and> (\<exists>i. i < 3 \<and> weightedMedian headHeavyEntries
                      = entry_value (sort_key entry_value headHeavyEntries ! i))"
proof -
  have c: "map (cumulativeWeight (sort_key entry_value specEntries)) [0, 1, 2] = [1, 2, 5]"
    "sum_list (map entry_weight specEntries) = 5"
    "sort_key entry_value specEntries ! 2 = \<lparr>entry_value = 300, entry_weight = 3\<rparr>"
    "length specEntries = 3"
    by (simp_all add: cumulativeWeight_def specEntries_def)
  have h: "map (cumulativeWeight (sort_key entry_value headHeavyEntries)) [0, 1, 2] = [3, 4, 5]"
    "sum_list (map entry_weight headHeavyEntries) = 5"
    "sort_key entry_value headHeavyEntries ! 0 = \<lparr>entry_value = 100, entry_weight = 3\<rparr>"
    "length headHeavyEntries = 3"
    by (simp_all add: cumulativeWeight_def headHeavyEntries_def)
  have "\<forall>j < (2 :: nat). j = 0 \<or> j = 1"
    by auto
  with c have before: "\<forall>j < 2. (of_int (cumulativeWeight (sort_key entry_value specEntries) j) :: rat)
               < of_int (sum_list (map entry_weight specEntries)) / 2"
    by auto
  from c have reach: "of_int (sum_list (map entry_weight specEntries)) / 2
           \<le> (of_int (cumulativeWeight (sort_key entry_value specEntries) 2) :: rat)"
    by simp
  from weightedMedian_spec_example [of specEntries, THEN conjunct2, THEN conjunct1, THEN spec,
      of 2, THEN mp, THEN mp, OF _ conjI [OF reach before]] c
  have w1: "weightedMedian specEntries = 300"
    by simp
  from h have reach': "of_int (sum_list (map entry_weight headHeavyEntries)) / 2
           \<le> (of_int (cumulativeWeight (sort_key entry_value headHeavyEntries) 0) :: rat)"
    by simp
  from weightedMedian_spec_example [of headHeavyEntries, THEN conjunct2, THEN conjunct1, THEN spec,
      of 0, THEN mp, THEN mp, OF _ conjI [OF reach']] h
  have w2: "weightedMedian headHeavyEntries = 100"
    by simp
  have "headHeavyEntries \<noteq> [] \<and> (\<forall>e \<in> set headHeavyEntries. 0 \<le> entry_weight e)"
    by (simp add: headHeavyEntries_def)
  from weightedMedian_spec_example [of headHeavyEntries, THEN conjunct2, THEN conjunct2, THEN mp,
      OF this] h(4)
  have w3: "\<exists>i. i < 3 \<and> weightedMedian headHeavyEntries
                      = entry_value (sort_key entry_value headHeavyEntries ! i)"
    by auto
  from c(1,2) h(1) w1 w2 w3 show ?thesis
    by blast
qed

text \<open>
  Claim C2, as stated, fails. For the spread between 100.00 and 101.00 dollars the built
  opportunity has buy price 10000, sell price 10100 and total fees 520 (10 + 10 + 500), so
  sell minus buy minus fees is -420, while \<open>estimatedProfit\<close> is 0.
\<close>

theorem buildCryptoOpportunities_profit_counterexample:
  "map (\<lambda>opp. (estimatedProfit opp, sellPrice opp - buyPrice opp - total (fees opp)))
     (buildCryptoOpportunities [onePercentSpread]) = [(0, - 420)]"
  by (simp add: buildCryptoOpportunities_def buildCryptoOpportunity_def onePercentSpread_def
      Math_round_def Let_def)

text \<open>
  Claim C2, amended. Every opportunity built by \<open>buildCryptoOpportunities\<close> has
  \<open>estimatedProfit = max 0 (sellPrice - buyPrice - fees.total)\<close>: the profit is clamped
  at zero, and equals \<open>sellPrice - buyPrice - fees.total\<close> exactly when that difference is
  not negative. The statement does not depend on how the prices and fees are rounded.
\<close>

theorem buildCryptoOpportunities_profit_clamped:
  "\<forall>opp \<in> set (buildCryptoOpportunities spreads).
     estimatedProfit opp = max 0 (sellPrice opp - buyPrice opp - total (fees opp))"
  by (simp add: buildCryptoOpportunities_def buildCryptoOpportunity_def Let_def)

theorem buildCryptoOpportunities_profit_clamped_witness:
  "buildCryptoOpportunity tenPercentSpread \<in> set (buildCryptoOpportunities [tenPercentSpread])
   \<and> estimatedProfit (buildCryptoOpportunity tenPercentSpread) = 479
   \<and> sellPrice (buildCryptoOpportunity tenPercentSpread)
       - buyPrice (buildCryptoOpportunity tenPercentSpread)
       - total (fees (buildCryptoOpportunity tenPercentSpread)) = 479"
proof -
  have mem: "buildCryptoOpportunity tenPercentSpread
               \<in> set (buildCryptoOpportunities [tenPercentSpread])"
    by (simp add: buildCryptoOpportunities_def)
  have diff: "sellPrice (buildCryptoOpportunity tenPercentSpread)
       - buyPrice (buildCryptoOpportunity tenPercentSpread)
       - total (fees (buildCryptoOpportunity tenPercentSpread)) = 479"
    by (simp add: buildCryptoOpportunity_def tenPercentSpread_def onePercentSpread_def
        Math_round_def Let_def)
  from buildCryptoOpportunities_profit_clamped [of "[tenPercentSpread]"] mem
  have "estimatedProfit (buildCryptoOpportunity tenPercentSpread)
          = max 0 (sellPrice (buildCryptoOpportunity tenPercentSpread)
              - buyPrice (buildCryptoOpportunity tenPercentSpread)
              - total (fees (buildCryptoOpportunity tenPercentSpread)))"
    by blast
  with mem diff show ?thesis by simp
qed

subsection \<open>Queue invariants\<close>

lemma length_update_le: "length (AList.update k v al) \<le> Suc (length al)"
  by (induction al) auto

lemma snd_update_subset: "snd ` set (AList.update k v al) \<subseteq> insert v (snd ` set al)"
  by (induction al) auto

lemma in_update_snd:
  "(a, v') \<in> set (AList.update k v al) \<Longrightarrow> v' = v \<or> v' \<in> snd ` set al"
  using snd_update_subset [of k v al] by force

lemma isAgentRunning_iff: "isAgentRunning t s \<longleftrightarrow> (\<exists>k. (k, t) \<in> set (activeRuns s))"
  by (force simp: isAgentRunning_def)

lemma snd_delete_subset: "snd ` set (AList.delete k al) \<subseteq> snd ` set al"
  by (auto simp: AList.delete_eq)

lemma findIndex_None: "findIndex P xs = None \<longleftrightarrow> (\<forall>x \<in> set xs. \<not> P x)"
  by (induction xs) auto

lemma findIndex_Some:
  "findIndex P xs = Some i \<Longrightarrow> i < length xs \<and> P (xs ! i) \<and> (\<forall>j < i. \<not> P (xs ! j))"
proof (induction xs arbitrary: i)
  case Nil
  then show ?case by simp
next
  case (Cons x xs)
  show ?case
  proof (cases "P x")
    case True
    with Cons.prems show ?thesis by simp
  next
    case False
    with Cons.prems obtain k where k: "findIndex P xs = Some k" "i = Suc k"
      by auto
    from Cons.IH [OF k(1)] False k(2) show ?thesis
      by (auto simp: nth_Cons split: nat.splits)
  qed
qed

lemma processQueue_inv0:
  "queueInvariant0 s \<Longrightarrow> queueInvariant0 (processQueue s)"
proof (induction s rule: processQueue.induct)
  case (1 s)
  show ?case
  proof (cases "length (activeRuns s) < MAX_CONCURRENT \<and> queue s \<noteq> []")
    case False
    then show ?thesis using "1.prems" by (subst processQueue.simps) auto
  next
    case True
    define nxt where "nxt = hd (queue s)"
    define s4 where "s4 = callExecute (execute nxt)
        (settle (promise nxt) Resolved (startRun (agentType nxt) (s\<lparr>queue := tl (queue s)\<rparr>)))"
    from True obtain rest where q: "queue s = nxt # rest"
      by (cases "queue s") (auto simp: nxt_def)
    have "queueInvariant0 s4"
      using "1.prems" True q length_update_le [of "Suc (runIdCounter s)" "agentType nxt" "activeRuns s"]
      unfolding queueInvariant0_def s4_def
      by (auto simp: callExecute_def settle_def startRun_def Let_def isAgentRunning_iff
          MAX_CONCURRENT_def nth_list_update image_iff dest!: in_update_snd)
    then have "queueInvariant0 (processQueue s4)"
      using "1.IH" [OF True, of nxt "s\<lparr>queue := tl (queue s)\<rparr>"] 
      unfolding s4_def nxt_def by simp
    then show ?thesis
      using True by (simp add: processQueue.simps [of s] Let_def s4_def nxt_def)
  qed
qed

lemma processQueue_full:
  "length (activeRuns s) \<le> MAX_CONCURRENT \<Longrightarrow>
   queue (processQueue s) \<noteq> [] \<Longrightarrow> length (activeRuns (processQueue s)) = MAX_CONCURRENT"
proof (induction s rule: processQueue.induct)
  case (1 s)
  show ?case
  proof (cases "length (activeRuns s) < MAX_CONCURRENT \<and> queue s \<noteq> []")
    case False
    then show ?thesis using "1.prems" by (subst (asm) processQueue.simps, subst processQueue.simps) auto
  next
    case True
    define nxt where "nxt = hd (queue s)"
    define s4 where "s4 = callExecute (execute nxt)
        (settle (promise nxt) Resolved (startRun (agentType nxt) (s\<lparr>queue := tl (queue s)\<rparr>)))"
    have eq: "processQueue s = processQueue s4"
      using True by (simp add: processQueue.simps [of s] Let_def s4_def nxt_def)
    have "length (activeRuns s4) \<le> MAX_CONCURRENT"
      using True length_update_le [of "Suc (runIdCounter s)" "agentType nxt" "activeRuns s"]
      unfolding s4_def
      by (auto simp: callExecute_def settle_def startRun_def Let_def)
    then show ?thesis
      using "1.IH" [OF True, of nxt "s\<lparr>queue := tl (queue s)\<rparr>"] "1.prems"(2)
      unfolding eq unfolding s4_def nxt_def by simp
  qed
qed

lemma remove_nth_props:
  assumes "i < length xs" and "distinct (map f xs)"
  shows "distinct (map f (take i xs @ drop (Suc i) xs))"
    and "f (xs ! i) \<notin> f ` set (take i xs @ drop (Suc i) xs)"
    and "set (take i xs @ drop (Suc i) xs) \<subseteq> set xs"
proof -
  have split: "xs = take i xs @ xs ! i # drop (Suc i) xs"
    using assms(1) by (rule id_take_nth_drop)
  have "distinct (map f (take i xs @ xs ! i # drop (Suc i) xs))"
    using assms(2) split by simp
  then show "distinct (map f (take i xs @ drop (Suc i) xs))"
    and "f (xs ! i) \<notin> f ` set (take i xs @ drop (Suc i) xs)"
    by auto
  show "set (take i xs @ drop (Suc i) xs) \<subseteq> set xs"
    using set_take_subset [of i xs] set_drop_subset [of "Suc i" xs] by auto
qed

lemma runFinished_inv:
  assumes "queueInvariant0 s"
  shows "queueInvariant (runFinished runId s)"
proof -
  let ?s = "s\<lparr>activeRuns := AList.delete runId (activeRuns s)\<rparr>"
  have "queueInvariant0 ?s"
    using assms order_trans [OF length_filter_le [of "\<lambda>(k', _). runId \<noteq> k'" "activeRuns s"]]
    unfolding queueInvariant0_def
    by (auto simp: isAgentRunning_iff AList.delete_eq)
  then have inv: "queueInvariant0 (processQueue ?s)"
    by (rule processQueue_inv0)
  have "length (activeRuns ?s) \<le> MAX_CONCURRENT"
    using \<open>queueInvariant0 ?s\<close> by (simp add: queueInvariant0_def)
  then have "queue (processQueue ?s) \<noteq> [] \<longrightarrow>
      length (activeRuns (processQueue ?s)) = MAX_CONCURRENT"
    using processQueue_full [of ?s] by blast
  with inv show ?thesis
    by (simp add: queueInvariant_def runFinished_def)
qed

text \<open>What \<open>enqueueAgentRun\<close> does when the agent type is queued and not running.\<close>

lemma enqueue_requeue:
  assumes inv: "queueInvariant s"
    and old: "old \<in> set (queue s)" "agentType old = t"
  shows "\<exists>i. findIndex (\<lambda>q. agentType q = t) (queue s) = Some i \<and> queue s ! i = old \<and> i < length (queue s)
    \<and> snd (enqueueAgentRun t e s) =
        s\<lparr>queue := take i (queue s) @ drop (Suc i) (queue s) @ [\<lparr>agentType = t, execute = e, promise = length (promises s)\<rparr>],
          promises := (promises s)[promise old := Rejected ''Replaced by new run''] @ [Pending]\<rparr>"
proof -
  from inv old have notrun: "\<not> isAgentRunning t s"
    by (auto simp: queueInvariant_def queueInvariant0_def)
  from old have "findIndex (\<lambda>q. agentType q = t) (queue s) \<noteq> None"
    by (auto simp: findIndex_None)
  then obtain i where i: "findIndex (\<lambda>q. agentType q = t) (queue s) = Some i"
    by auto
  from findIndex_Some [OF i] have il: "i < length (queue s)" and it: "agentType (queue s ! i) = t"
    by auto
  from inv have dist: "distinct (map agentType (queue s))"
    by (simp add: queueInvariant_def queueInvariant0_def)
  have "queue s ! i = old"
  proof -
    from old(1) obtain j where j: "j < length (queue s)" "queue s ! j = old"
      by (auto simp: in_set_conv_nth)
    with il it old(2) dist have "i = j"
      by (metis distinct_conv_nth length_map nth_map)
    with j show ?thesis by simp
  qed
  from inv old have pend: "promise old < length (promises s)" "promises s ! promise old = Pending"
    by (auto simp: queueInvariant_def queueInvariant0_def)
  from inv old have full: "length (activeRuns s) = MAX_CONCURRENT"
    by (auto simp: queueInvariant_def)
  have "snd (enqueueAgentRun t e s) =
        s\<lparr>queue := take i (queue s) @ drop (Suc i) (queue s) @ [\<lparr>agentType = t, execute = e, promise = length (promises s)\<rparr>],
          promises := (promises s)[promise old := Rejected ''Replaced by new run''] @ [Pending]\<rparr>"
    using notrun i \<open>queue s ! i = old\<close> pend full
    by (simp add: enqueueAgentRun_def Let_def settle_def)
  with i il \<open>queue s ! i = old\<close> show ?thesis by blast
qed

lemma enqueue_inv:
  assumes inv: "queueInvariant s"
  shows "queueInvariant (snd (enqueueAgentRun t e s))"
proof (cases "isAgentRunning t s")
  case True
  then show ?thesis
    using inv
    by (auto simp: enqueueAgentRun_def Let_def queueInvariant_def queueInvariant0_def
        isAgentRunning_iff nth_append)
next
  case notrun: False
  show ?thesis
  proof (cases "findIndex (\<lambda>q. agentType q = t) (queue s)")
    case None
    then have fresh: "\<forall>q \<in> set (queue s). agentType q \<noteq> t"
      by (simp add: findIndex_None)
    show ?thesis
    proof (cases "length (activeRuns s) < MAX_CONCURRENT")
      case True
      with inv have "queue s = []"
        by (auto simp: queueInvariant_def)
      with True inv length_update_le [of "Suc (runIdCounter s)" t "activeRuns s"] notrun None
      show ?thesis
        by (auto simp: enqueueAgentRun_def Let_def queueInvariant_def queueInvariant0_def
            startRun_def callExecute_def)
    next
      case False
      with inv notrun None fresh show ?thesis
        by (auto simp: enqueueAgentRun_def Let_def queueInvariant_def queueInvariant0_def
            isAgentRunning_iff nth_append image_iff)
    qed
  next
    case (Some i)
    from findIndex_Some [OF Some] have il: "i < length (queue s)"
      and it: "agentType (queue s ! i) = t" by auto
    define old where "old = queue s ! i"
    have old: "old \<in> set (queue s)" "agentType old = t"
      using il it by (auto simp: old_def)
    define new where "new = \<lparr>agentType = t, execute = e, promise = length (promises s)\<rparr>"
    from enqueue_requeue [OF inv old, of e] Some
    have eq: "snd (enqueueAgentRun t e s) =
        s\<lparr>queue := take i (queue s) @ drop (Suc i) (queue s) @ [new],
          promises := (promises s)[promise old := Rejected ''Replaced by new run''] @ [Pending]\<rparr>"
      by (auto simp: new_def)
    define rest where "rest = take i (queue s) @ drop (Suc i) (queue s)"
    from inv have dt: "distinct (map agentType (queue s))" and dp: "distinct (map promise (queue s))"
      by (auto simp: queueInvariant_def queueInvariant0_def)
    note rt = remove_nth_props [OF il dt, folded rest_def]
      and rp = remove_nth_props [OF il dp, folded rest_def]
    from inv old have full: "length (activeRuns s) = MAX_CONCURRENT"
      by (auto simp: queueInvariant_def)
    have q0: "\<forall>q \<in> set rest. agentType q \<noteq> t \<and> promise q \<noteq> promise old
        \<and> \<not> isAgentRunning (agentType q) s
        \<and> promise q < length (promises s) \<and> promises s ! promise q = Pending"
    proof
      fix q
      assume q: "q \<in> set rest"
      with rt(3) have qs: "q \<in> set (queue s)" by blast
      from q rt(2) it have "agentType q \<noteq> t" by (metis imageI)
      moreover from q rp(2) have "promise q \<noteq> promise old"
        unfolding old_def by (metis imageI)
      moreover from qs inv have "\<not> isAgentRunning (agentType q) s
          \<and> promise q < length (promises s) \<and> promises s ! promise q = Pending"
        by (auto simp: queueInvariant_def queueInvariant0_def)
      ultimately show "agentType q \<noteq> t \<and> promise q \<noteq> promise old
        \<and> \<not> isAgentRunning (agentType q) s
        \<and> promise q < length (promises s) \<and> promises s ! promise q = Pending"
        by simp
    qed
    have eq': "snd (enqueueAgentRun t e s) =
        s\<lparr>queue := rest @ [new],
          promises := (promises s)[promise old := Rejected ''Replaced by new run''] @ [Pending]\<rparr>"
      using eq by (simp add: rest_def)
    have "queueInvariant0 (snd (enqueueAgentRun t e s))"
      unfolding eq' queueInvariant0_def
      using q0 rt(1) rp(1) full notrun
      by (auto simp: new_def isAgentRunning_def nth_append nth_list_update image_iff)
    then show ?thesis
      unfolding queueInvariant_def using full by (simp add: eq')
  qed
qed

lemma queueInvariant_initial: "queueInvariant initialQueueState"
  by (simp add: queueInvariant_def queueInvariant0_def initialQueueState_def)

lemma queueStep_inv: "queueInvariant s \<Longrightarrow> queueInvariant (queueStep s ev)"
proof (cases ev)
  case (Enqueue t e)
  assume "queueInvariant s"
  then show ?thesis unfolding Enqueue by (simp add: enqueue_inv)
next
  case (Finished runId)
  assume "queueInvariant s"
  then have "queueInvariant0 s" by (simp add: queueInvariant_def)
  then show ?thesis unfolding Finished by (simp add: runFinished_inv)
qed

lemma foldl_queueStep_inv: "queueInvariant s \<Longrightarrow> queueInvariant (foldl queueStep s evs)"
  by (induction evs arbitrary: s) (auto simp: queueStep_inv)

lemma runEvents_inv: "queueInvariant (runEvents evs)"
  unfolding runEvents_def by (rule foldl_queueStep_inv [OF queueInvariant_initial])

lemma filter_remove_nth:
  assumes "i < length xs" and "\<not> P (xs ! i)"
  shows "filter P (take i xs @ drop (Suc i) xs) = filter P xs"
proof -
  have "filter P xs = filter P (take i xs @ xs ! i # drop (Suc i) xs)"
    using id_take_nth_drop [OF assms(1)] by simp
  with assms(2) show ?thesis by simp
qed

text \<open>
  Claim C3. After every sequence of \<open>enqueueAgentRun\<close> calls and run completions, at
  most \<open>MAX_CONCURRENT\<close> = 2 runs are active. If in that state an agent type has a
  queued entry, a further \<open>enqueueAgentRun\<close> for the type returns a queue position and a
  pending promise, removes the prior entry from the queue and rejects its promise with
  ``Replaced by new run'', and leaves the new entry as the only queued entry of that type;
  the queued entries of other types and the active runs are unchanged.
\<close>

theorem queue_cap_and_requeue:
  "length (activeRuns (runEvents evs)) \<le> MAX_CONCURRENT \<and>
   (\<forall>old \<in> set (queue (runEvents evs)). agentType old = t \<longrightarrow>
      (let s = runEvents evs;
           new = \<lparr>agentType = t, execute = e, promise = length (promises s)\<rparr>;
           s' = snd (enqueueAgentRun t e s)
       in fst (enqueueAgentRun t e s) = (int (length (queue s')), promise new) \<and>
          old \<notin> set (queue s') \<and>
          promises s' ! promise old = Rejected ''Replaced by new run'' \<and>
          filter (\<lambda>q. agentType q = t) (queue s') = [new] \<and>
          promises s' ! promise new = Pending \<and>
          filter (\<lambda>q. agentType q \<noteq> t) (queue s') = filter (\<lambda>q. agentType q \<noteq> t) (queue s) \<and>
          length (activeRuns s') \<le> MAX_CONCURRENT))"
proof (intro conjI ballI impI)
  show "length (activeRuns (runEvents evs)) \<le> MAX_CONCURRENT"
    using runEvents_inv [of evs] by (simp add: queueInvariant_def queueInvariant0_def)
next
  fix old
  assume old: "old \<in> set (queue (runEvents evs))" "agentType old = t"
  define s where "s = runEvents evs"
  define new where "new = \<lparr>agentType = t, execute = e, promise = length (promises s)\<rparr>"
  define s' where "s' = snd (enqueueAgentRun t e s)"
  have inv: "queueInvariant s"
    unfolding s_def by (rule runEvents_inv)
  from enqueue_requeue [OF inv old [folded s_def], of e]
  obtain i where i: "findIndex (\<lambda>q. agentType q = t) (queue s) = Some i"
    "queue s ! i = old" "i < length (queue s)"
    and eq: "s' = s\<lparr>queue := take i (queue s) @ drop (Suc i) (queue s) @ [new],
          promises := (promises s)[promise old := Rejected ''Replaced by new run''] @ [Pending]\<rparr>"
    unfolding s'_def new_def by blast
  define rest where "rest = take i (queue s) @ drop (Suc i) (queue s)"
  from inv have dt: "distinct (map agentType (queue s))"
    by (simp add: queueInvariant_def queueInvariant0_def)
  note rt = remove_nth_props [OF i(3) dt, folded rest_def]
  from rt(2) i(2) old(2) have not: "\<forall>q \<in> set rest. agentType q \<noteq> t"
    by (metis imageI)
  from inv old have pend: "promise old < length (promises s)"
    and full: "length (activeRuns s) = MAX_CONCURRENT"
    and notrun: "\<not> isAgentRunning t s"
    by (auto simp: queueInvariant_def queueInvariant0_def s_def)
  have q': "queue s' = rest @ [new]" and p': "promises s' =
      (promises s)[promise old := Rejected ''Replaced by new run''] @ [Pending]"
    and a': "activeRuns s' = activeRuns s"
    by (simp_all add: eq rest_def)
  have pos: "fst (enqueueAgentRun t e s) = (int (length (queue s')), promise new)"
    using notrun i(1,2) pend full inv old
    by (auto simp: enqueueAgentRun_def Let_def settle_def new_def eq queueInvariant_def
        queueInvariant0_def s_def)
  have "promise old \<noteq> promise new"
    using pend by (simp add: new_def)
  then have "old \<noteq> new" by auto
  then have gone: "old \<notin> set (queue s')"
    using not old(2) by (auto simp: q')
  have rej: "promises s' ! promise old = Rejected ''Replaced by new run''"
    using pend by (simp add: p' nth_append)
  have only: "filter (\<lambda>q. agentType q = t) (queue s') = [new]"
    using not by (simp add: q' new_def)
  have pnew: "promises s' ! promise new = Pending"
    by (simp add: p' new_def nth_append)
  have others: "filter (\<lambda>q. agentType q \<noteq> t) (queue s') = filter (\<lambda>q. agentType q \<noteq> t) (queue s)"
    using filter_remove_nth [OF i(3), of "\<lambda>q. agentType q \<noteq> t"] i(2) old(2)
    by (simp add: q' rest_def new_def)
  have cap: "length (activeRuns s') \<le> MAX_CONCURRENT"
    using full by (simp add: a')
  from pos gone rej only pnew others cap
  show "let s = runEvents evs;
           new = \<lparr>agentType = t, execute = e, promise = length (promises s)\<rparr>;
           s' = snd (enqueueAgentRun t e s)
       in fst (enqueueAgentRun t e s) = (int (length (queue s')), promise new) \<and>
          old \<notin> set (queue s') \<and>
          promises s' ! promise old = Rejected ''Replaced by new run'' \<and>
          filter (\<lambda>q. agentType q = t) (queue s') = [new] \<and>
          promises s' ! promise new = Pending \<and>
          filter (\<lambda>q. agentType q \<noteq> t) (queue s') = filter (\<lambda>q. agentType q \<noteq> t) (queue s) \<and>
          length (activeRuns s') \<le> MAX_CONCURRENT"
    unfolding Let_def s_def [symmetric] new_def [symmetric] s'_def [symmetric] by simp
qed

lemma sampleEvents_state:
  "runEvents sampleEvents =
     \<lparr>activeRuns = [(2, retail), (3, tickets)],
      queue = [\<lparr>agentType = books, execute = 4, promise = 3\<rparr>],
      runIdCounter = 3,
      promises = [Resolved, Resolved, Resolved, Pending],
      launched = [(1, 1), (2, 2), (3, 3)]\<rparr>"
  by (simp add: sampleEvents_def runEvents_def enqueueAgentRun_def initialQueueState_def
      isAgentRunning_def MAX_CONCURRENT_def startRun_def callExecute_def settle_def Let_def
      runFinished_def processQueue.simps AList.delete_eq)

theorem queue_cap_and_requeue_witness:
  "length (activeRuns (runEvents sampleEvents)) \<le> MAX_CONCURRENT
   \<and> \<lparr>agentType = books, execute = 4, promise = 3\<rparr> \<in> set (queue (runEvents sampleEvents))
   \<and> queue (snd (enqueueAgentRun books 5 (runEvents sampleEvents)))
       = [\<lparr>agentType = books, execute = 5, promise = 4\<rparr>]
   \<and> promises (snd (enqueueAgentRun books 5 (runEvents sampleEvents))) ! 3
       = Rejected ''Replaced by new run''"
proof -
  have mem: "\<lparr>agentType = books, execute = 4, promise = 3\<rparr> \<in> set (queue (runEvents sampleEvents))"
    by (simp add: sampleEvents_state)
  have q: "queue (snd (enqueueAgentRun books 5 (runEvents sampleEvents)))
       = [\<lparr>agentType = books, execute = 5, promise = 4\<rparr>]"
    by (simp add: sampleEvents_state enqueueAgentRun_def isAgentRunning_def Let_def settle_def
        MAX_CONCURRENT_def)
  from queue_cap_and_requeue [of sampleEvents books 5] mem
  have "length (activeRuns (runEvents sampleEvents)) \<le> MAX_CONCURRENT"
    and "promises (snd (enqueueAgentRun books 5 (runEvents sampleEvents))) ! 3
       = Rejected ''Replaced by new run''"
    by (auto simp: Let_def)
  with mem q show ?thesis by simp
qed

subsection \<open>Price extraction\<close>

text \<open>
  The matchers of the three price patterns, written without backtracking, are the first
  results of the backtracking matcher on the patterns.
\<close>

lemma firstResult_simps [simp]: "firstResult [] = None" "firstResult (x # xs) = Some x"
  by (simp_all add: firstResult_def)

lemma firstResult_append: "firstResult (xs @ ys) = (case firstResult xs of None \<Rightarrow> firstResult ys | Some x \<Rightarrow> Some x)"
  by (cases xs) simp_all

lemma firstResult_map: "firstResult (map f xs) = map_option f (firstResult xs)"
  by (cases xs) simp_all

lemma rxMatch_Seq_end [simp]: "rxMatch ci (Seq r (Lit [])) = rxMatch ci r"
proof
  fix st
  have "\<And>xs :: (string list \<times> string) list. concat (map (rxMatch ci (Lit [])) xs) = xs"
    subgoal for xs by (induction xs) auto
    done
  then show "rxMatch ci (Seq r (Lit [])) st = rxMatch ci r st" by simp
qed

lemma lowerChar_point [simp]: "lowerChar c = CHR ''.'' \<longleftrightarrow> c = CHR ''.''"
  by (simp add: lowerChar_def)

lemma lowerChar_dollar [simp]: "lowerChar c = CHR ''$'' \<longleftrightarrow> c = CHR ''$''"
  by (simp add: lowerChar_def)

lemma lowerChar_self [simp]: "lowerChar CHR ''.'' = CHR ''.''" "lowerChar CHR ''$'' = CHR ''$''"
  by (simp_all add: lowerChar_def)

lemma rxMatch_Seq_Seq_end [simp]: "rxMatch ci (Seq a (Seq b (Lit []))) = rxMatch ci (Seq a b)"
  by (rule ext) simp

lemma fraction_match:
  "rxMatch ci (seqs [Lit ''.'', Class isDigit, Class isDigit]) (caps, r) =
     (case r of
        p # a # b # rest \<Rightarrow> if p = CHR ''.'' \<and> isDigit a \<and> isDigit b then [(caps, rest)] else []
      | _ \<Rightarrow> [])"
  by (auto simp: seqs_def split: list.splits)


lemma amount_first:
  "firstResult (rxMatch ci rxAmount (caps, s))
     = map_option (\<lambda>(g, rest). (caps @ [g], rest)) (matchAmount s)"
proof (cases "takeWhile isAmountChar s = []")
  case True
  then show ?thesis
    by (simp add: rxAmount_def seqs_def matchAmount_def)
next
  case False
  define n where "n = length (takeWhile isAmountChar s)"
  define F where "F = seqs [Lit ''.'', Class isDigit, Class isDigit]"
  define r where "r = dropWhile isAmountChar s"
  define g where "g = takeWhile isAmountChar s"
  from False have n: "0 < n" by (simp add: n_def)
  then have up: "rev [1 ..< Suc n] = n # rev [1 ..< n]"
    by (cases n) simp_all
  have dn: "drop n s = r"
    by (simp add: n_def r_def dropWhile_eq_drop)
  have tn: "take n s = g"
    by (simp add: n_def g_def takeWhile_eq_take [symmetric])
  have split_s: "s = g @ r"
    by (simp add: g_def r_def)
  have len: "length g = n"
    by (simp add: g_def n_def)
  have greedy: "rxMatch ci (Greedy 1 isAmountChar) (caps, s)
      = (caps, r) # map (\<lambda>k. (caps, drop k s)) (rev [1 ..< n])"
    using up dn by (simp add: n_def)
  obtain others where body: "rxMatch ci (Seq (Greedy 1 isAmountChar) (Opt F)) (caps, s)
      = rxMatch ci F (caps, r) @ (caps, r) # others"
    using greedy by (simp only: rxMatch.simps list.map concat.simps append_Cons append_Nil
        append_assoc)
  have whole: "rxMatch ci rxAmount (caps, s)
      = map (\<lambda>(caps', rest). (caps' @ [take (length s - length rest) s], rest))
          (rxMatch ci F (caps, r) @ (caps, r) # others)"
    using body by (simp only: rxAmount_def F_def [symmetric] rxMatch.simps(8))
  show ?thesis
  proof (cases "\<exists>a b rest. r = CHR ''.'' # a # b # rest \<and> isDigit a \<and> isDigit b")
    case True
    then obtain a b rest where r: "r = CHR ''.'' # a # b # rest"
      and d: "isDigit a" "isDigit b"
      by blast
    have cap: "take (length s - length rest) s = g @ [CHR ''.'', a, b]"
      by (simp add: split_s r)
    have "rxMatch ci F (caps, r) = [(caps, rest)]"
      using d by (simp add: F_def fraction_match r)
    then have "firstResult (rxMatch ci rxAmount (caps, s)) = Some (caps @ [g @ [CHR ''.'', a, b]], rest)"
      by (simp add: whole cap)
    moreover have "matchAmount s = Some (g @ [CHR ''.'', a, b], rest)"
      using False d r by (simp add: matchAmount_def Let_def g_def [symmetric] r_def [symmetric])
    ultimately show ?thesis by simp
  next
    case no: False
    have "rxMatch ci F (caps, r) = []"
      using no unfolding F_def fraction_match by (auto split: list.splits)
    moreover have "take (length s - length r) s = g"
      by (simp add: split_s)
    ultimately have "firstResult (rxMatch ci rxAmount (caps, s)) = Some (caps @ [g], r)"
      by (simp add: whole)
    moreover have "matchAmount s = Some (g, r)"
      using False no
      by (auto simp: matchAmount_def Let_def g_def [symmetric] r_def [symmetric]
          split: list.splits)
    ultimately show ?thesis by simp
  qed
qed


lemma firstResult_None_iff: "firstResult xs = None \<longleftrightarrow> xs = []"
  by (cases xs) simp_all

lemma separator_not_amount: "isSpace c \<or> c = CHR '':'' \<or> c = CHR ''$'' \<Longrightarrow> \<not> isAmountChar c"
  by (auto simp: isSpace_def isAmountChar_def isDigit_def)

lemma matchAmount_no_amount: "\<not> isAmountChar c \<Longrightarrow> matchAmount (c # cs) = None"
  by (simp add: matchAmount_def)

lemma rxAmount_no_amount: "\<not> isAmountChar c \<Longrightarrow> rxMatch ci rxAmount (caps, c # cs) = []"
  using amount_first [of ci caps "c # cs"] by (simp add: matchAmount_no_amount firstResult_None_iff)

lemma space_then_amount:
  "firstResult (rxMatch ci (Seq rxOptSpace rxAmount) (caps, r))
     = map_option (\<lambda>(g, rest). (caps @ [g], rest)) (matchAmount (skipOptionalSpace r))"
proof (cases r)
  case Nil
  then show ?thesis
    using amount_first [of ci caps "[]"] by (simp add: rxOptSpace_def skipOptionalSpace_def)
next
  case (Cons c cs)
  show ?thesis
  proof (cases "isSpace c")
    case True
    then have "rxMatch ci rxAmount (caps, c # cs) = []"
      by (simp add: rxAmount_no_amount separator_not_amount)
    with True Cons show ?thesis
      using amount_first [of ci caps cs] by (simp add: rxOptSpace_def skipOptionalSpace_def)
  next
    case False
    with Cons show ?thesis
      using amount_first [of ci caps "c # cs"] by (simp add: rxOptSpace_def skipOptionalSpace_def)
  qed
qed

lemma anchored_first:
  "anchored ci r s = map_option (\<lambda>(caps, rest). (caps ! 0, rest)) (firstResult (rxMatch ci r ([], s)))"
  by (simp add: anchored_def firstResult_def split: list.splits)

lemma capture_of_one: "map_option (\<lambda>(caps, rest). (caps ! 0, rest))
    (map_option (\<lambda>(g, rest). ([g], rest)) m) = m"
  by (cases m) auto

lemma matchLiteral_ci: "matchLiteral True l s = matchLiteralCI (map lowerChar l) s"
proof (induction l arbitrary: s)
  case Nil
  show ?case by simp
next
  case (Cons p ps)
  then show ?case by (cases s) simp_all
qed

theorem dollarPattern_anchored: "anchored False dollarPattern s = matchDollarAmount s"
proof (cases s)
  case Nil
  then show ?thesis
    by (simp add: anchored_first dollarPattern_def seqs_def matchDollarAmount_def)
next
  case (Cons c cs)
  show ?thesis
  proof (cases "c = CHR ''$''")
    case True
    with Cons show ?thesis
      using space_then_amount [of False "[]" cs]
      by (simp add: anchored_first dollarPattern_def seqs_def matchDollarAmount_def capture_of_one)
  next
    case False
    with Cons show ?thesis
      by (simp add: anchored_first dollarPattern_def seqs_def matchDollarAmount_def)
  qed
qed

theorem usdPattern_anchored: "anchored True usdPattern s = matchUsdAmount s"
proof (cases "matchLiteralCI ''usd'' s")
  case None
  then have "matchLiteral True ''USD'' s = None"
    by (simp add: matchLiteral_ci lowerChar_def)
  with None show ?thesis
    by (simp add: anchored_first usdPattern_def seqs_def matchUsdAmount_def del: matchLiteral.simps)
next
  case (Some r)
  then have "matchLiteral True ''USD'' s = Some r"
    by (simp add: matchLiteral_ci lowerChar_def)
  with Some show ?thesis
    using space_then_amount [of True "[]" r]
    by (simp add: anchored_first usdPattern_def seqs_def matchUsdAmount_def capture_of_one
        del: matchLiteral.simps)
qed

lemma dollar_then_amount:
  "firstResult (rxMatch ci (Seq (Opt (Lit ''$'')) rxAmount) (caps, r))
     = map_option (\<lambda>(g, rest). (caps @ [g], rest))
         (matchAmount (case r of [] \<Rightarrow> [] | c # cs \<Rightarrow> if c = CHR ''$'' then cs else r))"
proof (cases r)
  case Nil
  then show ?thesis
    using amount_first [of ci caps "[]"] by simp
next
  case (Cons c cs)
  show ?thesis
  proof (cases "c = CHR ''$''")
    case True
    then have "rxMatch ci rxAmount (caps, c # cs) = []"
      by (simp add: rxAmount_no_amount separator_not_amount)
    with True Cons show ?thesis
      using amount_first [of ci caps cs] by simp
  next
    case False
    with Cons show ?thesis
      using amount_first [of ci caps "c # cs"] by simp
  qed
qed

lemma separator_then_nothing:
  assumes "isLabelSeparator c"
  shows "rxMatch ci (Seq (Opt (Lit ''$'')) rxAmount) (caps, c # cs) = []"
proof -
  from assms have "c \<noteq> CHR ''$''" and "\<not> isAmountChar c"
    by (auto simp: isLabelSeparator_def isSpace_def isAmountChar_def isDigit_def)
  then show ?thesis
    by (simp add: rxAmount_no_amount)
qed

lemma label_tail:
  "firstResult (rxMatch ci (Seq (Greedy 1 isLabelSeparator) (Seq (Opt (Lit ''$'')) rxAmount)) (caps, r))
     = (if takeWhile isLabelSeparator r = [] then None
        else map_option (\<lambda>(g, rest). (caps @ [g], rest))
               (matchAmount (case dropWhile isLabelSeparator r of
                               [] \<Rightarrow> []
                             | c # cs \<Rightarrow> if c = CHR ''$'' then cs
                                        else dropWhile isLabelSeparator r)))"
proof (cases "takeWhile isLabelSeparator r = []")
  case True
  then show ?thesis by simp
next
  case False
  define n where "n = length (takeWhile isLabelSeparator r)"
  define G where "G = rxMatch ci (Seq (Opt (Lit ''$'')) rxAmount)"
  from False have n: "0 < n" by (simp add: n_def)
  then have up: "rev [1 ..< Suc n] = n # rev [1 ..< n]"
    by (cases n) simp_all
  have dn: "drop n r = dropWhile isLabelSeparator r"
    by (simp add: n_def dropWhile_eq_drop)
  have greedy: "rxMatch ci (Greedy 1 isLabelSeparator) (caps, r)
      = (caps, dropWhile isLabelSeparator r) # map (\<lambda>k. (caps, drop k r)) (rev [1 ..< n])"
    using up dn by (simp add: n_def)
  have shorter: "G (caps, drop k r) = []" if "k \<in> set (rev [1 ..< n])" for k
  proof -
    from that have k: "k < length (takeWhile isLabelSeparator r)"
      by (simp add: n_def)
    then have "k < length r"
      using length_takeWhile_le [of isLabelSeparator r] by linarith
    then have d: "drop k r = r ! k # drop (Suc k) r"
      by (simp add: Cons_nth_drop_Suc)
    from k have "takeWhile isLabelSeparator r ! k \<in> set (takeWhile isLabelSeparator r)"
      by (rule nth_mem)
    then have "isLabelSeparator (takeWhile isLabelSeparator r ! k)"
      by (rule set_takeWhileD [THEN conjunct2])
    with k have "isLabelSeparator (r ! k)"
      by (simp add: takeWhile_nth)
    then show ?thesis
      unfolding G_def d by (rule separator_then_nothing)
  qed
  then have "concat (map G (map (\<lambda>k. (caps, drop k r)) (rev [1 ..< n]))) = []"
    by (simp add: comp_def del: rev_rev_ident set_rev)
  with greedy have "rxMatch ci (Seq (Greedy 1 isLabelSeparator) (Seq (Opt (Lit ''$'')) rxAmount))
      (caps, r) = G (caps, dropWhile isLabelSeparator r)"
    by (simp only: rxMatch.simps(6) G_def [symmetric] list.map concat.simps append_Nil2)
  with False show ?thesis
    using dollar_then_amount [of ci caps "dropWhile isLabelSeparator r"]
    by (simp add: G_def)
qed

theorem priceLabelPattern_anchored: "anchored True priceLabelPattern s = matchPriceLabel s"
proof -
  have sep: "(\<lambda>c. c = CHR '':'' \<or> isSpace c) = isLabelSeparator"
    by (rule ext) (simp add: isLabelSeparator_def)
  show ?thesis
  proof (cases "matchLiteralCI ''price'' s")
    case None
    then have "matchLiteral True ''price'' s = None"
      by (simp add: matchLiteral_ci lowerChar_def)
    with None show ?thesis
      by (simp add: anchored_first priceLabelPattern_def seqs_def matchPriceLabel_def
          del: matchLiteral.simps)
  next
    case (Some r)
    then have "matchLiteral True ''price'' s = Some r"
      by (simp add: matchLiteral_ci lowerChar_def)
    with Some show ?thesis
      using label_tail [of True "[]" r]
      by (simp add: anchored_first priceLabelPattern_def seqs_def matchPriceLabel_def sep Let_def
          capture_of_one del: matchLiteral.simps rxMatch.simps(3))
  qed
qed

theorem pricePatterns_regex:
  "pricePatterns
     = [anchored False dollarPattern, anchored True usdPattern, anchored True priceLabelPattern]"
proof -
  have "anchored False dollarPattern = matchDollarAmount"
    by (rule ext) (rule dollarPattern_anchored)
  moreover have "anchored True usdPattern = matchUsdAmount"
    by (rule ext) (rule usdPattern_anchored)
  moreover have "anchored True priceLabelPattern = matchPriceLabel"
    by (rule ext) (rule priceLabelPattern_anchored)
  ultimately show ?thesis
    by (simp add: pricePatterns_def)
qed

lemma amountChar_not_space: "isAmountChar c \<Longrightarrow> \<not> isSpace c"
  by (auto simp: isAmountChar_def isDigit_def isSpace_def)

lemma point_not_amountChar: "\<not> isAmountChar (CHR ''.'')"
  by (simp add: isAmountChar_def isDigit_def)

lemma matchAmount_whole:
  assumes "grp \<noteq> []" and "\<forall>c \<in> set grp. isAmountChar c"
  shows "matchAmount grp = Some (grp, [])"
proof -
  have tw: "takeWhile isAmountChar grp = grp" and dw: "dropWhile isAmountChar grp = []"
    using assms(2) by (simp_all add: takeWhile_eq_all_conv)
  show ?thesis
    unfolding matchAmount_def Let_def tw dw using assms(1) by simp
qed

lemma matchAmount_fraction:
  assumes "grp \<noteq> []" and "\<forall>c \<in> set grp. isAmountChar c" and "isDigit a" and "isDigit b"
  shows "matchAmount (grp @ [CHR ''.'', a, b]) = Some (grp @ [CHR ''.'', a, b], [])"
proof -
  have tw: "takeWhile isAmountChar (grp @ [CHR ''.'', a, b]) = grp"
    using assms(2) point_not_amountChar by (simp add: takeWhile_append2)
  have dw: "dropWhile isAmountChar (grp @ [CHR ''.'', a, b]) = [CHR ''.'', a, b]"
    using assms(2) point_not_amountChar by (simp add: dropWhile_append2)
  show ?thesis
    unfolding matchAmount_def Let_def tw dw using assms(1,3,4) by simp
qed

lemma execAll_dollar_single:
  assumes "grp \<noteq> []" and "\<forall>c \<in> set grp. isAmountChar c"
    and "matchAmount (grp @ tl_part) = Some (grp @ tl_part, [])"
  shows "execAll matchDollarAmount (CHR ''$'' # grp @ tl_part) = [grp @ tl_part]"
proof -
  obtain g gs where g: "grp = g # gs"
    using assms(1) by (cases grp) auto
  with assms(2) have "\<not> isSpace g"
    by (simp add: amountChar_not_space)
  then have "skipOptionalSpace (grp @ tl_part) = grp @ tl_part"
    by (simp add: skipOptionalSpace_def g)
  then have "matchDollarAmount (CHR ''$'' # grp @ tl_part) = Some (grp @ tl_part, [])"
    using assms(3) by (simp add: matchDollarAmount_def)
  then show ?thesis
    by (simp add: execAll.simps [of _ "CHR ''$'' # grp @ tl_part"] execAll.simps [of _ "[]"])
qed

lemma pushPrices_append: "pushPrices prices captures = prices @ pushPrices [] captures"
proof (induction captures arbitrary: prices)
  case Nil
  then show ?case by simp
next
  case (Cons c cs)
  show ?case
  proof (cases "priceOfCapture c")
    case None
    then show ?thesis using Cons.IH [of prices] by simp
  next
    case (Some p)
    then show ?thesis using Cons.IH [of "prices @ [p]"] Cons.IH [of "[p]"] by simp
  qed
qed

lemma pushPrices_first:
  "(case pushPrices [] captures of [] \<Rightarrow> None | p # _ \<Rightarrow> Some p) =
   (case find (\<lambda>c. priceOfCapture c \<noteq> None) captures of None \<Rightarrow> None | Some c \<Rightarrow> priceOfCapture c)"
proof (induction captures)
  case Nil
  then show ?case by simp
next
  case (Cons c cs)
  show ?case
  proof (cases "priceOfCapture c")
    case None
    then show ?thesis using Cons.IH by simp
  next
    case (Some p)
    then show ?thesis using pushPrices_append [of "[p]" cs] by simp
  qed
qed

lemma pushPrices_concat:
  "pushPrices [] (xs @ ys) = pushPrices [] xs @ pushPrices [] ys"
proof (induction xs)
  case Nil
  then show ?case by simp
next
  case (Cons c cs)
  then show ?case
    using pushPrices_append [of "[the (priceOfCapture c)]" "cs @ ys"]
      pushPrices_append [of "[the (priceOfCapture c)]" "cs"]
    by (cases "priceOfCapture c") auto
qed

lemma extractPrice_prices:
  "extractPrice text =
     (case pushPrices [] (concat (map (\<lambda>pattern. execAll pattern text) pricePatterns)) of
        [] \<Rightarrow> None | p # _ \<Rightarrow> Some p)"
proof -
  have "foldl (\<lambda>prices pattern. pushPrices prices (execAll pattern text)) [] pricePatterns
      = pushPrices [] (concat (map (\<lambda>pattern. execAll pattern text) pricePatterns))"
    using pushPrices_append [of "pushPrices [] (execAll matchDollarAmount text)" "execAll matchUsdAmount text"]
      pushPrices_append [of "pushPrices [] (execAll matchDollarAmount text)
            @ pushPrices [] (execAll matchUsdAmount text)" "execAll matchPriceLabel text"]
    by (simp add: pricePatterns_def pushPrices_concat)
  then show ?thesis
    by (simp add: extractPrice_def Let_def nth_Cons split: list.splits)
qed

lemma extractPrice_first_match:
  "extractPrice text =
     (case find (\<lambda>c. priceOfCapture c \<noteq> None)
             (concat (map (\<lambda>pattern. execAll pattern text) pricePatterns)) of
        None \<Rightarrow> None
      | Some c \<Rightarrow> priceOfCapture c)"
  unfolding extractPrice_prices by (rule pushPrices_first)


lemma digit_is_amountChar: "isDigit c \<Longrightarrow> isAmountChar c"
  by (simp add: isAmountChar_def)

lemma digitValue_le_9: "isDigit c \<Longrightarrow> digitValue c \<le> 9"
  by (auto simp: isDigit_def digitValue_def)

lemma digitsValue_two: "isDigit a \<Longrightarrow> isDigit b \<Longrightarrow> digitsValue [a, b] < 100"
  using digitValue_le_9 [of a] digitValue_le_9 [of b] by (simp add: digitsValue_def)

lemma point_not_digit: "\<not> isDigit (CHR ''.'')"
  by (simp add: isDigit_def)

lemma parseFloat_digits:
  assumes "ds \<noteq> []" and "\<forall>c \<in> set ds. isDigit c"
  shows "parseFloat ds = Some (of_nat (digitsValue ds))"
proof -
  have tw: "takeWhile isDigit ds = ds" and dw: "dropWhile isDigit ds = []"
    using assms(2) by (simp_all add: takeWhile_eq_all_conv)
  show ?thesis
    unfolding parseFloat_def Let_def tw dw using assms(1) by (simp add: digitsValue_def)
qed

lemma parseFloat_fraction:
  assumes "\<forall>c \<in> set ds. isDigit c" and "isDigit a" and "isDigit b"
  shows "parseFloat (ds @ [CHR ''.'', a, b])
           = Some (of_nat (digitsValue ds) + of_nat (digitsValue [a, b]) / 100)"
proof -
  have tw: "takeWhile isDigit (ds @ [CHR ''.'', a, b]) = ds"
    using assms(1) point_not_digit by (simp add: takeWhile_append2)
  have dw: "dropWhile isDigit (ds @ [CHR ''.'', a, b]) = [CHR ''.'', a, b]"
    using assms(1) point_not_digit by (simp add: dropWhile_append2)
  show ?thesis
    unfolding parseFloat_def Let_def tw dw using assms(2,3) by simp
qed

lemma Math_round_of_nat: "Math_round (of_nat n) = int n"
  unfolding Math_round_def by linarith

lemma priceOfCapture_whole:
  assumes "filter (\<lambda>c. c \<noteq> CHR '','') grp = ds" and "ds \<noteq> []" and "\<forall>c \<in> set ds. isDigit c"
    and "0 < digitsValue ds" and "digitsValue ds < 1000000"
  shows "priceOfCapture grp = Some (int (100 * digitsValue ds))"
proof -
  have "Math_round (of_nat (digitsValue ds) * 100) = int (100 * digitsValue ds)"
    using Math_round_of_nat [of "100 * digitsValue ds"] by (simp add: mult.commute)
  then show ?thesis
    using assms(4,5) unfolding priceOfCapture_def assms(1) parseFloat_digits [OF assms(2,3)]
    by simp
qed

lemma priceOfCapture_fraction:
  assumes "filter (\<lambda>c. c \<noteq> CHR '','') grp = ds" and "\<forall>c \<in> set ds. isDigit c"
    and "isDigit a" and "isDigit b"
    and "0 < 100 * digitsValue ds + digitsValue [a, b]" and "digitsValue ds < 1000000"
  shows "priceOfCapture (grp @ [CHR ''.'', a, b])
           = Some (int (100 * digitsValue ds + digitsValue [a, b]))"
proof -
  define n where "n = digitsValue ds"
  define f where "f = digitsValue [a, b]"
  have f: "f < 100"
    unfolding f_def using assms(3,4) by (rule digitsValue_two)
  have flt: "filter (\<lambda>c. c \<noteq> CHR '','') (grp @ [CHR ''.'', a, b]) = ds @ [CHR ''.'', a, b]"
    using assms(1,3,4) by (auto simp: isDigit_def)
  have num: "(of_nat n + of_nat f / 100 :: rat) * 100 = of_nat (100 * n + f)"
    by (simp add: algebra_simps)
  have pos: "(0 :: rat) < of_nat n + of_nat f / 100"
    using assms(5) unfolding n_def [symmetric] f_def [symmetric]
    by (cases "n = 0") (auto simp: add_pos_nonneg)
  have "n + 1 \<le> 1000000"
    using assms(6) by (simp add: n_def)
  then have "(of_nat (n + 1) :: rat) \<le> 1000000"
    by (metis of_nat_le_iff of_nat_numeral)
  moreover have "(of_nat f / 100 :: rat) < 1"
    using f by simp
  ultimately have lt: "(of_nat n + of_nat f / 100 :: rat) < 1000000"
    by simp
  show ?thesis
    unfolding priceOfCapture_def flt parseFloat_fraction [OF assms(2,3,4)]
    using pos lt Math_round_of_nat [of "100 * n + f"]
    unfolding n_def [symmetric] f_def [symmetric] num by (simp add: mult.commute)
qed

lemma comma_not_digit: "\<not> isDigit (CHR '','')"
  by (simp add: isDigit_def)

lemma find_first_None_iff:
  "((case find (\<lambda>c. f c \<noteq> None) xs of None \<Rightarrow> None | Some c \<Rightarrow> f c) = None)
     \<longleftrightarrow> (\<forall>c \<in> set xs. f c = None)"
  by (induction xs) auto

lemma extractPrice_dollar_amount:
  assumes "grp \<noteq> []" and "\<forall>c \<in> set grp. isAmountChar c"
    and "matchAmount (grp @ tl_part) = Some (grp @ tl_part, [])"
    and "priceOfCapture (grp @ tl_part) = Some p"
  shows "extractPrice (CHR ''$'' # grp @ tl_part) = Some p"
  unfolding extractPrice_first_match
  using assms(4) by (simp add: pricePatterns_def execAll_dollar_single [OF assms(1,2,3)])

lemma execAll_Nil [simp]: "execAll pattern [] = []"
  by (simp add: execAll.simps)

lemma execAll_skip:
  assumes "\<forall>c \<in> set pre. \<forall>cs. pattern (c # cs) = None"
  shows "execAll pattern (pre @ s) = execAll pattern s"
  using assms
proof (induction pre)
  case Nil
  then show ?case by simp
next
  case (Cons c cs)
  then have "pattern (c # cs @ s) = None" by simp
  with Cons show ?case
    by (simp add: execAll.simps [of pattern "c # cs @ s"])
qed

lemma dollar_needs_dollar: "c \<noteq> CHR ''$'' \<Longrightarrow> matchDollarAmount (c # cs) = None"
  by (simp add: matchDollarAmount_def)

lemma usd_needs_u: "lowerChar c \<noteq> CHR ''u'' \<Longrightarrow> matchUsdAmount (c # cs) = None"
  by (simp add: matchUsdAmount_def)

lemma label_needs_p: "lowerChar c \<noteq> CHR ''p'' \<Longrightarrow> matchPriceLabel (c # cs) = None"
  by (simp add: matchPriceLabel_def)

lemma execAll_no_dollar:
  assumes "CHR ''$'' \<notin> set s"
  shows "execAll matchDollarAmount s = []"
proof -
  have "\<forall>c \<in> set s. \<forall>cs. matchDollarAmount (c # cs) = None"
    using assms by (metis dollar_needs_dollar)
  from execAll_skip [OF this, of "[]"] show ?thesis by simp
qed

lemma execAll_no_usd:
  assumes "\<forall>c \<in> set s. lowerChar c \<noteq> CHR ''u''"
  shows "execAll matchUsdAmount s = []"
proof -
  have "\<forall>c \<in> set s. \<forall>cs. matchUsdAmount (c # cs) = None"
    using assms by (simp add: usd_needs_u)
  from execAll_skip [OF this, of "[]"] show ?thesis by simp
qed

lemma execAll_no_label:
  assumes "\<forall>c \<in> set s. lowerChar c \<noteq> CHR ''p''"
  shows "execAll matchPriceLabel s = []"
proof -
  have "\<forall>c \<in> set s. \<forall>cs. matchPriceLabel (c # cs) = None"
    using assms by (simp add: label_needs_p)
  from execAll_skip [OF this, of "[]"] show ?thesis by simp
qed

lemma matchLiteralCI_word: "map lowerChar w = l \<Longrightarrow> matchLiteralCI l (w @ r) = Some r"
proof (induction w arbitrary: l)
  case Nil
  then show ?case by simp
next
  case (Cons c cs)
  then show ?case by (cases l) auto
qed

lemma digits_table:
  "\<forall>c \<in> set ''0123456789''. lowerChar c = c \<and> c \<noteq> CHR ''$'' \<and> c \<noteq> CHR ''u''
      \<and> c \<noteq> CHR ''p'' \<and> \<not> isSpace c \<and> c \<noteq> CHR '':'' \<and> c \<noteq> CHR '','' \<and> c \<noteq> CHR ''.''"
  by (simp add: lowerChar_def isSpace_def)

lemma spaces_table:
  "\<forall>c \<in> set [CHR 0x09, CHR 0x0A, CHR 0x0B, CHR 0x0C, CHR 0x0D, CHR 0x20, CHR 0xA0].
      lowerChar c = c \<and> c \<noteq> CHR ''$'' \<and> c \<noteq> CHR ''u'' \<and> c \<noteq> CHR ''p''
      \<and> \<not> isAmountChar c \<and> c \<noteq> CHR ''.''"
  by (simp add: lowerChar_def isAmountChar_def isDigit_def)

lemma digit_facts:
  assumes "isDigit c"
  shows "lowerChar c = c" "c \<noteq> CHR ''$''" "lowerChar c \<noteq> CHR ''u''" "lowerChar c \<noteq> CHR ''p''"
    "\<not> isSpace c" "c \<noteq> CHR '':''" "c \<noteq> CHR '',''" "c \<noteq> CHR ''.''"
proof -
  from assms have "c \<in> set ''0123456789''"
    by (simp only: isDigit_def)
  with digits_table have t: "lowerChar c = c \<and> c \<noteq> CHR ''$'' \<and> c \<noteq> CHR ''u''
      \<and> c \<noteq> CHR ''p'' \<and> \<not> isSpace c \<and> c \<noteq> CHR '':'' \<and> c \<noteq> CHR '','' \<and> c \<noteq> CHR ''.''"
    by (rule bspec)
  then show "lowerChar c = c" "c \<noteq> CHR ''$''" "lowerChar c \<noteq> CHR ''u''" "lowerChar c \<noteq> CHR ''p''"
    "\<not> isSpace c" "c \<noteq> CHR '':''" "c \<noteq> CHR '',''" "c \<noteq> CHR ''.''"
    by simp_all
qed

lemma space_facts:
  assumes "isSpace c"
  shows "lowerChar c = c" "c \<noteq> CHR ''$''" "lowerChar c \<noteq> CHR ''u''" "lowerChar c \<noteq> CHR ''p''"
    "\<not> isAmountChar c" "c \<noteq> CHR ''.''"
proof -
  from assms have "c \<in> set [CHR 0x09, CHR 0x0A, CHR 0x0B, CHR 0x0C, CHR 0x0D, CHR 0x20, CHR 0xA0]"
    by (simp only: isSpace_def)
  with spaces_table have t: "lowerChar c = c \<and> c \<noteq> CHR ''$'' \<and> c \<noteq> CHR ''u'' \<and> c \<noteq> CHR ''p''
      \<and> \<not> isAmountChar c \<and> c \<noteq> CHR ''.''"
    by (rule bspec)
  then show "lowerChar c = c" "c \<noteq> CHR ''$''" "lowerChar c \<noteq> CHR ''u''" "lowerChar c \<noteq> CHR ''p''"
    "\<not> isAmountChar c" "c \<noteq> CHR ''.''"
    by simp_all
qed


lemma execAll_match_more:
  assumes "pattern s = Some (cap, rest)" and "length rest < length s"
  shows "execAll pattern s = cap # execAll pattern rest"
proof -
  from assms(2) obtain c cs where s: "s = c # cs"
    by (cases s) auto
  from assms show ?thesis
    unfolding s by (simp add: execAll.simps [of pattern "c # cs"])
qed

lemma execAll_match_end:
  assumes "pattern s = Some (cap, [])" and "s \<noteq> []"
  shows "execAll pattern s = [cap]"
  using execAll_match_more [of pattern s cap "[]"] assms by simp

lemma word_without:
  assumes "map lowerChar w = l" and "lowerChar x = x" and "x \<notin> set l"
  shows "x \<notin> set w"
proof
  assume "x \<in> set w"
  then have "lowerChar x \<in> set (map lowerChar w)" by simp
  with assms show False by simp
qed

lemma word_lower:
  assumes "map lowerChar w = l" and "x \<notin> set l"
  shows "\<forall>c \<in> set w. lowerChar c \<noteq> x"
proof
  fix c
  assume "c \<in> set w"
  then have "lowerChar c \<in> set (map lowerChar w)" by simp
  with assms show "lowerChar c \<noteq> x" by auto
qed

lemma symbol_table:
  "lowerChar (CHR ''$'') = CHR ''$''" "lowerChar (CHR '':'') = CHR '':''"
  "lowerChar (CHR ''.'') = CHR ''.''" "lowerChar (CHR '','') = CHR '',''"
  by (simp_all add: lowerChar_def)


lemma skipOptionalSpace_amount:
  assumes "length sp \<le> 1" and "\<forall>c \<in> set sp. isSpace c"
    and "cap = g # gs" and "isAmountChar g"
  shows "skipOptionalSpace (sp @ cap) = cap"
proof (cases sp)
  case Nil
  with assms(3,4) show ?thesis
    by (simp add: skipOptionalSpace_def amountChar_not_space)
next
  case (Cons x xs)
  with assms(1,2) show ?thesis
    by (simp add: skipOptionalSpace_def)
qed

lemma matchUsdAmount_word:
  assumes "map lowerChar w = ''usd''" and "length sp \<le> 1" and "\<forall>c \<in> set sp. isSpace c"
    and "cap = g # gs" and "isAmountChar g"
  shows "matchUsdAmount (w @ sp @ cap) = matchAmount cap"
  using matchLiteralCI_word [OF assms(1), of "sp @ cap"] skipOptionalSpace_amount [OF assms(2-5)]
  by (simp add: matchUsdAmount_def)

lemma matchPriceLabel_word:
  assumes "map lowerChar w = ''price''" and "sep \<noteq> []"
    and "\<forall>c \<in> set sep. c = CHR '':'' \<or> isSpace c"
    and "isDigit g"
  shows "matchPriceLabel (w @ sep @ g # gs) = matchAmount (g # gs)"
proof -
  have g: "\<not> (g = CHR '':'' \<or> isSpace g)" "g \<noteq> CHR ''$''"
    using digit_facts [OF assms(4)] by simp_all
  have tw: "takeWhile (\<lambda>c. c = CHR '':'' \<or> isSpace c) (sep @ g # gs) = sep"
    using assms(3) g(1) by (simp add: takeWhile_append2)
  have dw: "dropWhile (\<lambda>c. c = CHR '':'' \<or> isSpace c) (sep @ g # gs) = g # gs"
    using assms(3) g(1) by (simp add: dropWhile_append2)
  have lit: "matchLiteralCI ''price'' (w @ sep @ g # gs) = Some (sep @ g # gs)"
    by (rule matchLiteralCI_word [OF assms(1)])
  show ?thesis
    using assms(2) g(2) by (simp add: matchPriceLabel_def lit Let_def tw dw)
qed

lemma captures_of: 
  "concat (map (\<lambda>pattern. execAll pattern text) pricePatterns)
     = execAll matchDollarAmount text @ execAll matchUsdAmount text @ execAll matchPriceLabel text"
  by (simp add: pricePatterns_def)


lemma matchAmount_before:
  assumes "grp \<noteq> []" and "\<forall>c \<in> set grp. isAmountChar c"
    and "\<not> isAmountChar c" and "c \<noteq> CHR ''.''"
  shows "matchAmount (grp @ c # cs) = Some (grp, c # cs)"
proof -
  have tw: "takeWhile isAmountChar (grp @ c # cs) = grp"
    using assms(2,3) by (simp add: takeWhile_append2)
  have dw: "dropWhile isAmountChar (grp @ c # cs) = c # cs"
    using assms(2,3) by (simp add: dropWhile_append2)
  show ?thesis
    using assms(1,4) by (simp add: matchAmount_def Let_def tw dw split: list.splits)
qed

lemma priceOfCapture_excluded_whole:
  assumes "ds \<noteq> []" and "\<forall>c \<in> set ds. isDigit c"
    and "digitsValue ds = 0 \<or> 1000000 \<le> digitsValue ds"
  shows "priceOfCapture ds = None"
proof -
  have nocomma: "filter (\<lambda>c. c \<noteq> CHR '','') ds = ds"
    using assms(2) comma_not_digit by (auto simp: filter_id_conv)
  have "\<not> ((0 :: rat) < of_nat (digitsValue ds) \<and> (of_nat (digitsValue ds) :: rat) < 1000000)"
  proof (cases "digitsValue ds = 0")
    case True
    then show ?thesis by simp
  next
    case False
    with assms(3) have "1000000 \<le> digitsValue ds" by simp
    then have "(1000000 :: rat) \<le> of_nat (digitsValue ds)"
      by (metis of_nat_le_iff of_nat_numeral)
    then show ?thesis by simp
  qed
  then show ?thesis
    unfolding priceOfCapture_def nocomma parseFloat_digits [OF assms(1,2)] by simp
qed

lemma priceOfCapture_excluded_fraction:
  assumes "\<forall>c \<in> set ds. isDigit c" and "isDigit a" and "isDigit b"
    and "100 * digitsValue ds + digitsValue [a, b] = 0 \<or> 1000000 \<le> digitsValue ds"
  shows "priceOfCapture (ds @ [CHR ''.'', a, b]) = None"
proof -
  define n where "n = digitsValue ds"
  define f where "f = digitsValue [a, b]"
  have flt: "filter (\<lambda>c. c \<noteq> CHR '','') (ds @ [CHR ''.'', a, b]) = ds @ [CHR ''.'', a, b]"
    using assms(1,2,3) comma_not_digit by (auto simp: filter_id_conv)
  have "\<not> ((0 :: rat) < of_nat n + of_nat f / 100 \<and> (of_nat n + of_nat f / 100 :: rat) < 1000000)"
  proof (cases "100 * n + f = 0")
    case True
    then show ?thesis by simp
  next
    case False
    with assms(4) have "1000000 \<le> n" unfolding n_def f_def by blast
    then have "(1000000 :: rat) \<le> of_nat n"
      by (metis of_nat_le_iff of_nat_numeral)
    moreover have "(0 :: rat) \<le> of_nat f / 100" by simp
    ultimately show ?thesis by linarith
  qed
  then show ?thesis
    unfolding priceOfCapture_def flt parseFloat_fraction [OF assms(1,2,3)]
      n_def [symmetric] f_def [symmetric] by simp
qed

lemma plain_char_lower:
  assumes "isDigit c \<or> c = CHR ''$'' \<or> c = CHR '','' \<or> c = CHR ''.'' \<or> c = CHR '':'' \<or> isSpace c"
  shows "lowerChar c \<noteq> CHR ''u'' \<and> lowerChar c \<noteq> CHR ''p''"
proof -
  consider "isDigit c" | "isSpace c" | "c = CHR ''$''" | "c = CHR '',''" | "c = CHR ''.''"
    | "c = CHR '':''"
    using assms by blast
  then show ?thesis
  proof cases
    case 1
    from digit_facts(3,4) [OF this] show ?thesis by blast
  next
    case 2
    from space_facts(3,4) [OF this] show ?thesis by blast
  next
    case 3
    then show ?thesis by (simp add: symbol_table)
  next
    case 4
    then show ?thesis by (simp add: symbol_table)
  next
    case 5
    then show ?thesis by (simp add: symbol_table)
  next
    case 6
    then show ?thesis by (simp add: symbol_table)
  qed
qed

lemma execAll_plain:
  assumes "\<forall>c \<in> set text. isDigit c \<or> c = CHR ''$'' \<or> c = CHR '','' \<or> c = CHR ''.''
             \<or> c = CHR '':'' \<or> isSpace c"
  shows "execAll matchUsdAmount text = []" "execAll matchPriceLabel text = []"
proof -
  have l: "\<forall>c \<in> set text. lowerChar c \<noteq> CHR ''u'' \<and> lowerChar c \<noteq> CHR ''p''"
  proof
    fix c
    assume "c \<in> set text"
    with assms have "isDigit c \<or> c = CHR ''$'' \<or> c = CHR '','' \<or> c = CHR ''.''
             \<or> c = CHR '':'' \<or> isSpace c"
      by blast
    then show "lowerChar c \<noteq> CHR ''u'' \<and> lowerChar c \<noteq> CHR ''p''"
      by (rule plain_char_lower)
  qed
  from l have "\<forall>c \<in> set text. lowerChar c \<noteq> CHR ''u''" by blast
  then show "execAll matchUsdAmount text = []" by (rule execAll_no_usd)
  from l have "\<forall>c \<in> set text. lowerChar c \<noteq> CHR ''p''" by blast
  then show "execAll matchPriceLabel text = []" by (rule execAll_no_label)
qed

lemma extractPrice_of_captures:
  assumes "find (\<lambda>c. priceOfCapture c \<noteq> None)
             (execAll matchDollarAmount text @ execAll matchUsdAmount text
              @ execAll matchPriceLabel text) = found"
  shows "extractPrice text = (case found of None \<Rightarrow> None | Some c \<Rightarrow> priceOfCapture c)"
  using assms by (simp add: extractPrice_first_match captures_of)


lemma extractPrice_usd_text:
  assumes "map lowerChar w = ''usd''" and "length sp \<le> 1" and "\<forall>c \<in> set sp. isSpace c"
    and "cap = g # gs" and "isDigit g" and "\<forall>c \<in> set cap. isDigit c \<or> c = CHR ''.''"
    and "matchAmount cap = Some (cap, [])" and "priceOfCapture cap = Some p"
  shows "extractPrice (w @ sp @ cap) = Some p"
proof -
  have "CHR ''$'' \<notin> set w"
    using assms(1) by (rule word_without) (simp_all add: symbol_table)
  moreover have "CHR ''$'' \<notin> set sp"
    using assms(3) space_facts(2) by blast
  moreover have "CHR ''$'' \<notin> set cap"
    using assms(6) digit_facts(2) by blast
  ultimately have "CHR ''$'' \<notin> set (w @ sp @ cap)"
    by simp
  then have dollar: "execAll matchDollarAmount (w @ sp @ cap) = []"
    by (rule execAll_no_dollar)
  have "matchUsdAmount (w @ sp @ cap) = Some (cap, [])"
    using matchUsdAmount_word [OF assms(1,2,3,4) digit_is_amountChar [OF assms(5)]] assms(7)
    by simp
  then have usd: "execAll matchUsdAmount (w @ sp @ cap) = [cap]"
    by (rule execAll_match_end) (simp add: assms(4))
  have "find (\<lambda>c. priceOfCapture c \<noteq> None)
             (execAll matchDollarAmount (w @ sp @ cap) @ execAll matchUsdAmount (w @ sp @ cap)
              @ execAll matchPriceLabel (w @ sp @ cap)) = Some cap"
    by (simp add: dollar usd assms(8))
  from extractPrice_of_captures [OF this] show ?thesis
    by (simp add: assms(8))
qed

lemma extractPrice_label_text:
  assumes "map lowerChar w = ''price''" and "sep \<noteq> []"
    and "\<forall>c \<in> set sep. c = CHR '':'' \<or> isSpace c"
    and "isDigit g" and "\<forall>c \<in> set (g # gs). isDigit c \<or> c = CHR ''.''"
    and "matchAmount (g # gs) = Some (g # gs, [])" and "priceOfCapture (g # gs) = Some p"
  shows "extractPrice (w @ sep @ g # gs) = Some p"
proof -
  let ?text = "w @ sep @ g # gs"
  have "CHR ''$'' \<notin> set w"
    using assms(1) by (rule word_without) (simp_all add: symbol_table)
  moreover have "CHR ''$'' \<notin> set sep"
    using assms(3) space_facts(2) by auto
  moreover have "CHR ''$'' \<notin> set (g # gs)"
    using assms(5) digit_facts(2) by blast
  ultimately have "CHR ''$'' \<notin> set ?text"
    by simp
  then have dollar: "execAll matchDollarAmount ?text = []"
    by (rule execAll_no_dollar)
  have "\<forall>c \<in> set w. lowerChar c \<noteq> CHR ''u''"
    using assms(1) by (rule word_lower) simp
  moreover have "\<forall>c \<in> set sep. lowerChar c \<noteq> CHR ''u''"
    using assms(3) plain_char_lower by blast
  moreover have "\<forall>c \<in> set (g # gs). lowerChar c \<noteq> CHR ''u''"
    using assms(5) plain_char_lower by blast
  ultimately have "\<forall>c \<in> set ?text. lowerChar c \<noteq> CHR ''u''"
    by auto
  then have usd: "execAll matchUsdAmount ?text = []"
    by (rule execAll_no_usd)
  have "matchPriceLabel ?text = Some (g # gs, [])"
    using matchPriceLabel_word [OF assms(1,2,3,4)] assms(6) by simp
  then have label: "execAll matchPriceLabel ?text = [g # gs]"
    by (rule execAll_match_end) simp
  have "find (\<lambda>c. priceOfCapture c \<noteq> None)
             (execAll matchDollarAmount ?text @ execAll matchUsdAmount ?text
              @ execAll matchPriceLabel ?text) = Some (g # gs)"
    by (simp add: dollar usd label assms(7))
  from extractPrice_of_captures [OF this] show ?thesis
    by (simp add: assms(7))
qed

lemma extractPrice_excluded:
  assumes "grp \<noteq> []" and "\<forall>c \<in> set grp. isDigit c"
    and "\<forall>c \<in> set tl_part. isDigit c \<or> c = CHR ''.''"
    and "matchAmount (grp @ tl_part) = Some (grp @ tl_part, [])"
    and "priceOfCapture (grp @ tl_part) = None"
  shows "extractPrice (CHR ''$'' # grp @ tl_part) = None"
proof -
  let ?text = "CHR ''$'' # grp @ tl_part"
  have amt: "\<forall>c \<in> set grp. isAmountChar c"
    using assms(2) by (simp add: digit_is_amountChar)
  have dollar: "execAll matchDollarAmount ?text = [grp @ tl_part]"
    by (rule execAll_dollar_single [OF assms(1) amt assms(4)])
  have "\<forall>c \<in> set ?text. isDigit c \<or> c = CHR ''$'' \<or> c = CHR '','' \<or> c = CHR ''.''
             \<or> c = CHR '':'' \<or> isSpace c"
    using assms(2,3) by auto
  from execAll_plain [OF this]
  have "find (\<lambda>c. priceOfCapture c \<noteq> None)
             (execAll matchDollarAmount ?text @ execAll matchUsdAmount ?text
              @ execAll matchPriceLabel ?text) = None"
    by (simp add: dollar assms(5))
  from extractPrice_of_captures [OF this] show ?thesis
    by simp
qed

lemma extractPrice_skips_excluded:
  assumes "ds \<noteq> []" and "\<forall>c \<in> set ds. isDigit c"
    and "digitsValue ds = 0 \<or> 1000000 \<le> digitsValue ds"
    and "es \<noteq> []" and "\<forall>c \<in> set es. isDigit c"
    and "0 < digitsValue es" and "digitsValue es < 1000000"
  shows "extractPrice (CHR ''$'' # ds @ CHR '' '' # CHR ''$'' # es) = Some (int (100 * digitsValue es))"
proof -
  let ?text = "CHR ''$'' # ds @ CHR '' '' # CHR ''$'' # es"
  have amt: "\<forall>c \<in> set ds. isAmountChar c" "\<forall>c \<in> set es. isAmountChar c"
    using assms(2,5) by (simp_all add: digit_is_amountChar)
  have sp: "isSpace (CHR '' '')"
    by (simp add: isSpace_def)
  obtain d ds' where d: "ds = d # ds'"
    using assms(1) by (cases ds) auto
  with amt(1) have "\<not> isSpace d"
    by (simp add: amountChar_not_space)
  then have "skipOptionalSpace (ds @ CHR '' '' # CHR ''$'' # es) = ds @ CHR '' '' # CHR ''$'' # es"
    by (simp add: skipOptionalSpace_def d)
  then have "matchDollarAmount ?text = Some (ds, CHR '' '' # CHR ''$'' # es)"
    using matchAmount_before [OF assms(1) amt(1) space_facts(5) [OF sp] space_facts(6) [OF sp]]
    by (simp add: matchDollarAmount_def)
  then have "execAll matchDollarAmount ?text
      = ds # execAll matchDollarAmount (CHR '' '' # CHR ''$'' # es)"
    by (rule execAll_match_more) simp
  moreover have "execAll matchDollarAmount ([CHR '' ''] @ CHR ''$'' # es)
      = execAll matchDollarAmount (CHR ''$'' # es)"
    by (rule execAll_skip) (simp add: dollar_needs_dollar)
  moreover have "execAll matchDollarAmount (CHR ''$'' # es @ []) = [es @ []]"
    by (rule execAll_dollar_single [OF assms(4) amt(2)])
       (simp add: matchAmount_whole [OF assms(4) amt(2)])
  ultimately have dollar: "execAll matchDollarAmount ?text = [ds, es]"
    by simp
  have nocomma: "filter (\<lambda>c. c \<noteq> CHR '','') es = es"
    using assms(5) comma_not_digit by (auto simp: filter_id_conv)
  note none = priceOfCapture_excluded_whole [OF assms(1,2,3)]
  note some = priceOfCapture_whole [OF nocomma assms(4,5,6,7)]
  have "find (\<lambda>c. priceOfCapture c \<noteq> None)
             (execAll matchDollarAmount ?text @ execAll matchUsdAmount ?text
              @ execAll matchPriceLabel ?text) = Some es"
    by (simp add: dollar none some)
  from extractPrice_of_captures [OF this] show ?thesis
    by (simp add: some)
qed

lemma extractPrice_dollar_before_usd:
  assumes "map lowerChar w = ''usd''"
    and "ds \<noteq> []" and "\<forall>c \<in> set ds. isDigit c"
    and "es \<noteq> []" and "\<forall>c \<in> set es. isDigit c"
    and "0 < digitsValue es" and "digitsValue es < 1000000"
  shows "extractPrice (w @ CHR '' '' # ds @ CHR '' '' # CHR ''$'' # es)
           = Some (int (100 * digitsValue es))"
proof -
  let ?pre = "w @ CHR '' '' # ds @ [CHR '' '']"
  let ?text = "w @ CHR '' '' # ds @ CHR '' '' # CHR ''$'' # es"
  have amt: "\<forall>c \<in> set es. isAmountChar c"
    using assms(5) by (simp add: digit_is_amountChar)
  have "CHR ''$'' \<notin> set w"
    using assms(1) by (rule word_without) (simp_all add: symbol_table)
  moreover have "CHR ''$'' \<notin> set ds"
    using assms(3) digit_facts(2) by blast
  ultimately have "\<forall>c \<in> set ?pre. c \<noteq> CHR ''$''"
    by auto
  then have "\<forall>c \<in> set ?pre. \<forall>cs. matchDollarAmount (c # cs) = None"
    by (simp add: dollar_needs_dollar)
  from execAll_skip [OF this, of "CHR ''$'' # es"]
  have "execAll matchDollarAmount ?text = execAll matchDollarAmount (CHR ''$'' # es)"
    by simp
  moreover have "execAll matchDollarAmount (CHR ''$'' # es @ []) = [es @ []]"
    by (rule execAll_dollar_single [OF assms(4) amt])
       (simp add: matchAmount_whole [OF assms(4) amt])
  ultimately have dollar: "execAll matchDollarAmount ?text = [es]"
    by simp
  have nocomma: "filter (\<lambda>c. c \<noteq> CHR '','') es = es"
    using assms(5) comma_not_digit by (auto simp: filter_id_conv)
  note some = priceOfCapture_whole [OF nocomma assms(4,5,6,7)]
  have "find (\<lambda>c. priceOfCapture c \<noteq> None)
             (execAll matchDollarAmount ?text @ execAll matchUsdAmount ?text
              @ execAll matchPriceLabel ?text) = Some es"
    by (simp add: dollar some)
  from extractPrice_of_captures [OF this] show ?thesis
    by (simp add: some)
qed

text \<open>
  Claim C8. \<open>extractPrice\<close> returns the price in cents of the first match whose amount
  lies strictly between 0 and 1000000 dollars, the matches being taken pattern by pattern
  (dollar sign, then USD, then the price label) and, for one pattern, in the order of the
  text; it returns null exactly when no match has an amount in that range. On a text that
  is a money string \<open>$N\<close>, \<open>$N.NN\<close> or \<open>$N,NNN.NN\<close> with an amount in that range
  the result is the exact number of cents: 100 times the dollars plus the two decimals.
  The same holds of an amount \<open>N\<close> or \<open>N.NN\<close> after \<open>USD\<close> (in any case, with at most
  one white space between) and after \<open>price\<close> (in any case, followed by colons or white
  space). An amount of zero, or of 1000000 dollars and more, is excluded: alone it gives
  null, and before an amount in range it is passed over. A dollar-sign amount is
  returned before a USD amount that comes earlier in the text.
\<close>

theorem extractPrice_first_in_range_match:
  "extractPrice text =
     (case find (\<lambda>capture. priceOfCapture capture \<noteq> None)
             (concat (map (\<lambda>pattern. execAll pattern text) pricePatterns)) of
        None \<Rightarrow> None
      | Some capture \<Rightarrow> priceOfCapture capture)
   \<and> (extractPrice text = None \<longleftrightarrow>
        (\<forall>capture \<in> set (concat (map (\<lambda>pattern. execAll pattern text) pricePatterns)).
           priceOfCapture capture = None))
   \<and> (ds \<noteq> [] \<and> (\<forall>c \<in> set ds. isDigit c)
        \<and> 0 < digitsValue ds \<and> digitsValue ds < 1000000 \<longrightarrow>
        extractPrice (''$'' @ ds) = Some (int (100 * digitsValue ds)))
   \<and> (ds \<noteq> [] \<and> (\<forall>c \<in> set ds. isDigit c) \<and> isDigit a \<and> isDigit b
        \<and> 0 < 100 * digitsValue ds + digitsValue [a, b] \<and> digitsValue ds < 1000000 \<longrightarrow>
        extractPrice (''$'' @ ds @ ''.'' @ [a, b])
            = Some (int (100 * digitsValue ds + digitsValue [a, b])))
   \<and> (hs \<noteq> [] \<and> (\<forall>c \<in> set (hs @ [t1, t2, t3]). isDigit c) \<and> isDigit a \<and> isDigit b
        \<and> 0 < 100 * digitsValue (hs @ [t1, t2, t3]) + digitsValue [a, b]
        \<and> digitsValue (hs @ [t1, t2, t3]) < 1000000 \<longrightarrow>
        extractPrice (''$'' @ hs @ '','' @ [t1, t2, t3] @ ''.'' @ [a, b])
            = Some (int (100 * digitsValue (hs @ [t1, t2, t3]) + digitsValue [a, b])))
   \<and> (map lowerChar uw = ''usd'' \<and> length usp \<le> 1 \<and> (\<forall>c \<in> set usp. isSpace c)
        \<and> uds \<noteq> [] \<and> (\<forall>c \<in> set uds. isDigit c)
        \<and> 0 < digitsValue uds \<and> digitsValue uds < 1000000 \<longrightarrow>
        extractPrice (uw @ usp @ uds) = Some (int (100 * digitsValue uds)))
   \<and> (map lowerChar uw = ''usd'' \<and> length usp \<le> 1 \<and> (\<forall>c \<in> set usp. isSpace c)
        \<and> uds \<noteq> [] \<and> (\<forall>c \<in> set uds. isDigit c) \<and> isDigit ua \<and> isDigit ub
        \<and> 0 < 100 * digitsValue uds + digitsValue [ua, ub] \<and> digitsValue uds < 1000000 \<longrightarrow>
        extractPrice (uw @ usp @ uds @ ''.'' @ [ua, ub])
            = Some (int (100 * digitsValue uds + digitsValue [ua, ub])))
   \<and> (map lowerChar lw = ''price'' \<and> sep \<noteq> [] \<and> (\<forall>c \<in> set sep. c = CHR '':'' \<or> isSpace c)
        \<and> lds \<noteq> [] \<and> (\<forall>c \<in> set lds. isDigit c)
        \<and> 0 < digitsValue lds \<and> digitsValue lds < 1000000 \<longrightarrow>
        extractPrice (lw @ sep @ lds) = Some (int (100 * digitsValue lds)))
   \<and> (map lowerChar lw = ''price'' \<and> sep \<noteq> [] \<and> (\<forall>c \<in> set sep. c = CHR '':'' \<or> isSpace c)
        \<and> lds \<noteq> [] \<and> (\<forall>c \<in> set lds. isDigit c) \<and> isDigit la \<and> isDigit lb
        \<and> 0 < 100 * digitsValue lds + digitsValue [la, lb] \<and> digitsValue lds < 1000000 \<longrightarrow>
        extractPrice (lw @ sep @ lds @ ''.'' @ [la, lb])
            = Some (int (100 * digitsValue lds + digitsValue [la, lb])))
   \<and> (xs \<noteq> [] \<and> (\<forall>c \<in> set xs. isDigit c)
        \<and> (digitsValue xs = 0 \<or> 1000000 \<le> digitsValue xs) \<longrightarrow>
        extractPrice (''$'' @ xs) = None)
   \<and> (xs \<noteq> [] \<and> (\<forall>c \<in> set xs. isDigit c) \<and> isDigit xa \<and> isDigit xb
        \<and> (100 * digitsValue xs + digitsValue [xa, xb] = 0 \<or> 1000000 \<le> digitsValue xs) \<longrightarrow>
        extractPrice (''$'' @ xs @ ''.'' @ [xa, xb]) = None)
   \<and> (xs \<noteq> [] \<and> (\<forall>c \<in> set xs. isDigit c)
        \<and> (digitsValue xs = 0 \<or> 1000000 \<le> digitsValue xs)
        \<and> es \<noteq> [] \<and> (\<forall>c \<in> set es. isDigit c)
        \<and> 0 < digitsValue es \<and> digitsValue es < 1000000 \<longrightarrow>
        extractPrice (''$'' @ xs @ '' $'' @ es) = Some (int (100 * digitsValue es)))
   \<and> (map lowerChar uw = ''usd'' \<and> uds \<noteq> [] \<and> (\<forall>c \<in> set uds. isDigit c)
        \<and> es \<noteq> [] \<and> (\<forall>c \<in> set es. isDigit c)
        \<and> 0 < digitsValue es \<and> digitsValue es < 1000000 \<longrightarrow>
        extractPrice (uw @ '' '' @ uds @ '' $'' @ es) = Some (int (100 * digitsValue es)))"
proof (intro conjI impI)
  show first: "extractPrice text =
     (case find (\<lambda>capture. priceOfCapture capture \<noteq> None)
             (concat (map (\<lambda>pattern. execAll pattern text) pricePatterns)) of
        None \<Rightarrow> None
      | Some capture \<Rightarrow> priceOfCapture capture)"
    by (rule extractPrice_first_match)
  show "extractPrice text = None \<longleftrightarrow>
        (\<forall>capture \<in> set (concat (map (\<lambda>pattern. execAll pattern text) pricePatterns)).
           priceOfCapture capture = None)"
    unfolding first by (rule find_first_None_iff)
next
  assume h: "ds \<noteq> [] \<and> (\<forall>c \<in> set ds. isDigit c)
        \<and> 0 < digitsValue ds \<and> digitsValue ds < 1000000"
  then have amt: "\<forall>c \<in> set ds. isAmountChar c"
    by (simp add: digit_is_amountChar)
  have nocomma: "filter (\<lambda>c. c \<noteq> CHR '','') ds = ds"
    using h comma_not_digit by (auto simp: filter_id_conv)
  from h have ne: "ds \<noteq> []" by simp
  have "extractPrice (CHR ''$'' # ds @ []) = Some (int (100 * digitsValue ds))"
    using h matchAmount_whole [OF ne amt] priceOfCapture_whole [OF nocomma ne]
    by (intro extractPrice_dollar_amount [OF ne amt]) simp_all
  then show "extractPrice (''$'' @ ds) = Some (int (100 * digitsValue ds))"
    by simp
next
  assume h: "ds \<noteq> [] \<and> (\<forall>c \<in> set ds. isDigit c) \<and> isDigit a \<and> isDigit b
        \<and> 0 < 100 * digitsValue ds + digitsValue [a, b] \<and> digitsValue ds < 1000000"
  then have amt: "\<forall>c \<in> set ds. isAmountChar c"
    by (simp add: digit_is_amountChar)
  have nocomma: "filter (\<lambda>c. c \<noteq> CHR '','') ds = ds"
    using h comma_not_digit by (auto simp: filter_id_conv)
  from h have ne: "ds \<noteq> []" by simp
  have "extractPrice (CHR ''$'' # ds @ [CHR ''.'', a, b])
      = Some (int (100 * digitsValue ds + digitsValue [a, b]))"
    using h matchAmount_fraction [OF ne amt, of a b] priceOfCapture_fraction [OF nocomma, of a b]
    by (intro extractPrice_dollar_amount [OF ne amt]) simp_all
  then show "extractPrice (''$'' @ ds @ ''.'' @ [a, b])
      = Some (int (100 * digitsValue ds + digitsValue [a, b]))"
    by simp
next
  assume h: "hs \<noteq> [] \<and> (\<forall>c \<in> set (hs @ [t1, t2, t3]). isDigit c) \<and> isDigit a \<and> isDigit b
        \<and> 0 < 100 * digitsValue (hs @ [t1, t2, t3]) + digitsValue [a, b]
        \<and> digitsValue (hs @ [t1, t2, t3]) < 1000000"
  define grp where "grp = hs @ '','' @ [t1, t2, t3]"
  have ne: "grp \<noteq> []" by (simp add: grp_def)
  have amt: "\<forall>c \<in> set grp. isAmountChar c"
    using h by (auto simp: grp_def isAmountChar_def)
  have nocomma: "filter (\<lambda>c. c \<noteq> CHR '','') grp = hs @ [t1, t2, t3]"
    using h comma_not_digit by (auto simp: grp_def filter_id_conv)
  have "extractPrice (CHR ''$'' # grp @ [CHR ''.'', a, b])
      = Some (int (100 * digitsValue (hs @ [t1, t2, t3]) + digitsValue [a, b]))"
    using h matchAmount_fraction [OF ne amt, of a b] priceOfCapture_fraction [OF nocomma, of a b]
    by (intro extractPrice_dollar_amount [OF ne amt]) simp_all
  then show "extractPrice (''$'' @ hs @ '','' @ [t1, t2, t3] @ ''.'' @ [a, b])
      = Some (int (100 * digitsValue (hs @ [t1, t2, t3]) + digitsValue [a, b]))"
    by (simp add: grp_def)
next
  assume h: "map lowerChar uw = ''usd'' \<and> length usp \<le> 1 \<and> (\<forall>c \<in> set usp. isSpace c)
        \<and> uds \<noteq> [] \<and> (\<forall>c \<in> set uds. isDigit c)
        \<and> 0 < digitsValue uds \<and> digitsValue uds < 1000000"
  then obtain g gs where g: "uds = g # gs" "isDigit g"
    by (cases uds) auto
  from h have ne: "uds \<noteq> []" and dig: "\<forall>c \<in> set uds. isDigit c" by simp_all
  have amt: "\<forall>c \<in> set uds. isAmountChar c"
    using dig by (simp add: digit_is_amountChar)
  have nocomma: "filter (\<lambda>c. c \<noteq> CHR '','') uds = uds"
    using dig comma_not_digit by (auto simp: filter_id_conv)
  from h have range: "0 < digitsValue uds" "digitsValue uds < 1000000" by simp_all
  from h have w: "map lowerChar uw = ''usd''" and sp: "length usp \<le> 1" "\<forall>c \<in> set usp. isSpace c"
    by simp_all
  have chars: "\<forall>c \<in> set uds. isDigit c \<or> c = CHR ''.''"
    using dig by simp
  show "extractPrice (uw @ usp @ uds) = Some (int (100 * digitsValue uds))"
    by (rule extractPrice_usd_text [OF w sp g chars matchAmount_whole [OF ne amt]
          priceOfCapture_whole [OF nocomma ne dig range]])
next
  assume h: "map lowerChar uw = ''usd'' \<and> length usp \<le> 1 \<and> (\<forall>c \<in> set usp. isSpace c)
        \<and> uds \<noteq> [] \<and> (\<forall>c \<in> set uds. isDigit c) \<and> isDigit ua \<and> isDigit ub
        \<and> 0 < 100 * digitsValue uds + digitsValue [ua, ub] \<and> digitsValue uds < 1000000"
  then obtain g gs where g: "uds = g # gs" "isDigit g"
    by (cases uds) auto
  from h have ne: "uds \<noteq> []" and dig: "\<forall>c \<in> set uds. isDigit c"
    and ab: "isDigit ua" "isDigit ub" by simp_all
  have amt: "\<forall>c \<in> set uds. isAmountChar c"
    using dig by (simp add: digit_is_amountChar)
  have nocomma: "filter (\<lambda>c. c \<noteq> CHR '','') uds = uds"
    using dig comma_not_digit by (auto simp: filter_id_conv)
  from h have range: "0 < 100 * digitsValue uds + digitsValue [ua, ub]" "digitsValue uds < 1000000"
    by simp_all
  from h have w: "map lowerChar uw = ''usd''" and sp: "length usp \<le> 1" "\<forall>c \<in> set usp. isSpace c"
    by simp_all
  have cap: "uds @ [CHR ''.'', ua, ub] = g # (gs @ [CHR ''.'', ua, ub])"
    by (simp add: g)
  have chars: "\<forall>c \<in> set (uds @ [CHR ''.'', ua, ub]). isDigit c \<or> c = CHR ''.''"
    using dig ab by auto
  have "extractPrice (uw @ usp @ uds @ [CHR ''.'', ua, ub])
      = Some (int (100 * digitsValue uds + digitsValue [ua, ub]))"
    by (rule extractPrice_usd_text [OF w sp cap g(2) chars matchAmount_fraction [OF ne amt ab]
          priceOfCapture_fraction [OF nocomma dig ab range]])
  then show "extractPrice (uw @ usp @ uds @ ''.'' @ [ua, ub])
      = Some (int (100 * digitsValue uds + digitsValue [ua, ub]))"
    by simp
next
  assume h: "map lowerChar lw = ''price'' \<and> sep \<noteq> [] \<and> (\<forall>c \<in> set sep. c = CHR '':'' \<or> isSpace c)
        \<and> lds \<noteq> [] \<and> (\<forall>c \<in> set lds. isDigit c)
        \<and> 0 < digitsValue lds \<and> digitsValue lds < 1000000"
  then obtain g gs where g: "lds = g # gs" "isDigit g"
    by (cases lds) auto
  from h have ne: "lds \<noteq> []" and dig: "\<forall>c \<in> set lds. isDigit c" by simp_all
  have amt: "\<forall>c \<in> set lds. isAmountChar c"
    using dig by (simp add: digit_is_amountChar)
  have nocomma: "filter (\<lambda>c. c \<noteq> CHR '','') lds = lds"
    using dig comma_not_digit by (auto simp: filter_id_conv)
  from h have range: "0 < digitsValue lds" "digitsValue lds < 1000000" by simp_all
  from h have w: "map lowerChar lw = ''price''" and sp: "sep \<noteq> []"
    "\<forall>c \<in> set sep. c = CHR '':'' \<or> isSpace c"
    by simp_all
  have chars: "\<forall>c \<in> set (g # gs). isDigit c \<or> c = CHR ''.''"
    using dig g by simp
  show "extractPrice (lw @ sep @ lds) = Some (int (100 * digitsValue lds))"
    unfolding g(1)
    by (rule extractPrice_label_text [OF w sp g(2) chars
          matchAmount_whole [OF ne amt, unfolded g(1)]
          priceOfCapture_whole [OF nocomma ne dig range, unfolded g(1)]])
next
  assume h: "map lowerChar lw = ''price'' \<and> sep \<noteq> [] \<and> (\<forall>c \<in> set sep. c = CHR '':'' \<or> isSpace c)
        \<and> lds \<noteq> [] \<and> (\<forall>c \<in> set lds. isDigit c) \<and> isDigit la \<and> isDigit lb
        \<and> 0 < 100 * digitsValue lds + digitsValue [la, lb] \<and> digitsValue lds < 1000000"
  then obtain g gs where g: "lds = g # gs" "isDigit g"
    by (cases lds) auto
  from h have ne: "lds \<noteq> []" and dig: "\<forall>c \<in> set lds. isDigit c"
    and ab: "isDigit la" "isDigit lb" by simp_all
  have amt: "\<forall>c \<in> set lds. isAmountChar c"
    using dig by (simp add: digit_is_amountChar)
  have nocomma: "filter (\<lambda>c. c \<noteq> CHR '','') lds = lds"
    using dig comma_not_digit by (auto simp: filter_id_conv)
  from h have range: "0 < 100 * digitsValue lds + digitsValue [la, lb]" "digitsValue lds < 1000000"
    by simp_all
  from h have w: "map lowerChar lw = ''price''" and sp: "sep \<noteq> []"
    "\<forall>c \<in> set sep. c = CHR '':'' \<or> isSpace c"
    by simp_all
  have cap: "lds @ [CHR ''.'', la, lb] = g # (gs @ [CHR ''.'', la, lb])"
    by (simp add: g)
  have chars: "\<forall>c \<in> set (g # (gs @ [CHR ''.'', la, lb])). isDigit c \<or> c = CHR ''.''"
    using dig ab g by auto
  have "extractPrice (lw @ sep @ g # (gs @ [CHR ''.'', la, lb]))
      = Some (int (100 * digitsValue lds + digitsValue [la, lb]))"
    by (rule extractPrice_label_text [OF w sp g(2) chars
          matchAmount_fraction [OF ne amt ab, unfolded cap]
          priceOfCapture_fraction [OF nocomma dig ab range, unfolded cap]])
  then show "extractPrice (lw @ sep @ lds @ ''.'' @ [la, lb])
      = Some (int (100 * digitsValue lds + digitsValue [la, lb]))"
    by (simp add: g)
next
  assume h: "xs \<noteq> [] \<and> (\<forall>c \<in> set xs. isDigit c)
        \<and> (digitsValue xs = 0 \<or> 1000000 \<le> digitsValue xs)"
  then have ne: "xs \<noteq> []" and dig: "\<forall>c \<in> set xs. isDigit c"
    and out: "digitsValue xs = 0 \<or> 1000000 \<le> digitsValue xs" by simp_all
  have amt: "\<forall>c \<in> set xs. isAmountChar c"
    using dig by (simp add: digit_is_amountChar)
  have "extractPrice (CHR ''$'' # xs @ []) = None"
    by (rule extractPrice_excluded [OF ne dig])
       (simp_all add: matchAmount_whole [OF ne amt] priceOfCapture_excluded_whole [OF ne dig out])
  then show "extractPrice (''$'' @ xs) = None"
    by simp
next
  assume h: "xs \<noteq> [] \<and> (\<forall>c \<in> set xs. isDigit c) \<and> isDigit xa \<and> isDigit xb
        \<and> (100 * digitsValue xs + digitsValue [xa, xb] = 0 \<or> 1000000 \<le> digitsValue xs)"
  then have ne: "xs \<noteq> []" and dig: "\<forall>c \<in> set xs. isDigit c"
    and ab: "isDigit xa" "isDigit xb"
    and out: "100 * digitsValue xs + digitsValue [xa, xb] = 0 \<or> 1000000 \<le> digitsValue xs"
    by simp_all
  have amt: "\<forall>c \<in> set xs. isAmountChar c"
    using dig by (simp add: digit_is_amountChar)
  have chars: "\<forall>c \<in> set [CHR ''.'', xa, xb]. isDigit c \<or> c = CHR ''.''"
    using ab by simp
  have "extractPrice (CHR ''$'' # xs @ [CHR ''.'', xa, xb]) = None"
    by (rule extractPrice_excluded [OF ne dig chars matchAmount_fraction [OF ne amt ab]
          priceOfCapture_excluded_fraction [OF dig ab out]])
  then show "extractPrice (''$'' @ xs @ ''.'' @ [xa, xb]) = None"
    by simp
next
  assume h: "xs \<noteq> [] \<and> (\<forall>c \<in> set xs. isDigit c)
        \<and> (digitsValue xs = 0 \<or> 1000000 \<le> digitsValue xs)
        \<and> es \<noteq> [] \<and> (\<forall>c \<in> set es. isDigit c)
        \<and> 0 < digitsValue es \<and> digitsValue es < 1000000"
  then have "extractPrice (CHR ''$'' # xs @ CHR '' '' # CHR ''$'' # es)
      = Some (int (100 * digitsValue es))"
    by (intro extractPrice_skips_excluded) simp_all
  then show "extractPrice (''$'' @ xs @ '' $'' @ es) = Some (int (100 * digitsValue es))"
    by simp
next
  assume h: "map lowerChar uw = ''usd'' \<and> uds \<noteq> [] \<and> (\<forall>c \<in> set uds. isDigit c)
        \<and> es \<noteq> [] \<and> (\<forall>c \<in> set es. isDigit c)
        \<and> 0 < digitsValue es \<and> digitsValue es < 1000000"
  then have "extractPrice (uw @ CHR '' '' # uds @ CHR '' '' # CHR ''$'' # es)
      = Some (int (100 * digitsValue es))"
    by (intro extractPrice_dollar_before_usd) simp_all
  then show "extractPrice (uw @ '' '' @ uds @ '' $'' @ es) = Some (int (100 * digitsValue es))"
    by simp
qed

lemma zero_then_five_captures:
  "concat (map (\<lambda>pattern. execAll pattern ''$0 then $5'') pricePatterns) = [''0'', ''5'']"
  by code_simp

lemma zero_captures:
  "concat (map (\<lambda>pattern. execAll pattern ''$0'') pricePatterns) = [''0'']"
  by code_simp

lemma capture_prices:
  "priceOfCapture ''0'' = None" "priceOfCapture ''5'' = Some 500"
  by (simp_all add: priceOfCapture_def parseFloat_def isDigit_def digitsValue_def digitValue_def
      Math_round_def)

theorem extractPrice_first_in_range_match_witness:
  "extractPrice ''$45'' = Some 4500 \<and> extractPrice ''$45.99'' = Some 4599
   \<and> extractPrice ''$1,200.00'' = Some 120000 \<and> extractPrice ''$0.50'' = Some 50
   \<and> extractPrice ''$0 then $5'' = Some 500
   \<and> concat (map (\<lambda>pattern. execAll pattern ''$0'') pricePatterns) = [''0'']
   \<and> priceOfCapture ''0'' = None
   \<and> extractPrice ''$0'' = None
   \<and> extractPrice ''USD 45'' = Some 4500 \<and> extractPrice ''usd45.99'' = Some 4599
   \<and> extractPrice ''price: 45'' = Some 4500 \<and> extractPrice ''Price 45.99'' = Some 4599
   \<and> extractPrice ''$1000000'' = None \<and> extractPrice ''$1000000.50'' = None
   \<and> extractPrice ''$0.00'' = None
   \<and> extractPrice ''$2000000 $5'' = Some 500
   \<and> extractPrice ''USD 5 $7'' = Some 700"
proof -
  have d: "isDigit (CHR ''0'')" "isDigit (CHR ''1'')" "isDigit (CHR ''2'')" "isDigit (CHR ''4'')"
    "isDigit (CHR ''5'')" "isDigit (CHR ''7'')" "isDigit (CHR ''9'')"
    by (simp_all add: isDigit_def)
  have v: "digitsValue ''45'' = 45" "digitsValue ''99'' = 99" "digitsValue ''1200'' = 1200"
    "digitsValue ''00'' = 0" "digitsValue ''0'' = 0" "digitsValue ''50'' = 50"
    "digitsValue ''5'' = 5" "digitsValue ''7'' = 7" "digitsValue ''1000000'' = 1000000"
    "digitsValue ''2000000'' = 2000000"
    by (simp_all add: digitsValue_def digitValue_def)
  have l: "map lowerChar ''USD'' = ''usd''" "map lowerChar ''usd'' = ''usd''"
    "map lowerChar ''price'' = ''price''" "map lowerChar ''Price'' = ''price''"
    by (simp_all add: lowerChar_def)
  have s: "isSpace (CHR '' '')"
    by (simp add: isSpace_def)
  note general = extractPrice_first_in_range_match [where ?text = "''$0 then $5''"]
  from general [where ds = "''45''" and a = "CHR ''9''" and b = "CHR ''9''"] d v
  have "extractPrice ''$45'' = Some 4500 \<and> extractPrice ''$45.99'' = Some 4599
      \<and> extractPrice ''$0 then $5'' = Some 500"
    by (simp add: zero_then_five_captures capture_prices)
  moreover
  have none: "\<forall>capture \<in> set (concat (map (\<lambda>pattern. execAll pattern ''$0'') pricePatterns)).
         priceOfCapture capture = None"
    by (simp only: zero_captures) (simp add: capture_prices)
  note zero = extractPrice_first_in_range_match [where ?text = "''$0''" and ds = "''0''"
      and a = "CHR ''5''" and b = "CHR ''0''"]
  from zero none have "extractPrice ''$0'' = None"
    by blast
  moreover
  from zero d v have "extractPrice ''$0.50'' = Some 50"
    by simp
  moreover
  note forms = extractPrice_first_in_range_match [where ?text = "''no price''"]
  from forms [where hs = "''1''" and ?t1.0 = "CHR ''2''" and ?t2.0 = "CHR ''0''"
      and ?t3.0 = "CHR ''0''" and a = "CHR ''0''" and b = "CHR ''0''"] d v
  have "extractPrice ''$1,200.00'' = Some 120000"
    by simp
  moreover
  from forms [where uw = "''USD''" and usp = "'' ''" and uds = "''45''", THEN conjunct2, THEN conjunct2, THEN conjunct2, THEN conjunct2, THEN conjunct2, THEN conjunct1] d v l s
  have "extractPrice ''USD 45'' = Some 4500"
    by simp
  moreover
  from forms [where uw = "''usd''" and usp = "[]" and uds = "''45''" and ua = "CHR ''9''"
      and ub = "CHR ''9''", THEN conjunct2, THEN conjunct2, THEN conjunct2, THEN conjunct2, THEN conjunct2, THEN conjunct2, THEN conjunct1] d v l
  have "extractPrice ''usd45.99'' = Some 4599"
    by simp
  moreover
  from forms [where lw = "''price''" and sep = "'': ''" and lds = "''45''", THEN conjunct2, THEN conjunct2, THEN conjunct2, THEN conjunct2, THEN conjunct2, THEN conjunct2, THEN conjunct2, THEN conjunct1] d v l s
  have "extractPrice ''price: 45'' = Some 4500"
    by simp
  moreover
  from forms [where lw = "''Price''" and sep = "'' ''" and lds = "''45''" and la = "CHR ''9''"
      and lb = "CHR ''9''", THEN conjunct2, THEN conjunct2, THEN conjunct2, THEN conjunct2, THEN conjunct2, THEN conjunct2, THEN conjunct2, THEN conjunct2, THEN conjunct1] d v l s
  have "extractPrice ''Price 45.99'' = Some 4599"
    by simp
  moreover
  from forms [where xs = "''1000000''", THEN conjunct2, THEN conjunct2, THEN conjunct2, THEN conjunct2, THEN conjunct2, THEN conjunct2, THEN conjunct2, THEN conjunct2, THEN conjunct2, THEN conjunct1] d v
  have "extractPrice ''$1000000'' = None"
    by simp
  moreover
  from forms [where xs = "''1000000''" and xa = "CHR ''5''" and xb = "CHR ''0''", THEN conjunct2, THEN conjunct2, THEN conjunct2, THEN conjunct2, THEN conjunct2, THEN conjunct2, THEN conjunct2, THEN conjunct2, THEN conjunct2, THEN conjunct2, THEN conjunct1] d v
  have "extractPrice ''$1000000.50'' = None"
    by simp
  moreover
  from forms [where xs = "''0''" and xa = "CHR ''0''" and xb = "CHR ''0''", THEN conjunct2, THEN conjunct2, THEN conjunct2, THEN conjunct2, THEN conjunct2, THEN conjunct2, THEN conjunct2, THEN conjunct2, THEN conjunct2, THEN conjunct2, THEN conjunct1] d v
  have "extractPrice ''$0.00'' = None"
    by simp
  moreover
  from forms [where xs = "''2000000''" and es = "''5''", THEN conjunct2, THEN conjunct2, THEN conjunct2, THEN conjunct2, THEN conjunct2, THEN conjunct2, THEN conjunct2, THEN conjunct2, THEN conjunct2, THEN conjunct2, THEN conjunct2, THEN conjunct1] d v
  have "extractPrice ''$2000000 $5'' = Some 500"
    by simp
  moreover
  from forms [where uw = "''USD''" and uds = "''5''" and es = "''7''", THEN conjunct2, THEN conjunct2, THEN conjunct2, THEN conjunct2, THEN conjunct2, THEN conjunct2, THEN conjunct2, THEN conjunct2, THEN conjunct2, THEN conjunct2, THEN conjunct2, THEN conjunct2] d v l
  have "extractPrice ''USD 5 $7'' = Some 700"
    by simp
  ultimately show ?thesis
    by (simp add: zero_captures capture_prices)
qed

subsection \<open>Spread filter\<close>

lemma set_sortBySpreadDesc [simp]: "set (sortBySpreadDesc qs) = set qs"
  by (simp add: sortBySpreadDesc_def)

lemma in_map_filterD: "x \<in> set (List.map_filter f xs) \<Longrightarrow> \<exists>y \<in> set xs. f y = Some x"
  by (auto simp: List.map_filter_def)

lemma qualifyLead_Some:
  assumes "qualifyLead encodeTitle resalePriceData minProfit minSpread lead = Some L"
  shows "estimatedSpread L = sellPriceEstimate L - q_buyPrice L
     \<and> estimatedSpread L \<ge> minProfit \<and> spreadPercent L \<ge> minSpread
     \<and> 0 < q_buyPrice L
     \<and> spreadPercent L = of_int (estimatedSpread L) / of_int (q_buyPrice L) * 100"
  using assms
  by (auto simp: qualifyLead_def Let_def split: option.splits if_splits)

lemma dealPairOf_Some:
  "dealPairOf pattern regularFirst text = Some (d, r) \<Longrightarrow> 0 < d \<and> d < r"
  by (auto simp: dealPairOf_def Let_def split: option.splits list.splits if_splits)

lemma extractDealPricePair_Some:
  "extractDealPricePair text = Some (d, r) \<Longrightarrow> 0 < d \<and> d < r"
  by (auto simp: extractDealPricePair_def split: option.splits dest: dealPairOf_Some)

lemma dealLead_fields:
  "estimatedSpread (dealLead enc item d r disc c) = r - d"
  "sellPriceEstimate (dealLead enc item d r disc c) = r"
  "q_buyPrice (dealLead enc item d r disc c) = d"
  "spreadPercent (dealLead enc item d r disc c) = disc"
  by (simp_all add: dealLead_def)

lemma qualifyDealItem_Some:
  assumes "qualifyDealItem encodeTitle minDiscount item = Some L"
  shows "estimatedSpread L = sellPriceEstimate L - q_buyPrice L
     \<and> 0 < q_buyPrice L \<and> 0 < estimatedSpread L
     \<and> spreadPercent L \<ge> minDiscount
     \<and> spreadPercent L = of_int (estimatedSpread L) / of_int (sellPriceEstimate L) * 100"
proof (cases "case extractDealPricePair (item_title item) of
              Some found \<Rightarrow> Some found
            | None \<Rightarrow> extractDealPricePair (item_title item @ '' '' @ item_description item)")
  case (Some found)
  obtain d r where dr: "found = (d, r)" by (cases found)
  from Some dr have "0 < d \<and> d < r"
    by (auto split: option.splits dest: extractDealPricePair_Some)
  with assms Some dr show ?thesis
    by (auto simp: qualifyDealItem_def Let_def dealLead_fields split: if_splits)
next
  case None
  with assms show ?thesis
    by (auto simp: qualifyDealItem_def Let_def dealLead_fields split: if_splits)
qed

lemma dealLeadsOfRun_retail_only:
  "dealLeadsOfRun enc (getScoutConfig t up us ps) items \<noteq> [] \<Longrightarrow> t = retail"
  by (cases t) (auto simp: dealLeadsOfRun_def)

lemma dealLeadsOfRun_v2_retail_only:
  "dealLeadsOfRun_v2 enc (getScoutConfig t up us ps) items \<noteq> [] \<Longrightarrow> t = retail"
  by (cases t) (auto simp: dealLeadsOfRun_v2_def)

lemma qualifyLead_untyped:
  "qualifyLead encodeTitle resalePriceData minProfit minSpread lead = Some L
     \<Longrightarrow> q_sellPriceType L = None"
  by (auto simp: qualifyLead_def Let_def split: option.splits if_splits)

lemma qualifyDealItem_untyped:
  "qualifyDealItem encodeTitle minDiscount item = Some L \<Longrightarrow> q_sellPriceType L = None"
  by (auto simp: qualifyDealItem_def dealLead_def Let_def split: option.splits if_splits)

lemma qualifyLead_v2_Qualified:
  assumes "qualifyLead_v2 encodeTitle resalePriceData minProfit minSpread lead = Qualified L"
  shows "q_sellPriceType L \<noteq> Some research_needed
     \<and> estimatedSpread L = sellPriceEstimate L - q_buyPrice L
     \<and> estimatedSpread L \<ge> minProfit \<and> spreadPercent L \<ge> minSpread
     \<and> spreadPercent L = of_int (estimatedSpread L) / of_int (q_buyPrice L) * 100"
  using assms
  by (auto simp: qualifyLead_v2_def Let_def split: option.splits if_splits)

lemma qualifyLead_v2_Unresearched:
  assumes "qualifyLead_v2 encodeTitle resalePriceData minProfit minSpread lead = Unresearched L"
  shows "q_sellPriceType L = Some research_needed
     \<and> sellPriceEstimate L = 0 \<and> estimatedSpread L = 0 \<and> spreadPercent L = 0"
  using assms
  by (auto simp: qualifyLead_v2_def Let_def split: option.splits if_splits)

lemma filterLeadsWithPriceData_v2_mem:
  assumes "L \<in> set (filterLeadsWithPriceData_v2 encodeTitle leads resalePriceData minProfit minSpread)"
  shows "(\<exists>lead. qualifyLead_v2 encodeTitle resalePriceData minProfit minSpread lead = Qualified L)
       \<or> (\<exists>lead. qualifyLead_v2 encodeTitle resalePriceData minProfit minSpread lead
             = Unresearched L)"
  using assms
  by (auto simp: filterLeadsWithPriceData_v2_def Let_def List.map_filter_def
      split: LeadVerdict.splits dest!: in_set_takeD)

lemma dealLead_v2_fields:
  "estimatedSpread (dealLead_v2 enc item d r disc c) = r - d"
  "sellPriceEstimate (dealLead_v2 enc item d r disc c) = r"
  "q_buyPrice (dealLead_v2 enc item d r disc c) = d"
  "spreadPercent (dealLead_v2 enc item d r disc c) = disc"
  "q_sellPriceType (dealLead_v2 enc item d r disc c) = Some estimated"
  by (simp_all add: dealLead_v2_def dealLead_def)

lemma middle_of_higher_prices:
  assumes "filter (\<lambda>p. p \<noteq> d \<and> d < p) ys \<noteq> []"
  shows "(d :: int) < sort (filter (\<lambda>p. p \<noteq> d \<and> d < p) ys)
               ! (length (filter (\<lambda>p. p \<noteq> d \<and> d < p) ys) div 2)"
proof -
  let ?xs = "filter (\<lambda>p. p \<noteq> d \<and> d < p) ys"
  from assms have "length ?xs div 2 < length (sort ?xs)"
    by simp
  then have "sort ?xs ! (length ?xs div 2) \<in> set (sort ?xs)"
    by (rule nth_mem)
  then show ?thesis
    by simp
qed

lemma dealFallback3_Some:
  assumes "dealFallback3 encodeTitle minDiscount item = Some L"
  shows "q_sellPriceType L = Some estimated
     \<and> estimatedSpread L = sellPriceEstimate L - q_buyPrice L
     \<and> 0 < q_buyPrice L \<and> 0 < estimatedSpread L
     \<and> spreadPercent L \<ge> minDiscount"
  using assms
  by (auto simp: dealFallback3_def Let_def dealLead_v2_fields
      middle_of_higher_prices split: if_splits)

lemma dealFallback2_Some:
  assumes "dealFallback2 encodeTitle minDiscount item = Some L"
  shows "q_sellPriceType L = Some estimated
     \<and> estimatedSpread L = sellPriceEstimate L - q_buyPrice L
     \<and> 0 < q_buyPrice L \<and> 0 < estimatedSpread L
     \<and> spreadPercent L \<ge> minDiscount"
  using assms dealFallback3_Some [of encodeTitle minDiscount item L]
  by (auto simp: dealFallback2_def Let_def dealLead_v2_fields
      split: if_splits option.splits list.splits)

lemma dealFallback1_Some:
  assumes "dealFallback1 encodeTitle minDiscount item = Some L"
  shows "q_sellPriceType L = Some estimated
     \<and> estimatedSpread L = sellPriceEstimate L - q_buyPrice L
     \<and> 0 < q_buyPrice L \<and> 0 < estimatedSpread L
     \<and> spreadPercent L \<ge> minDiscount"
  using assms dealFallback2_Some [of encodeTitle minDiscount item L]
  by (auto simp: dealFallback1_def Let_def dealLead_v2_fields
      split: if_splits)

lemma qualifyDealItem_v2_Some:
  assumes "qualifyDealItem_v2 encodeTitle minDiscount item = Some L"
  shows "q_sellPriceType L = Some estimated
     \<and> estimatedSpread L = sellPriceEstimate L - q_buyPrice L
     \<and> 0 < q_buyPrice L \<and> 0 < estimatedSpread L
     \<and> spreadPercent L \<ge> minDiscount"
proof (cases "case extractDealPricePair (item_title item) of
              Some found \<Rightarrow> Some found
            | None \<Rightarrow> extractDealPricePair (item_title item @ '' '' @ item_description item)")
  case (Some found)
  obtain d r where dr: "found = (d, r)" by (cases found)
  from Some dr have "0 < d \<and> d < r"
    by (auto split: option.splits dest: extractDealPricePair_Some)
  with assms Some dr show ?thesis
    by (auto simp: qualifyDealItem_v2_def Let_def dealLead_v2_fields split: if_splits)
next
  case None
  with assms dealFallback1_Some [of encodeTitle minDiscount item L] show ?thesis
    by (auto simp: qualifyDealItem_v2_def)
qed

lemma sample_leads_v2:
  "map (\<lambda>L. (q_buyPrice L, sellPriceEstimate L, estimatedSpread L, spreadPercent L,
              q_sellPriceType L))
     (filterLeadsWithPriceData_v2 (\<lambda>t. t) [mixerLead, vacuumLead] sampleResale_v2 1000 15)
     = [(5000, 12000, 7000, 140, Some verified), (8000, 0, 0, 0, Some research_needed)]"
  by (simp add: filterLeadsWithPriceData_v2_def List.map_filter_def sortBySpreadDesc_def
      qualifyLead_v2_def vacuumLead_def mixerLead_def sampleResale_v2_def Let_def)

lemma blenderDeal_run_leads:
  "map (\<lambda>L. (q_buyPrice L, sellPriceEstimate L, estimatedSpread L, spreadPercent L,
              q_sellPriceType L))
     (filterDealFeedItems_v2 (\<lambda>t. t) [blenderDeal] 25)
     = [(5000, 12500, 7500, 60, Some estimated)]"
  by code_simp

lemma blenderDeal_leads:
  "map (\<lambda>L. (q_buyPrice L, sellPriceEstimate L, estimatedSpread L, spreadPercent L,
              q_sellPriceType L))
     (filterDealFeedItems_v2 (\<lambda>t. t) [blenderDeal] 35)
     = [(5000, 12500, 7500, 60, Some estimated)]"
  by code_simp

text \<open>
  Claim C1, amended. Every lead produced by \<open>filterLeadsWithPriceData\<close> whose
  \<open>sellPriceType\<close> is not \<open>research_needed\<close> has
  \<open>estimatedSpread = sellPriceEstimate - buyPrice\<close>, \<open>estimatedSpread >= minProfitCents\<close>
  and \<open>spreadPercent >= minSpreadPercent\<close>, the percentage being taken of the buy price.
  Every lead produced by \<open>filterDealFeedItems\<close> has
  \<open>estimatedSpread = sellPriceEstimate - buyPrice\<close>, a positive \<open>estimatedSpread\<close>, and a
  \<open>spreadPercent\<close> of at least the \<open>minDiscountPercent\<close> it was called with;
  \<open>minProfitCents\<close> is not applied to it. In a run the deal leads are computed with
  \<open>minDiscountPercent = 25\<close>, which is above the \<open>minSpreadPercent\<close> of the only
  configuration that uses deal feeds. In the revision cited by the claim no lead is marked
  \<open>research_needed\<close>; in the later revision the leads so marked have a zero sell estimate,
  spread and percentage, and the deal leads are all marked \<open>estimated\<close>.
\<close>

theorem spread_qualification:
  "(\<forall>L \<in> set (filterLeadsWithPriceData encodeTitle leads resalePriceData minProfit minSpread).
      q_sellPriceType L \<noteq> Some research_needed
      \<and> estimatedSpread L = sellPriceEstimate L - q_buyPrice L
      \<and> estimatedSpread L \<ge> minProfit
      \<and> spreadPercent L \<ge> minSpread
      \<and> spreadPercent L = of_int (estimatedSpread L) / of_int (q_buyPrice L) * 100)
   \<and> (\<forall>L \<in> set (filterDealFeedItems encodeTitle items minDiscount).
      q_sellPriceType L \<noteq> Some research_needed
      \<and> estimatedSpread L = sellPriceEstimate L - q_buyPrice L
      \<and> 0 < estimatedSpread L
      \<and> spreadPercent L \<ge> minDiscount
      \<and> spreadPercent L = of_int (estimatedSpread L) / of_int (sellPriceEstimate L) * 100)
   \<and> (\<forall>L \<in> set (dealLeadsOfRun encodeTitle (getScoutConfig t userProfit userSpread userPairs) items).
      estimatedSpread L = sellPriceEstimate L - q_buyPrice L
      \<and> 0 < estimatedSpread L
      \<and> spreadPercent L \<ge> 25
      \<and> spreadPercent L \<ge> minSpreadPercent (getScoutConfig t userProfit userSpread userPairs))
   \<and> (\<forall>L \<in> set (filterLeadsWithPriceData_v2 encodeTitle later_leads later_resale
                      later_minProfit later_minSpread).
      (q_sellPriceType L \<noteq> Some research_needed \<longrightarrow>
         estimatedSpread L = sellPriceEstimate L - q_buyPrice L
         \<and> estimatedSpread L \<ge> later_minProfit
         \<and> spreadPercent L \<ge> later_minSpread
         \<and> spreadPercent L = of_int (estimatedSpread L) / of_int (q_buyPrice L) * 100)
      \<and> (q_sellPriceType L = Some research_needed \<longrightarrow>
         sellPriceEstimate L = 0 \<and> estimatedSpread L = 0 \<and> spreadPercent L = 0))
   \<and> (\<forall>L \<in> set (filterDealFeedItems_v2 encodeTitle later_items later_minDiscount).
      q_sellPriceType L = Some estimated
      \<and> estimatedSpread L = sellPriceEstimate L - q_buyPrice L
      \<and> 0 < estimatedSpread L
      \<and> spreadPercent L \<ge> later_minDiscount)
   \<and> (\<forall>L \<in> set (dealLeadsOfRun_v2 encodeTitle (getScoutConfig t userProfit userSpread userPairs)
                      later_items).
      estimatedSpread L = sellPriceEstimate L - q_buyPrice L
      \<and> 0 < estimatedSpread L
      \<and> spreadPercent L \<ge> 25
      \<and> spreadPercent L \<ge> minSpreadPercent (getScoutConfig t userProfit userSpread userPairs))"
proof -
  have leads_part:
    "\<forall>L \<in> set (filterLeadsWithPriceData encodeTitle leads resalePriceData minProfit minSpread).
      q_sellPriceType L \<noteq> Some research_needed
      \<and> estimatedSpread L = sellPriceEstimate L - q_buyPrice L
      \<and> estimatedSpread L \<ge> minProfit
      \<and> spreadPercent L \<ge> minSpread
      \<and> spreadPercent L = of_int (estimatedSpread L) / of_int (q_buyPrice L) * 100"
  proof
    fix L
    assume "L \<in> set (filterLeadsWithPriceData encodeTitle leads resalePriceData minProfit minSpread)"
    then obtain lead where "qualifyLead encodeTitle resalePriceData minProfit minSpread lead = Some L"
      by (auto simp: filterLeadsWithPriceData_def dest: in_map_filterD)
    note made = this
    from qualifyLead_untyped [OF made] have "q_sellPriceType L \<noteq> Some research_needed"
      by simp
    with qualifyLead_Some [OF made]
    show "q_sellPriceType L \<noteq> Some research_needed
      \<and> estimatedSpread L = sellPriceEstimate L - q_buyPrice L
      \<and> estimatedSpread L \<ge> minProfit
      \<and> spreadPercent L \<ge> minSpread
      \<and> spreadPercent L = of_int (estimatedSpread L) / of_int (q_buyPrice L) * 100"
      by blast
  qed
  have deals_part: "\<forall>L \<in> set (filterDealFeedItems encodeTitle items minDiscount).
      q_sellPriceType L \<noteq> Some research_needed
      \<and> estimatedSpread L = sellPriceEstimate L - q_buyPrice L
      \<and> 0 < estimatedSpread L
      \<and> spreadPercent L \<ge> minDiscount
      \<and> spreadPercent L = of_int (estimatedSpread L) / of_int (sellPriceEstimate L) * 100"
  proof
    fix L
    assume "L \<in> set (filterDealFeedItems encodeTitle items minDiscount)"
    then obtain item where "qualifyDealItem encodeTitle minDiscount item = Some L"
      by (auto simp: filterDealFeedItems_def dest: in_map_filterD)
    note made = this
    from qualifyDealItem_untyped [OF made] have "q_sellPriceType L \<noteq> Some research_needed"
      by simp
    with qualifyDealItem_Some [OF made]
    show "q_sellPriceType L \<noteq> Some research_needed
      \<and> estimatedSpread L = sellPriceEstimate L - q_buyPrice L
      \<and> 0 < estimatedSpread L
      \<and> spreadPercent L \<ge> minDiscount
      \<and> spreadPercent L = of_int (estimatedSpread L) / of_int (sellPriceEstimate L) * 100"
      by blast
  qed
  have run_part:
    "\<forall>L \<in> set (dealLeadsOfRun encodeTitle (getScoutConfig t userProfit userSpread userPairs) items).
      estimatedSpread L = sellPriceEstimate L - q_buyPrice L
      \<and> 0 < estimatedSpread L
      \<and> spreadPercent L \<ge> 25
      \<and> spreadPercent L \<ge> minSpreadPercent (getScoutConfig t userProfit userSpread userPairs)"
  proof
    fix L
    assume mem: "L \<in> set (dealLeadsOfRun encodeTitle (getScoutConfig t userProfit userSpread userPairs) items)"
    then have "dealLeadsOfRun encodeTitle (getScoutConfig t userProfit userSpread userPairs) items \<noteq> []"
      by auto
    then have t: "t = retail" by (rule dealLeadsOfRun_retail_only)
    from mem obtain item where "qualifyDealItem encodeTitle 25 item = Some L"
      by (auto simp: dealLeadsOfRun_def filterDealFeedItems_def dest: in_map_filterD
          split: if_splits)
    from qualifyDealItem_Some [OF this]
    have L: "estimatedSpread L = sellPriceEstimate L - q_buyPrice L" "0 < estimatedSpread L"
      "spreadPercent L \<ge> 25"
      by blast+
    have "minSpreadPercent (getScoutConfig t userProfit userSpread userPairs) = 20"
      by (simp add: t)
    with L(3) have "spreadPercent L \<ge> minSpreadPercent (getScoutConfig t userProfit userSpread userPairs)"
      by simp
    with L show "estimatedSpread L = sellPriceEstimate L - q_buyPrice L
      \<and> 0 < estimatedSpread L
      \<and> spreadPercent L \<ge> 25
      \<and> spreadPercent L \<ge> minSpreadPercent (getScoutConfig t userProfit userSpread userPairs)"
      by blast
  qed
  have later_leads_part:
    "\<forall>L \<in> set (filterLeadsWithPriceData_v2 encodeTitle later_leads later_resale
                      later_minProfit later_minSpread).
      (q_sellPriceType L \<noteq> Some research_needed \<longrightarrow>
         estimatedSpread L = sellPriceEstimate L - q_buyPrice L
         \<and> estimatedSpread L \<ge> later_minProfit
         \<and> spreadPercent L \<ge> later_minSpread
         \<and> spreadPercent L = of_int (estimatedSpread L) / of_int (q_buyPrice L) * 100)
      \<and> (q_sellPriceType L = Some research_needed \<longrightarrow>
         sellPriceEstimate L = 0 \<and> estimatedSpread L = 0 \<and> spreadPercent L = 0)"
  proof
    fix L
    assume "L \<in> set (filterLeadsWithPriceData_v2 encodeTitle later_leads later_resale
                      later_minProfit later_minSpread)"
    from filterLeadsWithPriceData_v2_mem [OF this]
    show "(q_sellPriceType L \<noteq> Some research_needed \<longrightarrow>
         estimatedSpread L = sellPriceEstimate L - q_buyPrice L
         \<and> estimatedSpread L \<ge> later_minProfit
         \<and> spreadPercent L \<ge> later_minSpread
         \<and> spreadPercent L = of_int (estimatedSpread L) / of_int (q_buyPrice L) * 100)
      \<and> (q_sellPriceType L = Some research_needed \<longrightarrow>
         sellPriceEstimate L = 0 \<and> estimatedSpread L = 0 \<and> spreadPercent L = 0)"
    proof
      assume "\<exists>lead. qualifyLead_v2 encodeTitle later_resale later_minProfit later_minSpread lead
                = Qualified L"
      then obtain lead where
        "qualifyLead_v2 encodeTitle later_resale later_minProfit later_minSpread lead = Qualified L"
        by blast
      from qualifyLead_v2_Qualified [OF this] show ?thesis
        by blast
    next
      assume "\<exists>lead. qualifyLead_v2 encodeTitle later_resale later_minProfit later_minSpread lead
                = Unresearched L"
      then obtain lead where
        "qualifyLead_v2 encodeTitle later_resale later_minProfit later_minSpread lead
           = Unresearched L"
        by blast
      from qualifyLead_v2_Unresearched [OF this] show ?thesis
        by blast
    qed
  qed
  have later_deals_part:
    "\<forall>L \<in> set (filterDealFeedItems_v2 encodeTitle later_items later_minDiscount).
      q_sellPriceType L = Some estimated
      \<and> estimatedSpread L = sellPriceEstimate L - q_buyPrice L
      \<and> 0 < estimatedSpread L
      \<and> spreadPercent L \<ge> later_minDiscount"
  proof
    fix L
    assume "L \<in> set (filterDealFeedItems_v2 encodeTitle later_items later_minDiscount)"
    then obtain item where "qualifyDealItem_v2 encodeTitle later_minDiscount item = Some L"
      by (auto simp: filterDealFeedItems_v2_def dest: in_map_filterD)
    from qualifyDealItem_v2_Some [OF this]
    show "q_sellPriceType L = Some estimated
      \<and> estimatedSpread L = sellPriceEstimate L - q_buyPrice L
      \<and> 0 < estimatedSpread L
      \<and> spreadPercent L \<ge> later_minDiscount"
      by blast
  qed
  have later_run_part:
    "\<forall>L \<in> set (dealLeadsOfRun_v2 encodeTitle (getScoutConfig t userProfit userSpread userPairs)
                      later_items).
      estimatedSpread L = sellPriceEstimate L - q_buyPrice L
      \<and> 0 < estimatedSpread L
      \<and> spreadPercent L \<ge> 25
      \<and> spreadPercent L \<ge> minSpreadPercent (getScoutConfig t userProfit userSpread userPairs)"
  proof
    fix L
    assume mem: "L \<in> set (dealLeadsOfRun_v2 encodeTitle (getScoutConfig t userProfit userSpread userPairs)
                      later_items)"
    then have "dealLeadsOfRun_v2 encodeTitle (getScoutConfig t userProfit userSpread userPairs) later_items
        \<noteq> []"
      by auto
    then have t: "t = retail" by (rule dealLeadsOfRun_v2_retail_only)
    from mem obtain item where "qualifyDealItem_v2 encodeTitle 25 item = Some L"
      by (auto simp: dealLeadsOfRun_v2_def filterDealFeedItems_v2_def dest: in_map_filterD
          split: if_splits)
    from qualifyDealItem_v2_Some [OF this]
    have L: "estimatedSpread L = sellPriceEstimate L - q_buyPrice L" "0 < estimatedSpread L"
      "spreadPercent L \<ge> 25"
      by blast+
    have "minSpreadPercent (getScoutConfig t userProfit userSpread userPairs) = 20"
      by (simp add: t)
    with L(3) have "spreadPercent L \<ge> minSpreadPercent (getScoutConfig t userProfit userSpread userPairs)"
      by simp
    with L show "estimatedSpread L = sellPriceEstimate L - q_buyPrice L
      \<and> 0 < estimatedSpread L
      \<and> spreadPercent L \<ge> 25
      \<and> spreadPercent L \<ge> minSpreadPercent (getScoutConfig t userProfit userSpread userPairs)"
      by blast
  qed
  show ?thesis
    by (rule conjI [OF leads_part conjI [OF deals_part conjI [OF run_part
          conjI [OF later_leads_part conjI [OF later_deals_part later_run_part]]]]])
qed

lemma widgetDeal_leads:
  "map (\<lambda>L. (q_buyPrice L, sellPriceEstimate L, estimatedSpread L, spreadPercent L))
     (filterDealFeedItems (\<lambda>t. t) [widgetDeal] 25) = [(500, 1000, 500, 50)]"
  by (simp add: filterDealFeedItems_def List.map_filter_def
      sortBySpreadDesc_def widgetDeal_def qualifyDealItem_def extractDealPricePair_def
      dealPairOf_def pctOffPattern_def wasPattern_def seqs_def alts_def rxAmount_def
      rxSpaces_def rxOptSpace_def isAmountChar_def isDigit_def isSpace_def lowerChar_def
      parseDollar_def parseFloat_def digitsValue_def digitValue_def Math_round_def
      dealLead_def Let_def)

lemma widgetDeal_leads_v2:
  "map (\<lambda>L. (q_buyPrice L, sellPriceEstimate L, estimatedSpread L, spreadPercent L,
              q_sellPriceType L))
     (filterDealFeedItems_v2 (\<lambda>t. t) [widgetDeal] 25) = [(500, 1000, 500, 50, Some estimated)]"
  by code_simp

text \<open>
  Claim C1, as stated, fails on the deal-feed path. For the retail agent with its default
  configuration (\<open>minProfitCents = 1000\<close>) the feed item ``Widget $5 (was $10)'' becomes a
  qualified lead with buy price 500, sell estimate 1000 and \<open>estimatedSpread = 500\<close>,
  below \<open>minProfitCents\<close>; in the later revision of the filter the lead is the same and is
  marked \<open>estimated\<close>.
\<close>

theorem spread_qualification_counterexample:
  "map (\<lambda>L. (q_buyPrice L, sellPriceEstimate L, estimatedSpread L, spreadPercent L))
     (dealLeadsOfRun (\<lambda>t. t) (getScoutConfig retail None None None) [widgetDeal])
     = [(500, 1000, 500, 50)]
   \<and> map (\<lambda>L. (q_buyPrice L, sellPriceEstimate L, estimatedSpread L, spreadPercent L,
                q_sellPriceType L))
       (dealLeadsOfRun_v2 (\<lambda>t. t) (getScoutConfig retail None None None) [widgetDeal])
     = [(500, 1000, 500, 50, Some estimated)]
   \<and> minProfitCents (getScoutConfig retail None None None) = 1000"
  using widgetDeal_leads widgetDeal_leads_v2
  by (simp add: dealLeadsOfRun_def dealLeadsOfRun_v2_def orDefault_def)

lemma vacuum_qualifies:
  "map (\<lambda>L. (q_buyPrice L, sellPriceEstimate L, estimatedSpread L, spreadPercent L))
     (filterLeadsWithPriceData (\<lambda>t. t) [vacuumLead] vacuumResale 1000 15)
     = [(5000, 12000, 7000, 140)]"
  by (simp add: filterLeadsWithPriceData_def List.map_filter_def sortBySpreadDesc_def
      qualifyLead_def vacuumLead_def vacuumResale_def Let_def)

theorem spread_qualification_witness:
  "hd (filterLeadsWithPriceData (\<lambda>t. t) [vacuumLead] vacuumResale 1000 15)
      \<in> set (filterLeadsWithPriceData (\<lambda>t. t) [vacuumLead] vacuumResale 1000 15)
   \<and> 1000 \<le> estimatedSpread (hd (filterLeadsWithPriceData (\<lambda>t. t) [vacuumLead] vacuumResale 1000 15))
   \<and> 15 \<le> spreadPercent (hd (filterLeadsWithPriceData (\<lambda>t. t) [vacuumLead] vacuumResale 1000 15))
   \<and> hd (filterDealFeedItems (\<lambda>t. t) [widgetDeal] 25)
      \<in> set (filterDealFeedItems (\<lambda>t. t) [widgetDeal] 25)
   \<and> 25 \<le> spreadPercent (hd (filterDealFeedItems (\<lambda>t. t) [widgetDeal] 25))
   \<and> hd (dealLeadsOfRun (\<lambda>t. t) (getScoutConfig retail None None None) [widgetDeal])
      \<in> set (dealLeadsOfRun (\<lambda>t. t) (getScoutConfig retail None None None) [widgetDeal])
   \<and> 20 \<le> spreadPercent (hd (dealLeadsOfRun (\<lambda>t. t) (getScoutConfig retail None None None) [widgetDeal]))
   \<and> hd (filterLeadsWithPriceData_v2 (\<lambda>t. t) [mixerLead, vacuumLead] sampleResale_v2 1000 15)
      \<in> set (filterLeadsWithPriceData_v2 (\<lambda>t. t) [mixerLead, vacuumLead] sampleResale_v2 1000 15)
   \<and> q_sellPriceType
        (hd (filterLeadsWithPriceData_v2 (\<lambda>t. t) [mixerLead, vacuumLead] sampleResale_v2 1000 15))
      \<noteq> Some research_needed
   \<and> 1000 \<le> estimatedSpread
        (hd (filterLeadsWithPriceData_v2 (\<lambda>t. t) [mixerLead, vacuumLead] sampleResale_v2 1000 15))
   \<and> last (filterLeadsWithPriceData_v2 (\<lambda>t. t) [mixerLead, vacuumLead] sampleResale_v2 1000 15)
      \<in> set (filterLeadsWithPriceData_v2 (\<lambda>t. t) [mixerLead, vacuumLead] sampleResale_v2 1000 15)
   \<and> q_sellPriceType
        (last (filterLeadsWithPriceData_v2 (\<lambda>t. t) [mixerLead, vacuumLead] sampleResale_v2 1000 15))
      = Some research_needed
   \<and> estimatedSpread
        (last (filterLeadsWithPriceData_v2 (\<lambda>t. t) [mixerLead, vacuumLead] sampleResale_v2 1000 15))
      = 0
   \<and> hd (filterDealFeedItems_v2 (\<lambda>t. t) [blenderDeal] 35)
      \<in> set (filterDealFeedItems_v2 (\<lambda>t. t) [blenderDeal] 35)
   \<and> 35 \<le> spreadPercent (hd (filterDealFeedItems_v2 (\<lambda>t. t) [blenderDeal] 35))
   \<and> hd (dealLeadsOfRun_v2 (\<lambda>t. t) (getScoutConfig retail None None None) [blenderDeal])
      \<in> set (dealLeadsOfRun_v2 (\<lambda>t. t) (getScoutConfig retail None None None) [blenderDeal])
   \<and> 20 \<le> spreadPercent
              (hd (dealLeadsOfRun_v2 (\<lambda>t. t) (getScoutConfig retail None None None) [blenderDeal]))"
proof -
  let ?F1 = "filterLeadsWithPriceData (\<lambda>t. t) [vacuumLead] vacuumResale 1000 15"
  let ?F2 = "filterDealFeedItems (\<lambda>t. t) [widgetDeal] 25"
  let ?F3 = "dealLeadsOfRun (\<lambda>t. t) (getScoutConfig retail None None None) [widgetDeal]"
  let ?F4 = "filterLeadsWithPriceData_v2 (\<lambda>t. t) [mixerLead, vacuumLead] sampleResale_v2 1000 15"
  let ?F5 = "filterDealFeedItems_v2 (\<lambda>t. t) [blenderDeal] 35"
  let ?F6 = "dealLeadsOfRun_v2 (\<lambda>t. t) (getScoutConfig retail None None None) [blenderDeal]"
  have "?F1 \<noteq> []"
    using vacuum_qualifies by auto
  then have m1: "hd ?F1 \<in> set ?F1" by simp
  have "?F2 \<noteq> []"
    using widgetDeal_leads by auto
  then have m2: "hd ?F2 \<in> set ?F2" by simp
  have "?F3 = ?F2"
    by (simp add: dealLeadsOfRun_def)
  with m2 have m3: "hd ?F3 \<in> set ?F3" by simp
  have F4: "map q_sellPriceType ?F4 = [Some verified, Some research_needed]"
    using sample_leads_v2 [THEN arg_cong, of "map (\<lambda>p. snd (snd (snd (snd p))))"]
    by (simp add: comp_def)
  then have ne4: "?F4 \<noteq> []"
    by auto
  then have m4: "hd ?F4 \<in> set ?F4" and m4': "last ?F4 \<in> set ?F4"
    by simp_all
  from F4 ne4 have t4: "q_sellPriceType (hd ?F4) \<noteq> Some research_needed"
    by (metis SellPriceType.distinct(3) list.sel(1) hd_map option.inject)
  from F4 ne4 have t4': "q_sellPriceType (last ?F4) = Some research_needed"
    by (metis last_map last.simps list.distinct(1))
  have "?F5 \<noteq> []"
    using blenderDeal_leads by auto
  then have m5: "hd ?F5 \<in> set ?F5" by simp
  have "?F6 \<noteq> []"
    using blenderDeal_run_leads by (auto simp: dealLeadsOfRun_v2_def)
  then have m6: "hd ?F6 \<in> set ?F6" by simp
  note inst = spread_qualification [where encodeTitle = "\<lambda>t. t" and leads = "[vacuumLead]"
      and resalePriceData = vacuumResale and minProfit = 1000 and minSpread = 15
      and items = "[widgetDeal]" and minDiscount = 25 and t = retail
      and userProfit = None and userSpread = None and userPairs = None
      and later_leads = "[mixerLead, vacuumLead]" and later_resale = sampleResale_v2
      and later_minProfit = 1000 and later_minSpread = 15
      and later_items = "[blenderDeal]" and later_minDiscount = 35]
  from inst m1 have "1000 \<le> estimatedSpread (hd ?F1) \<and> 15 \<le> spreadPercent (hd ?F1)"
    by blast
  moreover from inst m2 have "25 \<le> spreadPercent (hd ?F2)"
    by blast
  moreover from inst m3 have "minSpreadPercent (getScoutConfig retail None None None) \<le> spreadPercent (hd ?F3)"
    by blast
  then have "20 \<le> spreadPercent (hd ?F3)"
    by simp
  moreover from inst m4 t4 have "1000 \<le> estimatedSpread (hd ?F4)"
    by blast
  moreover from inst m4' t4' have "estimatedSpread (last ?F4) = 0"
    by blast
  moreover from inst m5 have "35 \<le> spreadPercent (hd ?F5)"
    by blast
  moreover from inst m6
  have "minSpreadPercent (getScoutConfig retail None None None) \<le> spreadPercent (hd ?F6)"
    by blast
  then have "20 \<le> spreadPercent (hd ?F6)"
    by simp
  ultimately show ?thesis
    using m1 m2 m3 m4 m4' t4 t4' m5 m6 by blast
qed

subsection \<open>Parsing the model's opportunities\<close>

lemma keepOpportunity_True_iff: "keepOpportunity obj = Inr True \<longleftrightarrow> hasFields obj"
  by (cases obj) (auto simp: keepOpportunity_def hasFields_def jsProp_def truthyProp_def)

lemma keepOpportunity_Inl_iff: "(\<exists>err. keepOpportunity obj = Inl err) \<longleftrightarrow> obj = JNull"
  by (auto simp: keepOpportunity_def)

lemma filterOpportunities_Inr:
  "filterOpportunities objs = Inr kept \<Longrightarrow>
     JNull \<notin> set objs \<and> kept = filter (\<lambda>obj. keepOpportunity obj = Inr True) objs"
proof (induction objs arbitrary: kept)
  case Nil
  then show ?case by simp
next
  case (Cons obj objs)
  from Cons.prems obtain keep rest where k: "keepOpportunity obj = Inr keep"
    and r: "filterOpportunities objs = Inr rest"
    and kept: "kept = (if keep then obj # rest else rest)"
    by (auto split: sum.splits)
  from k have "obj \<noteq> JNull" by (auto simp: keepOpportunity_def)
  with Cons.IH [OF r] k kept show ?case by auto
qed

lemma filterOpportunities_total:
  "JNull \<notin> set objs \<Longrightarrow>
     filterOpportunities objs = Inr (filter (\<lambda>obj. keepOpportunity obj = Inr True) objs)"
  by (induction objs) (auto simp: keepOpportunity_def)

lemma filterOpportunities_throws:
  "JNull \<in> set objs \<Longrightarrow> filterOpportunities objs = Inl TypeError"
  by (induction objs) (auto simp: keepOpportunity_def split: sum.splits)

lemma jsProp_withSellPriceType:
  "jsProp (withSellPriceType (JObject kvs)) key =
     (if key = ''sellPriceType''
      then Some (case map_of kvs ''sellPriceType'' of
                   None \<Rightarrow> JString ''estimated''
                 | Some v \<Rightarrow> if truthy v then v else JString ''estimated'')
      else map_of kvs key)"
  by (simp add: withSellPriceType_def jsProp_def AList.update_conv')

lemma hasFields_object: "hasFields obj \<Longrightarrow> \<exists>kvs. obj = JObject kvs"
  by (cases obj) (auto simp: hasFields_def jsProp_def truthyProp_def)

lemma hasFields_withSellPriceType: "hasFields (withSellPriceType obj) \<longleftrightarrow> hasFields obj"
proof (cases obj)
  case (JObject kvs)
  then show ?thesis
    by (simp add: hasFields_def jsProp_withSellPriceType) (simp add: jsProp_def)
qed (auto simp: hasFields_def withSellPriceType_def jsProp_def truthyProp_def)

lemma sellPriceType_truthy: "truthyProp (jsProp (withSellPriceType obj) ''sellPriceType'')"
  by (cases obj)
    (auto simp: withSellPriceType_def jsProp_def truthyProp_def AList.update_conv'
      split: option.splits)

lemma parseOpportunities_array:
  assumes "rxSearch False opportunitiesPattern (extractReasoning response) = Some [block]"
    and "JSON_parse block = Some (JArray objs)"
  shows "parseOpportunities JSON_parse response =
     (if JNull \<in> set objs then []
      else map withSellPriceType (filter (\<lambda>obj. keepOpportunity obj = Inr True) objs))"
  using assms
  by (simp add: parseOpportunities_def filterOpportunities_total filterOpportunities_throws)

lemma parseOpportunities_from_array:
  assumes "r \<in> set (parseOpportunities JSON_parse response)"
  shows "\<exists>block objs obj. rxSearch False opportunitiesPattern (extractReasoning response) = Some [block]
     \<and> JSON_parse block = Some (JArray objs) \<and> obj \<in> set objs \<and> hasFields obj
     \<and> r = withSellPriceType obj"
proof -
  from assms have ne: "parseOpportunities JSON_parse response \<noteq> []" by auto
  then have "\<exists>block. rxSearch False opportunitiesPattern (extractReasoning response) = Some [block]"
    by (auto simp: parseOpportunities_def split: option.splits list.splits)
  then obtain block
    where b: "rxSearch False opportunitiesPattern (extractReasoning response) = Some [block]"
    by blast
  from ne b have "\<exists>objs. JSON_parse block = Some (JArray objs)"
    by (auto simp: parseOpportunities_def split: option.splits json.splits)
  then obtain objs where o: "JSON_parse block = Some (JArray objs)"
    by blast
  from assms parseOpportunities_array [of response block JSON_parse objs, OF b o]
  obtain obj where "obj \<in> set objs" "keepOpportunity obj = Inr True" "r = withSellPriceType obj"
    by (auto split: if_splits)
  with b o show ?thesis
    by (auto simp: keepOpportunity_True_iff)
qed


text \<open>
  Claim C10. Every element returned by \<open>parseOpportunities\<close> has a truthy \<open>title\<close>,
  \<open>buySource\<close> and \<open>sellSource\<close>, numeric \<open>buyPrice\<close> and \<open>sellPrice\<close>, and a truthy
  \<open>sellPriceType\<close>. When the block parses to an array without a \<open>null\<close> element, the
  result is the elements that have the five fields, in order, each with \<open>sellPriceType\<close>
  set to its own truthy value or else to \<open>estimated\<close> and every other property unchanged;
  an element lacking a field is not in the result. An array with a \<open>null\<close> element gives
  the empty list (the \<open>TypeError\<close> is caught), and so does a parsed value that is not an
  array.
\<close>

theorem parseOpportunities_elements:
  "(\<forall>r \<in> set (parseOpportunities JSON_parse response).
      hasFields r \<and> truthyProp (jsProp r ''sellPriceType''))
   \<and> (rxSearch False opportunitiesPattern (extractReasoning response) = Some [block]
        \<and> JSON_parse block = Some parsed \<longrightarrow>
        (case parsed of
           JArray objs \<Rightarrow>
             (JNull \<notin> set objs \<longrightarrow>
                parseOpportunities JSON_parse response
                  = map withSellPriceType (filter hasFields objs))
             \<and> (JNull \<in> set objs \<longrightarrow> parseOpportunities JSON_parse response = [])
             \<and> (\<forall>obj \<in> set objs. \<not> hasFields obj \<longrightarrow>
                   obj \<notin> set (parseOpportunities JSON_parse response)
                   \<and> withSellPriceType obj \<notin> set (parseOpportunities JSON_parse response))
         | _ \<Rightarrow> parseOpportunities JSON_parse response = []))
   \<and> jsProp (withSellPriceType (JObject kvs)) ''sellPriceType''
        = Some (case map_of kvs ''sellPriceType'' of
                  None \<Rightarrow> JString ''estimated''
                | Some v \<Rightarrow> if truthy v then v else JString ''estimated'')
   \<and> (key \<noteq> ''sellPriceType'' \<longrightarrow>
        jsProp (withSellPriceType (JObject kvs)) key = jsProp (JObject kvs) key)"
proof -
  have elems: "\<forall>r \<in> set (parseOpportunities JSON_parse response).
      hasFields r \<and> truthyProp (jsProp r ''sellPriceType'')"
  proof
    fix r
    assume "r \<in> set (parseOpportunities JSON_parse response)"
    from parseOpportunities_from_array [OF this]
    obtain obj where "hasFields obj" "r = withSellPriceType obj"
      by blast
    then show "hasFields r \<and> truthyProp (jsProp r ''sellPriceType'')"
      by (simp add: hasFields_withSellPriceType sellPriceType_truthy)
  qed
  have shape: "rxSearch False opportunitiesPattern (extractReasoning response) = Some [block]
        \<and> JSON_parse block = Some parsed \<longrightarrow>
        (case parsed of
           JArray objs \<Rightarrow>
             (JNull \<notin> set objs \<longrightarrow>
                parseOpportunities JSON_parse response
                  = map withSellPriceType (filter hasFields objs))
             \<and> (JNull \<in> set objs \<longrightarrow> parseOpportunities JSON_parse response = [])
             \<and> (\<forall>obj \<in> set objs. \<not> hasFields obj \<longrightarrow>
                   obj \<notin> set (parseOpportunities JSON_parse response)
                   \<and> withSellPriceType obj \<notin> set (parseOpportunities JSON_parse response))
         | _ \<Rightarrow> parseOpportunities JSON_parse response = [])"
  proof
    assume h: "rxSearch False opportunitiesPattern (extractReasoning response) = Some [block]
        \<and> JSON_parse block = Some parsed"
    show "case parsed of
           JArray objs \<Rightarrow>
             (JNull \<notin> set objs \<longrightarrow>
                parseOpportunities JSON_parse response
                  = map withSellPriceType (filter hasFields objs))
             \<and> (JNull \<in> set objs \<longrightarrow> parseOpportunities JSON_parse response = [])
             \<and> (\<forall>obj \<in> set objs. \<not> hasFields obj \<longrightarrow>
                   obj \<notin> set (parseOpportunities JSON_parse response)
                   \<and> withSellPriceType obj \<notin> set (parseOpportunities JSON_parse response))
         | _ \<Rightarrow> parseOpportunities JSON_parse response = []"
    proof (cases parsed)
      case (JArray objs)
      from h JArray
      have arr: "parseOpportunities JSON_parse response =
         (if JNull \<in> set objs then []
          else map withSellPriceType (filter hasFields objs))"
        using parseOpportunities_array [of response block JSON_parse objs]
        by (simp add: keepOpportunity_True_iff)
      have "\<forall>obj \<in> set objs. \<not> hasFields obj \<longrightarrow>
                   obj \<notin> set (parseOpportunities JSON_parse response)
                   \<and> withSellPriceType obj \<notin> set (parseOpportunities JSON_parse response)"
        using elems hasFields_withSellPriceType by blast
      with arr show ?thesis
        by (simp add: JArray)
    qed (use h in \<open>simp_all add: parseOpportunities_def\<close>)
  qed
  have dflt: "jsProp (withSellPriceType (JObject kvs)) ''sellPriceType''
        = Some (case map_of kvs ''sellPriceType'' of
                  None \<Rightarrow> JString ''estimated''
                | Some v \<Rightarrow> if truthy v then v else JString ''estimated'')"
    by (simp add: jsProp_withSellPriceType)
  have keep: "key \<noteq> ''sellPriceType'' \<longrightarrow>
        jsProp (withSellPriceType (JObject kvs)) key = jsProp (JObject kvs) key"
    by (simp add: jsProp_withSellPriceType) (simp add: jsProp_def)
  show ?thesis
    by (rule conjI [OF elems conjI [OF shape conjI [OF dflt keep]]])
qed

lemma sampleResponse_block:
  "rxSearch False opportunitiesPattern (extractReasoning sampleResponse) = Some [sampleBlock]"
  by (simp add: sampleResponse_def textResponse_def extractReasoning_def opportunitiesPattern_def
      seqs_def rxSpaces_def isSpace_def sampleBlock_def)


theorem parseOpportunities_elements_witness:
  "rxSearch False opportunitiesPattern (extractReasoning sampleResponse) = Some [sampleBlock]
   \<and> sampleParse sampleBlock = Some sampleParsed
   \<and> parseOpportunities sampleParse sampleResponse
       = [JObject [(''title'', JString ''Lamp''), (''buyPrice'', JNumber 500),
                   (''sellPrice'', JNumber 1500), (''buySource'', JString ''Craigslist''),
                   (''sellSource'', JString ''eBay''), (''sellPriceType'', JString ''estimated'')]]
   \<and> hasFields (hd (parseOpportunities sampleParse sampleResponse))"
proof -
  have p: "sampleParse sampleBlock = Some sampleParsed"
    by (simp add: sampleParse_def)
  note inst = parseOpportunities_elements [of sampleParse sampleResponse sampleBlock sampleParsed
      "[]" "''title''"]
  note elems = inst [THEN conjunct1]
  note shape = inst [THEN conjunct2, THEN conjunct1, THEN mp, OF conjI [OF sampleResponse_block p]]
  have nonull: "JNull \<notin> set [JObject [(''title'', JString ''Lamp''), (''buyPrice'', JNumber 500),
                    (''sellPrice'', JNumber 1500), (''buySource'', JString ''Craigslist''),
                    (''sellSource'', JString ''eBay'')],
           JObject [(''title'', JString ''Chair''), (''buySource'', JString ''Craigslist'')]]"
    by simp
  from shape [unfolded sampleParsed_def json.case, THEN conjunct1, THEN mp, OF nonull]
  have val: "parseOpportunities sampleParse sampleResponse
       = [JObject [(''title'', JString ''Lamp''), (''buyPrice'', JNumber 500),
                   (''sellPrice'', JNumber 1500), (''buySource'', JString ''Craigslist''),
                   (''sellSource'', JString ''eBay''), (''sellPriceType'', JString ''estimated'')]]"
    by (simp add: hasFields_def jsProp_def truthyProp_def isNumberProp_def withSellPriceType_def)
  then have "hd (parseOpportunities sampleParse sampleResponse)
      \<in> set (parseOpportunities sampleParse sampleResponse)"
    by simp
  from elems [THEN bspec, OF this, THEN conjunct1]
  have "hasFields (hd (parseOpportunities sampleParse sampleResponse))" .
  with sampleResponse_block p val show ?thesis
    by (intro conjI)
qed

subsection \<open>The snipe loop and the run\<close>

lemma executeToolCalls_counts:
  "toolCallsUsed (fst (executeToolCalls env blocks (st, results)))
     = toolCallsUsed st + length blocks
   \<and> searched (fst (executeToolCalls env blocks (st, results)))
     = searched st @ map (\<lambda>b. case tool_product_name b of None \<Rightarrow> [] | Some n \<Rightarrow> n) blocks
   \<and> claudeCalls (fst (executeToolCalls env blocks (st, results))) = claudeCalls st
   \<and> sumInputTokens (fst (executeToolCalls env blocks (st, results))) = sumInputTokens st
   \<and> sumOutputTokens (fst (executeToolCalls env blocks (st, results))) = sumOutputTokens st"
  by (induction blocks arbitrary: st results) (simp_all add: Let_def)

text \<open>One iteration of the loop, written out.\<close>

lemma snipeLoop_Suc:
  fixes agent :: string and n :: nat
  assumes "callClaude env (messages st) (hasTools \<and> toolCallsUsed st < maxToolCalls) = Inr response"
  defines "st1 \<equiv> st\<lparr>claudeCalls := claudeCalls st + 1,
                        sumInputTokens := sumInputTokens st + input_tokens (response_usage response),
                        sumOutputTokens := sumOutputTokens st + output_tokens (response_usage response),
                        storedUsage := recordUsage (todayUTC env) (nowISO env) agent
                          (input_tokens (response_usage response))
                          (output_tokens (response_usage response)) 0 (storedUsage st)\<rparr>"
  defines "blocks \<equiv> filter (\<lambda>b. block_type b = ToolUse) (response_content response)"
  defines "st2 \<equiv> st1\<lparr>messages := messages st1 @
                             [\<lparr>role = assistant,
                               message_content = BlockContent (response_content response)\<rparr>]\<rparr>"
  defines "executed \<equiv> executeToolCalls env blocks (st2, [])"
  defines "st4 \<equiv> (fst executed)\<lparr>messages := messages (fst executed) @
                             [\<lparr>role = user, message_content = BlockContent (snd executed)\<rparr>]\<rparr>"
  shows "snipeLoop env agent hasTools (Suc n) st =
     (if blocks = [] \<or> maxToolCalls \<le> toolCallsUsed st then Inr (Some response, st1)
      else snipeLoop env agent hasTools n st4)"
    and "toolCallsUsed st4 = toolCallsUsed st + length blocks"
    and "length (searched st4) = length (searched st) + length blocks"
    and "claudeCalls st4 = claudeCalls st + 1"
proof -
  show "snipeLoop env agent hasTools (Suc n) st =
     (if blocks = [] \<or> maxToolCalls \<le> toolCallsUsed st then Inr (Some response, st1)
      else snipeLoop env agent hasTools n st4)"
    using assms(1)
    by (simp add: Let_def split_beta st1_def blocks_def st2_def executed_def st4_def)
  have c: "toolCallsUsed (fst executed) = toolCallsUsed st2 + length blocks"
    "searched (fst executed) = searched st2 @ map (\<lambda>b. case tool_product_name b of None \<Rightarrow> [] | Some n \<Rightarrow> n) blocks"
    "claudeCalls (fst executed) = claudeCalls st2"
    unfolding executed_def using executeToolCalls_counts [of env blocks st2 "[]"] by simp_all
  show "toolCallsUsed st4 = toolCallsUsed st + length blocks"
    by (simp add: st4_def c st2_def st1_def)
  show "length (searched st4) = length (searched st) + length blocks"
    by (simp add: st4_def c st2_def st1_def)
  show "claudeCalls st4 = claudeCalls st + 1"
    by (simp add: st4_def c st2_def st1_def)
qed

text \<open>
  The loop never leaves \<open>finalResponse\<close> null: while it continues, every iteration runs
  at least one tool call, so the cap on \<open>toolCallsUsed\<close> is reached before the loop
  counter runs out.
\<close>

lemma snipeLoop_final_response:
  assumes "snipeLoop env agent hasTools n st = Inr (final, st')"
    and "0 < n" and "maxToolCalls < toolCallsUsed st + n"
  shows "final \<noteq> None"
  using assms
proof (induction n arbitrary: st)
  case 0
  then show ?case by simp
next
  case (Suc n)
  show ?case
  proof (cases "callClaude env (messages st) (hasTools \<and> toolCallsUsed st < maxToolCalls)")
    case (Inl err)
    with Suc.prems(1) show ?thesis by simp
  next
    case (Inr response)
    note step = snipeLoop_Suc [where agent = agent, OF Inr]
    let ?blocks = "filter (\<lambda>b. block_type b = ToolUse) (response_content response)"
    show ?thesis
    proof (cases "?blocks = [] \<or> maxToolCalls \<le> toolCallsUsed st")
      case True
      with Suc.prems(1) step(1) show ?thesis by auto
    next
      case False
      then have more: "0 < length ?blocks" and below: "toolCallsUsed st < maxToolCalls"
        by auto
      from False Suc.prems(1) step(1)
      obtain st4 where rec: "snipeLoop env agent hasTools n st4 = Inr (final, st')"
        and used: "toolCallsUsed st4 = toolCallsUsed st + length ?blocks"
        using step(2) by (auto simp: Let_def)
      from below Suc.prems(3) have "0 < n" by simp
      moreover from used more Suc.prems(3) have "maxToolCalls < toolCallsUsed st4 + n"
        by linarith
      ultimately show ?thesis
        using Suc.IH [OF rec] by simp
    qed
  qed
qed

lemma snipeLoop_counts:
  assumes "snipeLoop env agent hasTools n st = Inr (final, st')"
  shows "claudeCalls st' \<le> claudeCalls st + n
     \<and> length (searched st') + toolCallsUsed st = length (searched st) + toolCallsUsed st'"
  using assms
proof (induction n arbitrary: st)
  case 0
  then show ?case by simp
next
  case (Suc n)
  show ?case
  proof (cases "callClaude env (messages st) (hasTools \<and> toolCallsUsed st < maxToolCalls)")
    case (Inl err)
    with Suc.prems show ?thesis by simp
  next
    case (Inr response)
    note step = snipeLoop_Suc [where agent = agent, OF Inr]
    let ?blocks = "filter (\<lambda>b. block_type b = ToolUse) (response_content response)"
    show ?thesis
    proof (cases "?blocks = [] \<or> maxToolCalls \<le> toolCallsUsed st")
      case True
      with Suc.prems step(1) show ?thesis by auto
    next
      case False
      from False Suc.prems step(1)
      obtain st4 where rec: "snipeLoop env agent hasTools n st4 = Inr (final, st')"
        and used: "toolCallsUsed st4 = toolCallsUsed st + length ?blocks"
        and srch: "length (searched st4) = length (searched st) + length ?blocks"
        and calls: "claudeCalls st4 = claudeCalls st + 1"
        using step(2,3,4) by (auto simp: Let_def)
      from Suc.IH [OF rec] used srch calls show ?thesis
        by linarith
    qed
  qed
qed

text \<open>If no response asks for more than one search, the cap of five tool calls holds.\<close>

lemma snipeLoop_single_requests:
  assumes "snipeLoop env agent hasTools n st = Inr (final, st')"
    and "\<forall>history offered response. callClaude env history offered = Inr response \<longrightarrow>
           length (filter (\<lambda>b. block_type b = ToolUse) (response_content response)) \<le> 1"
    and "toolCallsUsed st \<le> maxToolCalls"
  shows "toolCallsUsed st' \<le> maxToolCalls"
  using assms(1,3)
proof (induction n arbitrary: st)
  case 0
  then show ?case by simp
next
  case (Suc n)
  show ?case
  proof (cases "callClaude env (messages st) (hasTools \<and> toolCallsUsed st < maxToolCalls)")
    case (Inl err)
    with Suc.prems show ?thesis by simp
  next
    case (Inr response)
    note step = snipeLoop_Suc [where agent = agent, OF Inr]
    let ?blocks = "filter (\<lambda>b. block_type b = ToolUse) (response_content response)"
    from assms(2) Inr have one: "length ?blocks \<le> 1" by blast
    show ?thesis
    proof (cases "?blocks = [] \<or> maxToolCalls \<le> toolCallsUsed st")
      case True
      with Suc.prems step(1) show ?thesis by auto
    next
      case False
      from False Suc.prems(1) step(1)
      obtain st4 where rec: "snipeLoop env agent hasTools n st4 = Inr (final, st')"
        and used: "toolCallsUsed st4 = toolCallsUsed st + length ?blocks"
        using step(2) by (auto simp: Let_def)
      from False used one have "toolCallsUsed st4 \<le> maxToolCalls" by linarith
      from Suc.IH [OF rec this] show ?thesis .
    qed
  qed
qed

text \<open>
  Claim C5 against the code. The loop is terminal: it makes at most six calls of the
  model and, unless a call throws, always ends with a final response. But the cap of five
  is tested once per response, before the searches that the response asks for are run. For
  a run with one lead whose sell price is estimated (so that the tool is offered), in
  which the model's first response holds six tool-use blocks and its second is plain text,
  all six searches are executed: \<open>toolCallsUsed\<close> ends at 6 and the result reports
  1 + 6 tool calls, while \<open>maxToolCalls\<close> is 5.
\<close>

theorem six_searches_in_one_response:
  "(case snipeLoop sixSearchesEnv (agentTypeName retail)
           (needsResearchOf (allQualifiedOf oneLeadScout) > 0) (maxToolCalls + 1)
           (snipeStart None (plainPrompt (allQualifiedOf oneLeadScout))) of
      Inl thrown \<Rightarrow> None
    | Inr (final, st) \<Rightarrow>
        Some (toolCallsUsed st, searched st, claudeCalls st, map_option extractReasoning final))
   = Some (6, [''Tiffany lamp'', ''Dyson V8'', ''Aeron chair'', ''Nintendo Switch'',
               ''KitchenAid mixer'', ''AirPods Pro''], 2, Some ''Nothing verified.'')
   \<and> maxToolCalls = 5
   \<and> totalToolCalls (runScoutThenSnipe sixSearchesEnv retail (getScoutConfig retail None None None)
         DEFAULT_BUDGET None plainPrompt oneLeadScout) = 7"
  by (simp add: sixSearchesEnv_def replyingEnv_def sixSearches_def searchRequest_def
      textResponse_def snipeStart_def needsResearchOf_def allQualifiedOf_def oneLeadScout_def
      lampLead_def maxToolCalls_def eval_nat_numeral extractReasoning_def
      runScoutThenSnipe_def takesCryptoPath_def checkBudget_def readUsage_def freshUsage_def
      DEFAULT_BUDGET_def Let_def split_beta)

lemma allQualifiedOf_empty:
  "allQualifiedOf scout = [] \<Longrightarrow>
     qualifiedLeads scout = [] \<and> dealLeads scout = [] \<and> bookQualifiedLeads scout = []
     \<and> collectiblesDirectLeads scout = []"
  by (auto simp: allQualifiedOf_def take_eq_Nil)

text \<open>
  The crypto short-circuit. A configuration takes it exactly when it is the crypto
  agent's. With the two quotes of the specification's example (100 and 101 dollars for one
  pair, threshold 0.5 percent) \<open>findCryptoSpreads\<close> reports the one spread of 1 percent,
  and the run returns the opportunity built from it. With two level quotes it reports
  none, and the run returns no opportunity and a reasoning that gives the number of pairs
  checked. Neither run calls the model.
\<close>

lemma takesCryptoPath_iff:
  "takesCryptoPath (getScoutConfig t userProfit userSpread userPairs) \<longleftrightarrow> t = crypto"
  by (cases t) (simp_all add: takesCryptoPath_def)

lemma findCryptoSpreads_spec_example:
  "findCryptoSpreads spreadQuotes (1 / 2) = [onePercentSpread]"
  "findCryptoSpreads levelQuotes (15 / 100) = []"
  by (simp_all add: findCryptoSpreads_def distinctInOrder_def spreadBetween_def spreadQuotes_def
      levelQuotes_def onePercentSpread_def Let_def)

lemma crypto_run_with_spread:
  "runScoutThenSnipe plainReplyEnv crypto (getScoutConfig crypto None (Some (1 / 2)) None)
     DEFAULT_BUDGET None plainPrompt (cryptoScout spreadQuotes)
   = \<lparr>success = True,
      opportunities = [opportunityJson (buildCryptoOpportunity onePercentSpread)],
      result_reasoning =
        ''Found 1 cross-exchange spreads by comparing live prices from Binance, Kraken.'',
      totalInputTokens = 0, totalOutputTokens = 0, totalToolCalls = 0, estimatedCost = 0,
      scoutStats = \<lparr>leadsFound = 2, leadsQualified = 1,
                     sourcesChecked = [''Binance API'', ''Coinbase API'', ''Kraken API''],
                     diagnostics = Some []\<rparr>,
      result_error = None, abortReason = None\<rparr>"
proof -
  have "distinctInOrder (map quote_exchange spreadQuotes) = [''Binance'', ''Kraken'']"
    and "length spreadQuotes = 2"
    by (simp_all add: distinctInOrder_def spreadQuotes_def)
  then show ?thesis
    by (simp add: runScoutThenSnipe_def takesCryptoPath_def cryptoRun_def cryptoScout_def
        orDefault_def findCryptoSpreads_spec_example buildCryptoOpportunities_def
        decimal.simps digitChar_def Let_def)
qed

lemma crypto_run_without_spread:
  "runScoutThenSnipe plainReplyEnv crypto (getScoutConfig crypto None None None)
     DEFAULT_BUDGET None plainPrompt (cryptoScout levelQuotes)
   = \<lparr>success = True,
      opportunities = [],
      result_reasoning =
        ''Checked 22 pairs across 3 exchanges. No spreads exceeding 0.15% found at this time.'',
      totalInputTokens = 0, totalOutputTokens = 0, totalToolCalls = 0, estimatedCost = 0,
      scoutStats = \<lparr>leadsFound = 2, leadsQualified = 0,
                     sourcesChecked = [''Binance API'', ''Coinbase API'', ''Kraken API''],
                     diagnostics = Some []\<rparr>,
      result_error = None, abortReason = None\<rparr>"
proof -
  have "length levelQuotes = 2"
    by (simp add: levelQuotes_def)
  moreover have "findCryptoSpreads levelQuotes (3 / 20) = []"
    using findCryptoSpreads_spec_example(2) by simp
  ultimately show ?thesis
    by (simp add: runScoutThenSnipe_def takesCryptoPath_def cryptoRun_def cryptoScout_def
        orDefault_def findCryptoSpreads_spec_example defaultCryptoPairs_def
        plainReplyEnv_def replyingEnv_def sampleNumberText_def
        decimal.simps digitChar_def Let_def)
qed

text \<open>
  Claim C6. In a run that reaches the filter, that is, whose configuration does not take
  the crypto short-circuit, and in which the merged list of qualified leads is empty,
  \<open>runScoutThenSnipe\<close> returns \<open>success = true\<close>, no opportunities, and a non-empty
  reasoning text that starts with ``Scouted'' followed by the number of leads scouted (all
  leads plus book leads), which is also the \<open>leadsFound\<close> of the result; the token totals,
  the tool calls and the cost are zero and neither \<open>error\<close> nor \<open>abortReason\<close> is set. The
  result is the same whatever the model, the search tool, the budget and the ledger are:
  none of them is consulted.
\<close>

theorem zero_qualified_leads:
  "\<not> takesCryptoPath agentConfig \<and> allQualifiedOf scout = [] \<longrightarrow>
     success (runScoutThenSnipe env agent agentConfig budgetConfig stored snipeMessage scout)
     \<and> opportunities (runScoutThenSnipe env agent agentConfig budgetConfig stored snipeMessage scout) = []
     \<and> result_reasoning (runScoutThenSnipe env agent agentConfig budgetConfig stored snipeMessage scout) \<noteq> []
     \<and> (\<exists>rest. result_reasoning
                  (runScoutThenSnipe env agent agentConfig budgetConfig stored snipeMessage scout)
                = ''Scouted '' @ decimal (totalLeadsOf scout) @ '' leads across '' @ rest)
     \<and> totalLeadsOf scout = allLeadsCount scout + bookLeadsCount scout
     \<and> leadsFound (scoutStats
           (runScoutThenSnipe env agent agentConfig budgetConfig stored snipeMessage scout))
         = totalLeadsOf scout
     \<and> leadsQualified (scoutStats
           (runScoutThenSnipe env agent agentConfig budgetConfig stored snipeMessage scout)) = 0
     \<and> totalInputTokens (runScoutThenSnipe env agent agentConfig budgetConfig stored snipeMessage scout) = 0
     \<and> totalOutputTokens (runScoutThenSnipe env agent agentConfig budgetConfig stored snipeMessage scout) = 0
     \<and> totalToolCalls (runScoutThenSnipe env agent agentConfig budgetConfig stored snipeMessage scout) = 0
     \<and> result_error (runScoutThenSnipe env agent agentConfig budgetConfig stored snipeMessage scout) = None
     \<and> abortReason (runScoutThenSnipe env agent agentConfig budgetConfig stored snipeMessage scout) = None
     \<and> runScoutThenSnipe env' agent agentConfig budgetConfig' stored' snipeMessage' scout
         = runScoutThenSnipe env agent agentConfig budgetConfig stored snipeMessage scout"
proof
  assume h: "\<not> takesCryptoPath agentConfig \<and> allQualifiedOf scout = []"
  then have empty: "allQualifiedOf scout = []" and path: "\<not> takesCryptoPath agentConfig"
    by simp_all
  from allQualifiedOf_empty [OF empty] have "totalLeadsOf scout = allLeadsCount scout + bookLeadsCount scout"
    by (simp add: totalLeadsOf_def)
  with empty path
  show "success (runScoutThenSnipe env agent agentConfig budgetConfig stored snipeMessage scout)
     \<and> opportunities (runScoutThenSnipe env agent agentConfig budgetConfig stored snipeMessage scout) = []
     \<and> result_reasoning (runScoutThenSnipe env agent agentConfig budgetConfig stored snipeMessage scout) \<noteq> []
     \<and> (\<exists>rest. result_reasoning
                  (runScoutThenSnipe env agent agentConfig budgetConfig stored snipeMessage scout)
                = ''Scouted '' @ decimal (totalLeadsOf scout) @ '' leads across '' @ rest)
     \<and> totalLeadsOf scout = allLeadsCount scout + bookLeadsCount scout
     \<and> leadsFound (scoutStats
           (runScoutThenSnipe env agent agentConfig budgetConfig stored snipeMessage scout))
         = totalLeadsOf scout
     \<and> leadsQualified (scoutStats
           (runScoutThenSnipe env agent agentConfig budgetConfig stored snipeMessage scout)) = 0
     \<and> totalInputTokens (runScoutThenSnipe env agent agentConfig budgetConfig stored snipeMessage scout) = 0
     \<and> totalOutputTokens (runScoutThenSnipe env agent agentConfig budgetConfig stored snipeMessage scout) = 0
     \<and> totalToolCalls (runScoutThenSnipe env agent agentConfig budgetConfig stored snipeMessage scout) = 0
     \<and> result_error (runScoutThenSnipe env agent agentConfig budgetConfig stored snipeMessage scout) = None
     \<and> abortReason (runScoutThenSnipe env agent agentConfig budgetConfig stored snipeMessage scout) = None
     \<and> runScoutThenSnipe env' agent agentConfig budgetConfig' stored' snipeMessage' scout
         = runScoutThenSnipe env agent agentConfig budgetConfig stored snipeMessage scout"
    by (simp add: runScoutThenSnipe_def Let_def)
qed

theorem zero_qualified_leads_witness:
  "\<not> takesCryptoPath (getScoutConfig listings None None None)
   \<and> allQualifiedOf emptyHandedScout = []
   \<and> success (runScoutThenSnipe sixSearchesEnv listings (getScoutConfig listings None None None)
        DEFAULT_BUDGET None plainPrompt emptyHandedScout)
   \<and> totalInputTokens (runScoutThenSnipe sixSearchesEnv listings (getScoutConfig listings None None None)
        DEFAULT_BUDGET None plainPrompt emptyHandedScout) = 0
   \<and> leadsFound (scoutStats (runScoutThenSnipe sixSearchesEnv listings
        (getScoutConfig listings None None None) DEFAULT_BUDGET None plainPrompt emptyHandedScout))
       = 12
   \<and> result_reasoning (runScoutThenSnipe sixSearchesEnv listings (getScoutConfig listings None None None)
        DEFAULT_BUDGET None plainPrompt emptyHandedScout)
      = ''Scouted 12 leads across Craigslist RSS (5 cities), Tavily Search. ''
        @ ''No leads passed the minimum profit threshold of $10. ''
        @ ''Source issues: craigslist: blocked (HTTP 403)''"
proof -
  have c: "\<not> takesCryptoPath (getScoutConfig listings None None None)"
    by (simp add: takesCryptoPath_def)
  have e: "allQualifiedOf emptyHandedScout = []"
    by (simp add: allQualifiedOf_def emptyHandedScout_def)
  have t: "totalLeadsOf emptyHandedScout = 12"
    by (simp add: totalLeadsOf_def emptyHandedScout_def)
  have r: "result_reasoning (runScoutThenSnipe sixSearchesEnv listings (getScoutConfig listings None None None)
        DEFAULT_BUDGET None plainPrompt emptyHandedScout)
      = ''Scouted 12 leads across Craigslist RSS (5 cities), Tavily Search. ''
        @ ''No leads passed the minimum profit threshold of $10. ''
        @ ''Source issues: craigslist: blocked (HTTP 403)''"
    by (simp add: runScoutThenSnipe_def takesCryptoPath_def allQualifiedOf_def totalLeadsOf_def
        emptyHandedScout_def
        diagSummary_def orDefault_def toFixed_def decimal.simps digitChar_def Let_def)
  note inst = zero_qualified_leads [of "getScoutConfig listings None None None" emptyHandedScout
      sixSearchesEnv listings DEFAULT_BUDGET None plainPrompt, THEN mp, OF conjI [OF c e]]
  from inst t
  have "success (runScoutThenSnipe sixSearchesEnv listings (getScoutConfig listings None None None)
        DEFAULT_BUDGET None plainPrompt emptyHandedScout)
   \<and> totalInputTokens (runScoutThenSnipe sixSearchesEnv listings (getScoutConfig listings None None None)
        DEFAULT_BUDGET None plainPrompt emptyHandedScout) = 0
   \<and> leadsFound (scoutStats (runScoutThenSnipe sixSearchesEnv listings
        (getScoutConfig listings None None None) DEFAULT_BUDGET None plainPrompt emptyHandedScout))
       = 12"
    by simp
  with c e r show ?thesis by blast
qed

lemma matchLiteral_prefix: "matchLiteral False l s = Some r \<Longrightarrow> s = l @ r"
proof (induction l arbitrary: s)
  case Nil
  then show ?case by simp
next
  case (Cons p ps)
  then show ?case by (cases s) (auto split: if_splits)
qed

lemma no_tag_no_block:
  assumes "\<not> (\<exists>pre post. t = pre @ ''<opportunities>'' @ post)"
  shows "rxSearch False opportunitiesPattern t = None"
  using assms
proof (induction t)
  case Nil
  then show ?case
    by (simp add: opportunitiesPattern_def seqs_def)
next
  case (Cons c cs)
  have tail: "\<not> (\<exists>pre post. cs = pre @ ''<opportunities>'' @ post)"
  proof
    assume "\<exists>pre post. cs = pre @ ''<opportunities>'' @ post"
    then obtain pre post where "cs = pre @ ''<opportunities>'' @ post" by blast
    then have "c # cs = (c # pre) @ ''<opportunities>'' @ post" by simp
    with Cons.prems show False by blast
  qed
  have "matchLiteral False ''<opportunities>'' (c # cs) = None"
  proof (cases "matchLiteral False ''<opportunities>'' (c # cs)")
    case (Some r)
    from matchLiteral_prefix [OF Some] have "c # cs = [] @ ''<opportunities>'' @ r" by simp
    with Cons.prems show ?thesis by blast
  qed simp
  then have "rxMatch False opportunitiesPattern ([], c # cs) = []"
    by (simp add: opportunitiesPattern_def seqs_def)
  with Cons.IH [OF tail] show ?case by simp
qed

lemma parseOpportunities_no_match:
  "rxSearch False opportunitiesPattern (extractReasoning response) = None \<Longrightarrow>
     parseOpportunities JSON_parse response = []"
  by (simp add: parseOpportunities_def)

lemma parseOpportunities_unparsable:
  "rxSearch False opportunitiesPattern (extractReasoning response) = Some [block] \<Longrightarrow>
     JSON_parse block = None \<Longrightarrow> parseOpportunities JSON_parse response = []"
  by (simp add: parseOpportunities_def)

lemma run_completed:
  assumes "\<not> takesCryptoPath agentConfig"
    and "allQualifiedOf scout \<noteq> []"
    and "allowed (checkBudget budgetConfig (todayUTC env) stored)"
    and "snipeLoop env (agentTypeName agent) (needsResearchOf (allQualifiedOf scout) > 0)
           (maxToolCalls + 1) (snipeStart stored (snipeMessage (allQualifiedOf scout)))
         = Inr (final, st)"
  shows "\<exists>response. final = Some response
     \<and> runScoutThenSnipe env agent agentConfig budgetConfig stored snipeMessage scout
       = \<lparr>success = True,
          opportunities = parseOpportunities (jsonParse env) response,
          result_reasoning = extractReasoning response,
          totalInputTokens = sumInputTokens st,
          totalOutputTokens = sumOutputTokens st,
          totalToolCalls = 1 + toolCallsUsed st,
          estimatedCost = estimateCost (sumInputTokens st) (sumOutputTokens st),
          scoutStats = \<lparr>leadsFound = totalLeadsOf scout,
                         leadsQualified = length (allQualifiedOf scout),
                         sourcesChecked = scoutSources scout,
                         diagnostics = Some (allDiagnostics scout)\<rparr>,
          result_error = None,
          abortReason = None\<rparr>"
proof -
  have "toolCallsUsed (snipeStart stored (snipeMessage (allQualifiedOf scout))) = 0"
    by (simp add: snipeStart_def)
  then have "final \<noteq> None"
    using snipeLoop_final_response [OF assms(4)] by simp
  then obtain response where f: "final = Some response" by auto
  from assms f show ?thesis
    by (simp add: runScoutThenSnipe_def Let_def)
qed

text \<open>
  Claim C9. If the text of a response has no opportunities block (the pattern does not
  match, as is the case when the opening tag does not occur), or has a block whose content
  \<open>JSON.parse\<close> rejects, \<open>parseOpportunities\<close> returns the empty list. A run that reaches
  the snipe phase within budget, in which no call throws and whose final response is of
  that kind, returns \<open>success = true\<close> with no opportunities, no \<open>error\<close> and no
  \<open>abortReason\<close>. (The snipe phase is reached by the configurations that do not take the
  crypto short-circuit, which ends a run before any response of the model.)
\<close>

theorem malformed_output_is_no_opportunities:
  "(rxSearch False opportunitiesPattern (extractReasoning response) = None
      \<or> (\<exists>block. rxSearch False opportunitiesPattern (extractReasoning response) = Some [block]
                  \<and> jsonParse env block = None)
      \<longrightarrow> parseOpportunities (jsonParse env) response = [])
   \<and> (\<not> (\<exists>pre post. extractReasoning response = pre @ ''<opportunities>'' @ post)
      \<longrightarrow> rxSearch False opportunitiesPattern (extractReasoning response) = None)
   \<and> (\<not> takesCryptoPath agentConfig
      \<and> allQualifiedOf scout \<noteq> []
      \<and> allowed (checkBudget budgetConfig (todayUTC env) stored)
      \<and> snipeLoop env (agentTypeName agent) (needsResearchOf (allQualifiedOf scout) > 0)
           (maxToolCalls + 1) (snipeStart stored (snipeMessage (allQualifiedOf scout)))
         = Inr (Some response, st)
      \<and> (rxSearch False opportunitiesPattern (extractReasoning response) = None
          \<or> (\<exists>block. rxSearch False opportunitiesPattern (extractReasoning response) = Some [block]
                      \<and> jsonParse env block = None))
      \<longrightarrow> success (runScoutThenSnipe env agent agentConfig budgetConfig stored snipeMessage scout)
        \<and> opportunities (runScoutThenSnipe env agent agentConfig budgetConfig stored snipeMessage scout) = []
        \<and> result_error (runScoutThenSnipe env agent agentConfig budgetConfig stored snipeMessage scout) = None
        \<and> abortReason (runScoutThenSnipe env agent agentConfig budgetConfig stored snipeMessage scout) = None)"
proof (intro conjI impI)
  assume "rxSearch False opportunitiesPattern (extractReasoning response) = None
      \<or> (\<exists>block. rxSearch False opportunitiesPattern (extractReasoning response) = Some [block]
                  \<and> jsonParse env block = None)"
  then show "parseOpportunities (jsonParse env) response = []"
    using parseOpportunities_no_match parseOpportunities_unparsable by blast
next
  assume "\<not> (\<exists>pre post. extractReasoning response = pre @ ''<opportunities>'' @ post)"
  then show "rxSearch False opportunitiesPattern (extractReasoning response) = None"
    by (rule no_tag_no_block)
next
  assume h: "\<not> takesCryptoPath agentConfig
      \<and> allQualifiedOf scout \<noteq> []
      \<and> allowed (checkBudget budgetConfig (todayUTC env) stored)
      \<and> snipeLoop env (agentTypeName agent) (needsResearchOf (allQualifiedOf scout) > 0)
           (maxToolCalls + 1) (snipeStart stored (snipeMessage (allQualifiedOf scout)))
         = Inr (Some response, st)
      \<and> (rxSearch False opportunitiesPattern (extractReasoning response) = None
          \<or> (\<exists>block. rxSearch False opportunitiesPattern (extractReasoning response) = Some [block]
                      \<and> jsonParse env block = None))"
  then have empty: "parseOpportunities (jsonParse env) response = []"
    using parseOpportunities_no_match parseOpportunities_unparsable by blast
  from h have p: "\<not> takesCryptoPath agentConfig"
    and a: "allQualifiedOf scout \<noteq> []"
    and b: "allowed (checkBudget budgetConfig (todayUTC env) stored)"
    and c: "snipeLoop env (agentTypeName agent) (needsResearchOf (allQualifiedOf scout) > 0)
           (maxToolCalls + 1) (snipeStart stored (snipeMessage (allQualifiedOf scout)))
         = Inr (Some response, st)"
    by blast+
  from run_completed [where snipeMessage = snipeMessage and agentConfig = agentConfig, OF p a b c]
    empty
  have r: "runScoutThenSnipe env agent agentConfig budgetConfig stored snipeMessage scout
       = \<lparr>success = True,
          opportunities = [],
          result_reasoning = extractReasoning response,
          totalInputTokens = sumInputTokens st,
          totalOutputTokens = sumOutputTokens st,
          totalToolCalls = 1 + toolCallsUsed st,
          estimatedCost = estimateCost (sumInputTokens st) (sumOutputTokens st),
          scoutStats = \<lparr>leadsFound = totalLeadsOf scout,
                         leadsQualified = length (allQualifiedOf scout),
                         sourcesChecked = scoutSources scout,
                         diagnostics = Some (allDiagnostics scout)\<rparr>,
          result_error = None,
          abortReason = None\<rparr>"
    by simp
  show "success (runScoutThenSnipe env agent agentConfig budgetConfig stored snipeMessage scout)"
    and "opportunities (runScoutThenSnipe env agent agentConfig budgetConfig stored snipeMessage scout) = []"
    and "result_error (runScoutThenSnipe env agent agentConfig budgetConfig stored snipeMessage scout) = None"
    and "abortReason (runScoutThenSnipe env agent agentConfig budgetConfig stored snipeMessage scout) = None"
    by (simp_all add: r)
qed

lemma no_bracket_no_tag:
  "CHR ''<'' \<notin> set t \<Longrightarrow> \<not> (\<exists>pre post. t = pre @ ''<opportunities>'' @ post)"
  by auto

lemma plainReply_loop:
  "\<exists>st. snipeLoop plainReplyEnv (agentTypeName retail)
           (needsResearchOf (allQualifiedOf oneLeadScout) > 0) (maxToolCalls + 1)
           (snipeStart None (plainPrompt (allQualifiedOf oneLeadScout)))
         = Inr (Some (textResponse ''No profitable leads.''), st)"
  by (simp add: plainReplyEnv_def replyingEnv_def textResponse_def maxToolCalls_def
      eval_nat_numeral Let_def)

lemma brokenReply_loop:
  "\<exists>st. snipeLoop brokenReplyEnv (agentTypeName retail)
           (needsResearchOf (allQualifiedOf oneLeadScout) > 0) (maxToolCalls + 1)
           (snipeStart None (plainPrompt (allQualifiedOf oneLeadScout)))
         = Inr (Some (textResponse ''<opportunities>not json</opportunities>''), st)"
  by (simp add: brokenReplyEnv_def replyingEnv_def textResponse_def maxToolCalls_def
      eval_nat_numeral Let_def)

lemma plainReply_no_block:
  "rxSearch False opportunitiesPattern (extractReasoning (textResponse ''No profitable leads.'')) = None"
  by (simp add: textResponse_def extractReasoning_def opportunitiesPattern_def seqs_def)

lemma brokenReply_block:
  "rxSearch False opportunitiesPattern
     (extractReasoning (textResponse ''<opportunities>not json</opportunities>'')) = Some [''not json'']"
  by (simp add: textResponse_def extractReasoning_def opportunitiesPattern_def seqs_def
      rxSpaces_def isSpace_def)

theorem malformed_output_is_no_opportunities_witness:
  "\<not> takesCryptoPath (getScoutConfig retail None None None)
   \<and> allQualifiedOf oneLeadScout \<noteq> []
   \<and> allowed (checkBudget DEFAULT_BUDGET (todayUTC plainReplyEnv) None)
   \<and> success (runScoutThenSnipe plainReplyEnv retail (getScoutConfig retail None None None)
        DEFAULT_BUDGET None plainPrompt oneLeadScout)
   \<and> opportunities (runScoutThenSnipe plainReplyEnv retail (getScoutConfig retail None None None)
        DEFAULT_BUDGET None plainPrompt oneLeadScout) = []
   \<and> jsonParse brokenReplyEnv ''not json'' = None
   \<and> success (runScoutThenSnipe brokenReplyEnv retail (getScoutConfig retail None None None)
        DEFAULT_BUDGET None plainPrompt oneLeadScout)
   \<and> opportunities (runScoutThenSnipe brokenReplyEnv retail (getScoutConfig retail None None None)
        DEFAULT_BUDGET None plainPrompt oneLeadScout) = []
   \<and> \<not> (\<exists>pre post. extractReasoning (textResponse ''No profitable leads.'')
                        = pre @ ''<opportunities>'' @ post)
   \<and> rxSearch False opportunitiesPattern (extractReasoning (textResponse ''No profitable leads.''))
       = None
   \<and> parseOpportunities (jsonParse plainReplyEnv) (textResponse ''No profitable leads.'') = []"
proof -
  have p: "\<not> takesCryptoPath (getScoutConfig retail None None None)"
    by (simp add: takesCryptoPath_def)
  have a: "allQualifiedOf oneLeadScout \<noteq> []"
    by (simp add: allQualifiedOf_def oneLeadScout_def)
  have b1: "allowed (checkBudget DEFAULT_BUDGET (todayUTC plainReplyEnv) None)"
    and b2: "allowed (checkBudget DEFAULT_BUDGET (todayUTC brokenReplyEnv) None)"
    by (simp_all add: checkBudget_def readUsage_def freshUsage_def DEFAULT_BUDGET_def)
  have bad: "jsonParse brokenReplyEnv ''not json'' = None"
    by (simp add: brokenReplyEnv_def replyingEnv_def sampleParse_def sampleBlock_def)
  from plainReply_loop obtain st1 where l1:
    "snipeLoop plainReplyEnv (agentTypeName retail)
           (needsResearchOf (allQualifiedOf oneLeadScout) > 0) (maxToolCalls + 1)
           (snipeStart None (plainPrompt (allQualifiedOf oneLeadScout)))
         = Inr (Some (textResponse ''No profitable leads.''), st1)"
    by blast
  from brokenReply_loop obtain st2 where l2:
    "snipeLoop brokenReplyEnv (agentTypeName retail)
           (needsResearchOf (allQualifiedOf oneLeadScout) > 0) (maxToolCalls + 1)
           (snipeStart None (plainPrompt (allQualifiedOf oneLeadScout)))
         = Inr (Some (textResponse ''<opportunities>not json</opportunities>''), st2)"
    by blast
  note run1 = malformed_output_is_no_opportunities
      [where response = "textResponse ''No profitable leads.''" and env = plainReplyEnv
        and scout = oneLeadScout and budgetConfig = DEFAULT_BUDGET and stored = None
        and agent = retail and snipeMessage = plainPrompt and st = st1
        and agentConfig = "getScoutConfig retail None None None",
        THEN conjunct2, THEN conjunct2, THEN mp,
        OF conjI [OF p conjI [OF a conjI [OF b1 conjI [OF l1 disjI1 [OF plainReply_no_block]]]]]]
  have ex: "\<exists>block. rxSearch False opportunitiesPattern
      (extractReasoning (textResponse ''<opportunities>not json</opportunities>'')) = Some [block]
      \<and> jsonParse brokenReplyEnv block = None"
    using brokenReply_block bad by blast
  note run2 = malformed_output_is_no_opportunities
      [where response = "textResponse ''<opportunities>not json</opportunities>''"
        and env = brokenReplyEnv
        and scout = oneLeadScout and budgetConfig = DEFAULT_BUDGET and stored = None
        and agent = retail and snipeMessage = plainPrompt and st = st2
        and agentConfig = "getScoutConfig retail None None None",
        THEN conjunct2, THEN conjunct2, THEN mp,
        OF conjI [OF p conjI [OF a conjI [OF b2 conjI [OF l2 disjI2 [OF ex]]]]]]
  have "CHR ''<'' \<notin> set (extractReasoning (textResponse ''No profitable leads.''))"
    by (simp add: textResponse_def extractReasoning_def)
  then have untagged: "\<not> (\<exists>pre post. extractReasoning (textResponse ''No profitable leads.'')
                        = pre @ ''<opportunities>'' @ post)"
    by (rule no_bracket_no_tag)
  note unmatched = malformed_output_is_no_opportunities
      [where response = "textResponse ''No profitable leads.''",
        THEN conjunct2, THEN conjunct1, THEN mp, OF untagged]
  note unparsed = malformed_output_is_no_opportunities
      [where response = "textResponse ''No profitable leads.''" and env = plainReplyEnv,
        THEN conjunct1, THEN mp, OF disjI1 [OF unmatched]]
  from p a b1 bad run1 run2 untagged unmatched unparsed show ?thesis
    by blast
qed

end
